(* ===== verification/Prelude.thy ===== *)
theory Prelude
  imports Main
begin

section \<open>Shared types, collections and list lemmas\<close>

text \<open>
  What every component of the model shares: the collections of rewrite rules the component proofs
  draw on, the types of bytes, instants and errors, and the facts on list suffixes that the log
  ring and the display tails need.

  Go strings and byte slices are both byte sequences, so both are \<open>string\<close> (a \<open>char\<close> is one
  byte). Instants and durations are integers of nanoseconds; the zero instant of Go's
  \<open>time.Time\<close> is \<open>0\<close>. Go's \<open>int\<close> is an \<open>int\<close>: every counter of the modelled code is bounded by
  \<open>MaxSafeInteger\<close> before it is used, and the bounds lemmas state it. A nil pointer is
  \<open>None\<close>.
\<close>

named_theorems contract_simps \<open>unfolding rules of the wire validators\<close>
named_theorems entry_simps \<open>unfolding rules of the entry level operations\<close>
named_theorems svc_simps \<open>unfolding rules of the service level operations\<close>

type_synonym bytes = "char list"
type_synonym instant = int
type_synonym duration = int

subsection \<open>Errors\<close>

text \<open>
  \<open>contract.Code\<close> and \<open>contract.Error\<close> of \<open>internal/contract/contract.go\<close>. The model keeps the
  code and the \<open>reason\<close> member of the details (the empty string when the code gives none); the
  message text, the other details and the wrapped cause are diagnostics that no branch of the
  modelled code reads. \<open>Cause\<close> is a non-contract error (a filesystem or context error).
\<close>

datatype Code =
    CodeInvalidArgument | CodeNotFound | CodeConflict | CodeUnavailable
  | CodeTrustFailed | CodeProtocolMismatch | CodeNotImplemented | CodeInternal

datatype error = Error Code string | Cause string

type_synonym 'a res = "error + 'a"

abbreviation errInvalid :: "error + 'a" where
  "errInvalid \<equiv> Inl (Error CodeInvalidArgument '''')"

definition is_ok :: "'a res \<Rightarrow> bool" where
  "is_ok r = (case r of Inl _ \<Rightarrow> False | Inr _ \<Rightarrow> True)"

lemma is_ok_simps [simp]: "is_ok (Inr x)" "\<not> is_ok (Inl e)"
  by (simp_all add: is_ok_def)

lemma is_ok_E [elim]: "is_ok r \<Longrightarrow> (\<And>x. r = Inr x \<Longrightarrow> P) \<Longrightarrow> P"
  by (cases r) simp_all

text \<open>A sequence of checks, the first failing one deciding (early returns).\<close>

fun firstErr :: "unit res list \<Rightarrow> unit res" where
  "firstErr [] = Inr ()"
| "firstErr (Inl e # _) = Inl e"
| "firstErr (Inr _ # rs) = firstErr rs"

lemma firstErr_ok_iff: "firstErr rs = Inr () \<longleftrightarrow> (\<forall>r \<in> set rs. r = Inr ())"
  by (induction rs rule: firstErr.induct) auto

lemma res_unit_cases: "(r :: unit res) = Inr () \<or> (\<exists>e. r = Inl e)"
  by (cases r) auto

subsection \<open>Suffixes of lists\<close>

definition lastn :: "nat \<Rightarrow> 'a list \<Rightarrow> 'a list" where
  "lastn k xs = drop (length xs - k) xs"

lemma length_lastn [simp]: "length (lastn k xs) = min k (length xs)"
  by (simp add: lastn_def)

lemma lastn_all [simp]: "length xs \<le> k \<Longrightarrow> lastn k xs = xs"
  by (simp add: lastn_def)

lemma lastn_0 [simp]: "lastn 0 xs = []"
  by (simp add: lastn_def)

lemma lastn_Nil [simp]: "lastn k [] = []"
  by (simp add: lastn_def)

lemma lastn_lastn [simp]: "lastn j (lastn k xs) = lastn (min j k) xs"
proof -
  have "length xs - min k (length xs) + (min k (length xs) - j) = length xs - min j k"
    if "k \<le> length xs" using that by (auto simp: min_def)
  then show ?thesis
    by (cases "k \<le> length xs") (auto simp: lastn_def min_def)
qed

lemma lastn_append:
  "lastn k (xs @ ys) = lastn (k - length ys) xs @ lastn k ys"
proof -
  have "length xs + length ys - k = length xs - (k - length ys)" if "length ys \<le> k"
    using that by simp
  then show ?thesis by (cases "length ys \<le> k") (auto simp: lastn_def)
qed

lemma lastn_append_lastn:
  "lastn k (lastn k xs @ ys) = lastn k (xs @ ys)"
  by (simp add: lastn_append min_def)

lemma lastn_suffix: "\<exists>ps. xs = ps @ lastn k xs"
  unfolding lastn_def by (metis append_take_drop_id)

lemma set_lastn_subset: "set (lastn k xs) \<subseteq> set xs"
  by (auto simp: lastn_def dest: in_set_dropD)

subsection \<open>Maps and counting\<close>

lemma dom_upd_same [simp]: "m k = Some v \<Longrightarrow> dom (m(k \<mapsto> w)) = dom m"
  by auto

lemma sorted_insort_insert_distinct:
  "sorted xs \<Longrightarrow> distinct xs \<Longrightarrow> x \<notin> set xs \<Longrightarrow> sorted (insort x xs) \<and> distinct (insort x xs)"
  for xs :: "'a::linorder list"
  by (simp add: sorted_insort distinct_insort)

end
