(* ===== verification/Contract_Log.thy ===== *)
theory Contract_Log
  imports Prelude
begin

section \<open>The retained log document\<close>

text \<open>
  \<open>contract.TaskLog\<close>, its invariants and its public metadata (\<open>internal/contract/task_view.go\<close>,
  \<open>task_record.go\<close>).
\<close>

definition MaxSafeInteger :: int where
  "MaxSafeInteger = 9007199254740991"

definition MaxLogRetainedBytes :: nat where
  "MaxLogRetainedBytes = 10485760"

definition MaxLogChunkBytes :: nat where
  "MaxLogChunkBytes = 16384"

record TaskLog =
  Data :: bytes
  SourceBytes :: int
  ReceivedBytes :: int
  Incomplete :: bool
  CounterOverflow :: bool

definition emptyLog :: TaskLog where
  "emptyLog = \<lparr>Data = [], SourceBytes = 0, ReceivedBytes = 0, Incomplete = False, CounterOverflow = False\<rparr>"

definition TaskLog_Validate :: "TaskLog \<Rightarrow> unit res" where
  "TaskLog_Validate l =
     (if length (Data l) > MaxLogRetainedBytes then errInvalid
      else if int (length (Data l)) > ReceivedBytes l \<or> ReceivedBytes l > SourceBytes l
              \<or> SourceBytes l > MaxSafeInteger then errInvalid
      else if ReceivedBytes l < SourceBytes l \<and> \<not> Incomplete l then errInvalid
      else if CounterOverflow l \<and> \<not> Incomplete l then errInvalid
      else Inr ())"

record TaskLogMeta =
  m_RetainedBytes :: int
  m_SourceBytes :: int
  m_ReceivedBytes :: int
  m_DroppedBytes :: int
  m_Truncated :: bool
  m_Incomplete :: bool
  m_CounterOverflow :: bool
  m_LogMayBeIncomplete :: bool

definition MetaOf :: "TaskLog \<Rightarrow> bool \<Rightarrow> TaskLogMeta" where
  "MetaOf l mayBeIncomplete =
     \<lparr>m_RetainedBytes = int (length (Data l)), m_SourceBytes = SourceBytes l,
      m_ReceivedBytes = ReceivedBytes l,
      m_DroppedBytes = max 0 (SourceBytes l - int (length (Data l))),
      m_Truncated = (ReceivedBytes l > int (length (Data l)) \<or> Incomplete l),
      m_Incomplete = Incomplete l, m_CounterOverflow = CounterOverflow l,
      m_LogMayBeIncomplete = mayBeIncomplete\<rparr>"

definition TaskLogMeta_validate :: "TaskLogMeta \<Rightarrow> unit res" where
  "TaskLogMeta_validate m =
     (if m_RetainedBytes m < 0 \<or> m_RetainedBytes m > int MaxLogRetainedBytes
          \<or> m_RetainedBytes m > m_ReceivedBytes m \<or> m_ReceivedBytes m > m_SourceBytes m
          \<or> m_SourceBytes m > MaxSafeInteger then errInvalid
      else if m_DroppedBytes m \<noteq> max 0 (m_SourceBytes m - m_RetainedBytes m) then errInvalid
      else if m_Truncated m \<noteq> (m_ReceivedBytes m > m_RetainedBytes m \<or> m_Incomplete m) then errInvalid
      else if m_CounterOverflow m \<and> \<not> m_Incomplete m then errInvalid
      else Inr ())"

definition checkTails :: "nat \<Rightarrow> nat \<Rightarrow> unit res" where
  "checkTails primary late = (if primary + late > MaxLogRetainedBytes then errInvalid else Inr ())"

subsection \<open>Facts\<close>

definition log_valid :: "TaskLog \<Rightarrow> bool" where
  "log_valid l \<longleftrightarrow> length (Data l) \<le> MaxLogRetainedBytes \<and> int (length (Data l)) \<le> ReceivedBytes l
     \<and> ReceivedBytes l \<le> SourceBytes l \<and> SourceBytes l \<le> MaxSafeInteger
     \<and> (ReceivedBytes l < SourceBytes l \<longrightarrow> Incomplete l) \<and> (CounterOverflow l \<longrightarrow> Incomplete l)"

lemma TaskLog_Validate_iff: "TaskLog_Validate l = Inr () \<longleftrightarrow> log_valid l"
  by (auto simp: TaskLog_Validate_def log_valid_def)

lemma log_valid_emptyLog [simp]: "log_valid emptyLog"
  by (simp add: log_valid_def emptyLog_def MaxSafeInteger_def)

lemma log_valid_drop_data: "log_valid l \<Longrightarrow> log_valid (l\<lparr>Data := lastn k (Data l)\<rparr>)"
  by (auto simp: log_valid_def)

lemma log_valid_clear [simp]: "log_valid l \<Longrightarrow> log_valid (l\<lparr>Data := []\<rparr>)"
  by (auto simp: log_valid_def)

lemma MetaOf_valid_iff: "TaskLogMeta_validate (MetaOf l b) = Inr () \<longleftrightarrow>
    length (Data l) \<le> MaxLogRetainedBytes \<and> int (length (Data l)) \<le> ReceivedBytes l
     \<and> ReceivedBytes l \<le> SourceBytes l \<and> SourceBytes l \<le> MaxSafeInteger \<and> (CounterOverflow l \<longrightarrow> Incomplete l)"
  by (auto simp: TaskLogMeta_validate_def MetaOf_def)

end
