(* ===== verification/Ring_Buffer.thy ===== *)
theory Ring_Buffer
  imports Prelude
begin

section \<open>Circular byte buffers\<close>

text \<open>
  What the two byte rings of the program share, the plane's \<open>planeLog\<close> and the worker's \<open>outputRing\<close>: Go's
  \<open>make\<close> and \<open>copy\<close>, the list a ring with a head and a length stands for (\<open>ring_list\<close>), and the effect on
  that list of copying out of the ring, dropping its oldest bytes and writing after its tail.
\<close>

text \<open>Go's \<open>make([]byte, size)\<close> and \<open>copy(dst[off:], src)\<close> (bounded by both lengths).\<close>

definition make_bytes :: "nat \<Rightarrow> bytes" where
  "make_bytes sz = replicate sz (CHR 0x00)"

definition copy_at :: "bytes \<Rightarrow> nat \<Rightarrow> bytes \<Rightarrow> bytes" where
  "copy_at dst off src =
     (let c = min (length dst - off) (length src) in take off dst @ take c src @ drop (off + c) dst)"

text \<open>
  The two copies by which \<open>k\<close> bytes leave the ring from index \<open>start\<close>, and by which \<open>d\<close> enters it after the
  tail: up to the end of the storage, then from its beginning.
\<close>

definition ring_out :: "bytes \<Rightarrow> nat \<Rightarrow> bytes \<Rightarrow> nat \<Rightarrow> bytes" where
  "ring_out b start dst k =
     (let src = take (min (length b) (start + k) - start) (drop start b); c = min k (length src)
      in copy_at (copy_at dst 0 (take k src)) c (take (k - c) b))"

definition ring_in :: "bytes \<Rightarrow> nat \<Rightarrow> bytes \<Rightarrow> bytes" where
  "ring_in b t d = copy_at (copy_at b t d) 0 (drop (min (length b - t) (length d)) d)"

definition ring_list :: "bytes \<Rightarrow> nat \<Rightarrow> nat \<Rightarrow> bytes" where
  "ring_list b h n = take n (drop h b @ take h b)"

lemma length_make_bytes [simp]: "length (make_bytes sz) = sz"
  by (simp add: make_bytes_def)

lemma length_copy_at [simp]: "off \<le> length dst \<Longrightarrow> length (copy_at dst off src) = length dst"
  by (auto simp: copy_at_def Let_def min_def)

lemma copy_at_nth: "off \<le> length dst \<Longrightarrow> i < length dst \<Longrightarrow>
   copy_at dst off src ! i = (if off \<le> i \<and> i < off + length src then src ! (i - off) else dst ! i)"
  by (auto simp: copy_at_def Let_def nth_append min_def)

lemma length_ring_list [simp]: "n \<le> length b \<Longrightarrow> length (ring_list b h n) = n"
  by (simp add: ring_list_def)

lemma ring_list_0 [simp]: "ring_list b h 0 = []"
  by (simp add: ring_list_def)

lemma ring_list_start: "n \<le> length b \<Longrightarrow> ring_list b 0 n = take n b"
  by (simp add: ring_list_def)

text \<open>Indices wrap around once.\<close>

lemma ring_mod: "h < L \<Longrightarrow> w \<le> L \<Longrightarrow> (h + w) mod L = (if h + w < L then h + w else h + w - L)" for h :: nat
  by (cases "h + w < L") (simp_all add: le_mod_geq)

lemma ring_list_nth:
  "h < length b \<Longrightarrow> n \<le> length b \<Longrightarrow> i < n \<Longrightarrow> ring_list b h n ! i = b ! ((h + i) mod length b)"
  by (auto simp: ring_list_def nth_append ring_mod add.commute)

lemma ring_mod_add: "((h + a) mod L + i) mod L = (h + (a + i)) mod L" for h :: nat
  by (simp add: mod_add_left_eq add.assoc)

lemma ring_drop:
  assumes "h < length b" and "n \<le> length b" and "k \<le> n"
  shows "ring_list b ((h + k) mod length b) (n - k) = drop k (ring_list b h n)"
proof (rule nth_equalityI)
  have m: "(h + k) mod length b < length b" using assms(1) by (intro mod_less_divisor) linarith
  show "length (ring_list b ((h + k) mod length b) (n - k)) = length (drop k (ring_list b h n))" using assms by simp
  fix i assume "i < length (ring_list b ((h + k) mod length b) (n - k))"
  then have i: "i < n - k" using assms by simp
  then have "ring_list b ((h + k) mod length b) (n - k) ! i = b ! (((h + k) mod length b + i) mod length b)"
    using m assms by (intro ring_list_nth) auto
  also have "\<dots> = ring_list b h n ! (k + i)" using i assms by (subst ring_list_nth) (auto simp: ring_mod_add)
  also have "\<dots> = drop k (ring_list b h n) ! i" using i assms by simp
  finally show "ring_list b ((h + k) mod length b) (n - k) ! i = drop k (ring_list b h n) ! i" .
qed

text \<open>Copying out reads the bytes from \<open>start\<close> on, wrapping.\<close>

lemma ring_out_nth:
  assumes "start < length b" and "k \<le> length b" and "k \<le> length dst" and "i < length dst"
  shows "ring_out b start dst k ! i = (if i < k then b ! ((start + i) mod length b) else dst ! i)"
  using assms by (auto simp: ring_out_def Let_def copy_at_nth ring_mod min_def add.commute)

lemma take_segment: "take k (take (min n (st + k) - st) xs) = take (min n (st + k) - st) xs"
proof -
  have "min k (min n (st + k) - st) = min n (st + k) - st" by linarith
  then show ?thesis by simp
qed

lemma length_ring_out [simp]: "k \<le> length dst \<Longrightarrow> length (ring_out b start dst k) = length dst"
  by (simp add: ring_out_def Let_def)

lemma ring_out_list:
  assumes "h < length b" and "n \<le> length b" and "m + k \<le> n" and "k \<le> length dst"
  shows "ring_out b ((h + m) mod length b) dst k = take k (drop m (ring_list b h n)) @ drop k dst"
proof (rule nth_equalityI)
  show "length (ring_out b ((h + m) mod length b) dst k) = length (take k (drop m (ring_list b h n)) @ drop k dst)" using assms by simp
  have s: "(h + m) mod length b < length b" using assms(1) by (intro mod_less_divisor) linarith
  fix i assume "i < length (ring_out b ((h + m) mod length b) dst k)"
  then have i: "i < length dst" using assms by simp
  show "ring_out b ((h + m) mod length b) dst k ! i = (take k (drop m (ring_list b h n)) @ drop k dst) ! i"
    using s assms i ring_list_nth [of h b n "m + i"] by (auto simp: ring_out_nth nth_append ring_mod_add)
qed

lemma length_ring_in [simp]: "t \<le> length b \<Longrightarrow> length (ring_in b t d) = length b"
  by (simp add: ring_in_def)

lemma ring_in_Nil: "t \<le> length b \<Longrightarrow> ring_in b t d = [] \<longleftrightarrow> b = []"
  using length_ring_in [of t b d] by (metis length_0_conv)

lemma ring_in_list:
  assumes "h < length b" and "n + length d \<le> length b"
  shows "ring_list (ring_in b ((h + n) mod length b) d) h (n + length d) = ring_list b h n @ d"
proof (rule nth_equalityI)
  let ?t = "(h + n) mod length b"
  have t: "?t < length b" using assms(1) by (intro mod_less_divisor) linarith
  have l: "length (ring_in b ?t d) = length b" using t by simp
  show "length (ring_list (ring_in b ?t d) h (n + length d)) = length (ring_list b h n @ d)" using assms l by simp
  fix i assume "i < length (ring_list (ring_in b ?t d) h (n + length d))"
  then have i: "i < n + length d" using assms l by simp
  then have "ring_list (ring_in b ?t d) h (n + length d) ! i = ring_in b ?t d ! ((h + i) mod length b)"
    using ring_list_nth [of h "ring_in b ?t d" "n + length d" i] assms l by simp
  also have "\<dots> = (ring_list b h n @ d) ! i"
    using i assms t ring_list_nth [of h b n i]
    by (auto simp: ring_in_def copy_at_nth nth_append ring_mod intro!: arg_cong [where f = "nth d"])
  finally show "ring_list (ring_in b ?t d) h (n + length d) ! i = (ring_list b h n @ d) ! i" .
qed

end
