(* ===== verification/Plane_Log.thy ===== *)
theory Plane_Log
  imports Contract_Log Ring_Buffer
begin

section \<open>The received output of a live task\<close>

text \<open>
  \<open>planeLog\<close> of \<open>internal/plane/task_log.go\<close>: a byte ring that keeps the newest at most 10 MiB
  of received output, with the next expected offset and the counters. The definitions follow the
  Go code index by index; \<open>retained\<close> is the abstraction to the list of retained bytes, the locale
  \<open>tail_buffer\<close> is what the rest of the plane relies on, and its interpretation shows that
  the ring implements it.
\<close>

record planeLog =
  pl_buf :: bytes
  pl_head :: nat
  pl_n :: nat
  pl_next :: int
  pl_source :: int
  pl_received :: int
  pl_incomplete :: bool
  pl_overflow :: bool
  pl_late :: bool

definition newPlaneLog :: planeLog where
  "newPlaneLog = \<lparr>pl_buf = [], pl_head = 0, pl_n = 0, pl_next = 0, pl_source = 0, pl_received = 0,
     pl_incomplete = False, pl_overflow = False, pl_late = False\<rparr>"

definition newPlaneLogAt :: "int \<Rightarrow> planeLog" where
  "newPlaneLogAt offset = newPlaneLog\<lparr>pl_next := offset, pl_source := offset, pl_late := True\<rparr>"

definition maxInt :: "nat list \<Rightarrow> nat" where
  "maxInt v = foldl (\<lambda>m x. if x > m then x else m) (hd v) (tl v)"

definition copyOut :: "planeLog \<Rightarrow> bytes \<Rightarrow> nat \<Rightarrow> bytes" where
  "copyOut l dst k =
     (if length (pl_buf l) = 0 \<or> k = 0 then dst
      else let src = take (min (length (pl_buf l)) (pl_head l + k) - pl_head l) (drop (pl_head l) (pl_buf l));
               c = min k (length src)
           in copy_at (copy_at dst 0 (take k src)) c (take (k - c) (pl_buf l)))"

text \<open>
  \<open>push\<close> divides by the buffer length twice; Go panics on a zero divisor, so
  \<open>push_divisors\<close> lists the divisors the call evaluates and \<open>push_no_panic\<close> below shows
  that none is zero.
\<close>

definition push_trim :: "planeLog \<Rightarrow> bytes \<Rightarrow> planeLog \<times> bytes" where
  "push_trim l data =
     (if length data \<ge> MaxLogRetainedBytes
      then (l\<lparr>pl_head := 0, pl_n := 0\<rparr>, drop (length data - MaxLogRetainedBytes) data)
      else (l, data))"

definition push_evict :: "planeLog \<Rightarrow> bytes \<Rightarrow> planeLog" where
  "push_evict l data =
     (let over = pl_n l + length data - MaxLogRetainedBytes in
      if over > 0
      then l\<lparr>pl_head := (pl_head l + over) mod length (pl_buf l), pl_n := pl_n l - over\<rparr>
      else l)"

definition push_grow :: "planeLog \<Rightarrow> bytes \<Rightarrow> planeLog" where
  "push_grow l data =
     (let need = pl_n l + length data in
      if need > length (pl_buf l)
      then let sz = min MaxLogRetainedBytes (maxInt [2 * length (pl_buf l), 65536, need])
           in l\<lparr>pl_buf := copyOut l (make_bytes sz) (pl_n l), pl_head := 0\<rparr>
      else l)"

definition push_write :: "planeLog \<Rightarrow> bytes \<Rightarrow> planeLog" where
  "push_write l data =
     (let tl = (pl_head l + pl_n l) mod length (pl_buf l);
          k = min (length (pl_buf l) - tl) (length data)
      in l\<lparr>pl_buf := copy_at (copy_at (pl_buf l) tl data) 0 (drop k data), pl_n := pl_n l + length data\<rparr>)"

definition push :: "planeLog \<Rightarrow> bytes \<Rightarrow> planeLog" where
  "push l data =
     (let (l1, d) = push_trim l data; l2 = push_evict l1 d; l3 = push_grow l2 d in push_write l3 d)"

definition push_divisors :: "planeLog \<Rightarrow> bytes \<Rightarrow> nat list" where
  "push_divisors l data =
     (let (l1, d) = push_trim l data; l2 = push_evict l1 d; l3 = push_grow l2 d
      in (if pl_n l1 + length d > MaxLogRetainedBytes then [length (pl_buf l1)] else []) @ [length (pl_buf l3)])"

definition newPlaneLogFrom :: "TaskLog \<Rightarrow> planeLog" where
  "newPlaneLogFrom lg =
     (let l = newPlaneLog\<lparr>pl_next := SourceBytes lg, pl_source := SourceBytes lg,
                pl_received := ReceivedBytes lg, pl_incomplete := Incomplete lg,
                pl_overflow := CounterOverflow lg\<rparr>
      in if length (Data lg) > 0 then push l (Data lg) else l)"

definition append_log :: "planeLog \<Rightarrow> int \<Rightarrow> bytes \<Rightarrow> planeLog \<times> int res" where
  "append_log l offset data =
     (let fin = offset + int (length data) in
      if fin \<le> pl_next l then (l, Inr (pl_next l))
      else if offset < pl_next l then (l, errInvalid)
      else let l1 = (if offset > pl_next l then l\<lparr>pl_incomplete := True\<rparr> else l);
               l2 = push l1 data
           in (l2\<lparr>pl_received := min MaxSafeInteger (pl_received l2 + int (length data)),
                  pl_next := fin, pl_source := max (pl_source l2) fin\<rparr>, Inr fin))"

definition appendReplay :: "planeLog \<Rightarrow> int \<Rightarrow> bytes \<Rightarrow> planeLog \<times> int res" where
  "appendReplay l offset data =
     (let fin = offset + int (length data) in
      if offset < pl_next l \<and> fin > pl_next l
      then append_log l (pl_next l) (drop (nat (pl_next l - offset)) data)
      else append_log l offset data)"

definition tail_log :: "planeLog \<Rightarrow> nat \<Rightarrow> bytes" where
  "tail_log l k0 =
     (let k = min k0 (pl_n l); out = make_bytes k in
      if k = 0 then out
      else let start = (pl_head l + pl_n l - k) mod length (pl_buf l);
               src = take (min (length (pl_buf l)) (start + k) - start) (drop start (pl_buf l));
               c = min k (length src)
           in copy_at (copy_at out 0 src) c (take (k - c) (pl_buf l)))"

definition meta_log :: "planeLog \<Rightarrow> TaskLog \<times> nat" where
  "meta_log l =
     (\<lparr>Data = [], SourceBytes = pl_source l, ReceivedBytes = pl_received l, Incomplete = pl_incomplete l,
       CounterOverflow = pl_overflow l\<rparr>, pl_n l)"

definition snapshot_log :: "planeLog \<Rightarrow> TaskLog" where
  "snapshot_log l = (fst (meta_log l))\<lparr>Data := copyOut l (make_bytes (pl_n l)) (pl_n l)\<rparr>"

definition finalize_log :: "planeLog \<Rightarrow> int \<Rightarrow> bool \<Rightarrow> bool \<Rightarrow> planeLog \<times> TaskLog" where
  "finalize_log l outputBytes incomplete overflow =
     (let l1 = (if outputBytes > pl_next l then l\<lparr>pl_incomplete := True\<rparr> else l);
          l2 = l1\<lparr>pl_source := max (pl_source l1) outputBytes\<rparr>;
          l3 = l2\<lparr>pl_incomplete := pl_incomplete l2 \<or> incomplete \<or> overflow
                     \<or> (pl_late l2 \<and> pl_received l2 < pl_source l2)\<rparr>;
          l4 = l3\<lparr>pl_overflow := pl_overflow l3 \<or> overflow\<rparr>
      in (l4, snapshot_log l4))"

subsection \<open>The ring as a list of bytes\<close>

definition retained :: "planeLog \<Rightarrow> bytes" where
  "retained l = ring_list (pl_buf l) (pl_head l) (pl_n l)"

definition ring_ok :: "planeLog \<Rightarrow> bool" where
  "ring_ok l \<longleftrightarrow> pl_n l \<le> length (pl_buf l) \<and> length (pl_buf l) \<le> MaxLogRetainedBytes
     \<and> (pl_buf l \<noteq> [] \<longrightarrow> pl_head l < length (pl_buf l)) \<and> (pl_buf l = [] \<longrightarrow> pl_head l = 0)"

lemma length_retained: "ring_ok l \<Longrightarrow> length (retained l) = pl_n l"
  by (simp add: retained_def ring_ok_def)

lemma ring_ok_head: "ring_ok l \<Longrightarrow> 0 < pl_n l \<or> pl_buf l \<noteq> [] \<Longrightarrow> pl_head l < length (pl_buf l) \<and> pl_n l \<le> length (pl_buf l)"
  by (auto simp: ring_ok_def)

lemma copyOut_retained:
  assumes ok: "ring_ok l" and k: "k \<le> pl_n l" "k \<le> length dst"
  shows "copyOut l dst k = take k (retained l) @ drop k dst"
proof (cases "k = 0")
  case False
  then have h: "pl_head l < length (pl_buf l)" "pl_n l \<le> length (pl_buf l)" using ring_ok_head [OF ok] k by auto
  then have "copyOut l dst k = ring_out (pl_buf l) ((pl_head l + 0) mod length (pl_buf l)) dst k"
    using False by (auto simp: copyOut_def ring_out_def Let_def)
  then show ?thesis using ring_out_list [OF h, of 0 k dst] k by (simp add: retained_def)
qed (simp add: copyOut_def)

lemma snapshot_retained: "ring_ok l \<Longrightarrow> Data (snapshot_log l) = retained l"
  by (simp add: snapshot_log_def copyOut_retained length_retained)

lemma tail_log_lastn:
  assumes ok: "ring_ok l"
  shows "tail_log l k = lastn k (retained l)"
proof (cases "min k (pl_n l) = 0")
  case True
  then show ?thesis using ok by (auto simp: tail_log_def make_bytes_def length_retained lastn_def)
next
  case False
  let ?k = "min k (pl_n l)" and ?b = "pl_buf l"
  have h: "pl_head l < length ?b" "pl_n l \<le> length ?b" using False ring_ok_head [OF ok] by auto
  have s: "pl_head l + pl_n l - ?k = pl_head l + (pl_n l - ?k)" by simp
  have "tail_log l k = ring_out ?b ((pl_head l + (pl_n l - ?k)) mod length ?b) (make_bytes ?k) ?k"
    unfolding tail_log_def Let_def if_not_P [OF False] s ring_out_def take_segment ..
  then show ?thesis using ring_out_list [OF h, of "pl_n l - ?k" ?k "make_bytes ?k"] ok
    by (simp add: retained_def [symmetric] lastn_def length_retained min_def)
qed

lemma push_write_retained:
  assumes ok: "ring_ok l" and fit: "pl_n l + length d \<le> length (pl_buf l)" and ne: "pl_buf l \<noteq> []"
  shows "retained (push_write l d) = retained l @ d \<and> ring_ok (push_write l d)"
proof -
  have h: "pl_head l < length (pl_buf l)" using ring_ok_head [OF ok] ne by blast
  then have t: "(pl_head l + pl_n l) mod length (pl_buf l) \<le> length (pl_buf l)" by (intro mod_le_divisor) linarith
  have e: "push_write l d = l\<lparr>pl_buf := ring_in (pl_buf l) ((pl_head l + pl_n l) mod length (pl_buf l)) d, pl_n := pl_n l + length d\<rparr>"
    by (simp add: push_write_def ring_in_def Let_def)
  show ?thesis unfolding e using ring_in_list [OF h fit] t ok fit ring_in_Nil [OF t, of d] by (auto simp: retained_def ring_ok_def)
qed

lemma maxInt3: "maxInt [a, b, c] = max (max a b) c"
  by (simp add: maxInt_def max_def)

lemma push_grow_retained:
  assumes ok: "ring_ok l" and fit: "pl_n l + length d \<le> MaxLogRetainedBytes"
  shows "retained (push_grow l d) = retained l \<and> ring_ok (push_grow l d) \<and> pl_n (push_grow l d) = pl_n l
    \<and> pl_n l + length d \<le> length (pl_buf (push_grow l d)) \<and> (d \<noteq> [] \<longrightarrow> pl_buf (push_grow l d) \<noteq> [])"
proof (cases "pl_n l + length d > length (pl_buf l)")
  case True
  define sz where "sz = min MaxLogRetainedBytes (maxInt [2 * length (pl_buf l), 65536, pl_n l + length d])"
  have sz: "pl_n l + length d \<le> sz" "sz \<le> MaxLogRetainedBytes" "0 < sz"
    using fit by (auto simp: sz_def maxInt3 MaxLogRetainedBytes_def)
  have co: "copyOut l (make_bytes sz) (pl_n l) = retained l @ drop (pl_n l) (make_bytes sz)"
    using sz ok by (subst copyOut_retained) (auto simp: length_retained)
  have eq: "push_grow l d = l\<lparr>pl_buf := retained l @ drop (pl_n l) (make_bytes sz), pl_head := 0\<rparr>"
    using True by (simp add: push_grow_def Let_def sz_def [symmetric] co)
  have len: "length (retained l @ drop (pl_n l) (make_bytes sz)) = sz"
    using ok sz by (simp add: length_retained)
  from sz(3) len have "retained l @ drop (pl_n l) (make_bytes sz) \<noteq> []" by (metis less_numeral_extra(3) list.size(3))
  with len sz ok show ?thesis unfolding eq
    by (auto simp: ring_ok_def retained_def [of "l\<lparr>pl_buf := _, pl_head := _\<rparr>"] ring_list_start length_retained)
next
  case False
  with ok show ?thesis by (auto simp: push_grow_def Let_def)
qed

lemma push_evict_retained:
  assumes ok: "ring_ok l" and d: "length d \<le> MaxLogRetainedBytes"
  shows "retained (push_evict l d) = lastn (MaxLogRetainedBytes - length d) (retained l)
    \<and> ring_ok (push_evict l d) \<and> pl_n (push_evict l d) + length d \<le> MaxLogRetainedBytes"
proof (cases "pl_n l + length d > MaxLogRetainedBytes")
  case True
  let ?o = "pl_n l + length d - MaxLogRetainedBytes" and ?b = "pl_buf l" and ?h = "pl_head l"
  have o: "0 < ?o" "?o \<le> pl_n l" using True d by auto
  have "0 < pl_n l" using o by linarith
  then have h: "?h < length ?b" "pl_n l \<le> length ?b" using ring_ok_head [OF ok] by auto
  have m: "(?h + ?o) mod length ?b < length ?b" using h(1) by (intro mod_less_divisor) linarith
  have eq: "push_evict l d = l\<lparr>pl_head := (?h + ?o) mod length ?b, pl_n := pl_n l - ?o\<rparr>"
    using o by (simp add: push_evict_def Let_def)
  have "retained (push_evict l d) = drop ?o (retained l)" using ring_drop [OF h o(2)] by (simp add: eq retained_def)
  moreover have "drop ?o (retained l) = lastn (MaxLogRetainedBytes - length d) (retained l)"
    using ok d True by (simp add: lastn_def length_retained)
  moreover have "ring_ok (push_evict l d)" unfolding eq using ok m by (auto simp: ring_ok_def)
  ultimately show ?thesis using o d by (simp add: eq)
next
  case False
  with ok show ?thesis by (auto simp: push_evict_def Let_def length_retained)
qed

lemma push_trim_retained:
  assumes ok: "ring_ok l" and t: "push_trim l data = (l1, d)"
  shows "ring_ok l1 \<and> length d \<le> MaxLogRetainedBytes \<and> (data \<noteq> [] \<longrightarrow> d \<noteq> [])
    \<and> lastn MaxLogRetainedBytes (retained l1 @ d) = lastn MaxLogRetainedBytes (retained l @ data)"
proof (cases "length data \<ge> MaxLogRetainedBytes")
  case True
  with t have l1: "l1 = l\<lparr>pl_head := 0, pl_n := 0\<rparr>" and d: "d = lastn MaxLogRetainedBytes data"
    by (auto simp: push_trim_def lastn_def)
  have "0 < MaxLogRetainedBytes" by (simp add: MaxLogRetainedBytes_def)
  with True have "d \<noteq> []" by (auto simp: d lastn_def)
  with True ok show ?thesis
    by (auto simp: l1 d ring_ok_def retained_def lastn_append)
next
  case False
  with t ok show ?thesis by (auto simp: push_trim_def)
qed

lemma push_retained:
  assumes ok: "ring_ok l" and ne: "data \<noteq> []"
  shows "retained (push l data) = lastn MaxLogRetainedBytes (retained l @ data) \<and> ring_ok (push l data)"
proof -
  obtain l1 d where t: "push_trim l data = (l1, d)" by fastforce
  note T = push_trim_retained [OF ok t]
  note E = push_evict_retained [OF T [THEN conjunct1], of d]
  note G = push_grow_retained [of "push_evict l1 d" d]
  have W: "retained (push_write (push_grow (push_evict l1 d) d) d)
      = lastn (MaxLogRetainedBytes - length d) (retained l1) @ d
      \<and> ring_ok (push_write (push_grow (push_evict l1 d) d) d)"
    using push_write_retained [of "push_grow (push_evict l1 d) d" d] T E G ne by simp
  have "lastn (MaxLogRetainedBytes - length d) (retained l1) @ d = lastn MaxLogRetainedBytes (retained l1 @ d)"
    using T by (simp add: lastn_append)
  with W T show ?thesis by (simp add: push_def t)
qed

lemma push_no_panic:
  assumes ok: "ring_ok l" and ne: "data \<noteq> []"
  shows "\<forall>v \<in> set (push_divisors l data). v \<noteq> 0"
proof -
  obtain l1 d where t: "push_trim l data = (l1, d)" by fastforce
  note T = push_trim_retained [OF ok t]
  note E = push_evict_retained [OF T [THEN conjunct1], of d]
  note G = push_grow_retained [of "push_evict l1 d" d]
  have "pl_buf l1 \<noteq> []" if "pl_n l1 + length d > MaxLogRetainedBytes"
    using that T by (auto simp: ring_ok_def)
  with T E G ne show ?thesis by (auto simp: push_divisors_def t Let_def)
qed

subsection \<open>The contract of a bounded tail buffer\<close>

text \<open>
  What the log code relies on: inserting keeps exactly the newest \<open>cap\<close> bytes of everything
  inserted. The ring is one provider; the client facts are proved once, from the laws alone.
\<close>

locale tail_buffer =
  fixes cap :: nat
    and empty_b :: 'b
    and put :: "'b \<Rightarrow> 'a list \<Rightarrow> 'b"
    and content :: "'b \<Rightarrow> 'a list"
    and invar :: "'b \<Rightarrow> bool"
  assumes invar_empty: "invar empty_b"
    and content_empty: "content empty_b = []"
    and invar_put: "invar b \<Longrightarrow> d \<noteq> [] \<Longrightarrow> invar (put b d)"
    and content_put: "invar b \<Longrightarrow> d \<noteq> [] \<Longrightarrow> content (put b d) = lastn cap (content b @ d)"
    and content_bound: "invar b \<Longrightarrow> length (content b) \<le> cap"
begin

lemma invar_puts: "invar b \<Longrightarrow> [] \<notin> set ds \<Longrightarrow> invar (foldl put b ds)"
  by (induction ds arbitrary: b) (auto simp: invar_put)

lemma content_puts:
  "invar b \<Longrightarrow> [] \<notin> set ds \<Longrightarrow> content (foldl put b ds) = lastn cap (content b @ concat ds)"
proof (induction ds arbitrary: b)
  case Nil
  then show ?case by (simp add: content_bound)
next
  case (Cons d ds)
  then have "d \<noteq> []" "[] \<notin> set ds" by auto
  with Cons show ?case
    using lastn_append_lastn [of cap "content b @ d" "concat ds"] by (simp add: invar_put content_put)
qed

lemma content_puts_empty:
  "[] \<notin> set ds \<Longrightarrow> content (foldl put empty_b ds) = lastn cap (concat ds)"
  by (simp add: content_puts invar_empty content_empty)

lemma put_of_prefix:
  assumes "invar b" "content b = lastn cap (take n s)" "n < m" "m \<le> length s"
  shows "content (put b (take (m - n) (drop n s))) = lastn cap (take m s)"
proof -
  have "take m s = take n s @ take (m - n) (drop n s)"
    using assms(3) take_add [of n "m - n" s] by simp
  moreover have "take (m - n) (drop n s) \<noteq> []" using assms(3,4) by auto
  ultimately show ?thesis using assms(1,2) by (simp add: content_put lastn_append_lastn)
qed

end

lemma ring_ok_newPlaneLog [simp]: "ring_ok newPlaneLog" and retained_newPlaneLog [simp]: "retained newPlaneLog = []"
  by (simp_all add: ring_ok_def retained_def newPlaneLog_def)

lemma ring_ok_len: "ring_ok l \<Longrightarrow> length (retained l) \<le> MaxLogRetainedBytes"
  by (simp add: length_retained) (simp add: ring_ok_def)

interpretation ring: tail_buffer MaxLogRetainedBytes newPlaneLog push retained ring_ok
  by unfold_locales (simp_all add: push_retained ring_ok_len)

subsection \<open>The counters\<close>

lemma ring_fields [simp]:
  "ring_ok (l\<lparr>pl_next := a\<rparr>) = ring_ok l" "ring_ok (l\<lparr>pl_source := a\<rparr>) = ring_ok l"
  "ring_ok (l\<lparr>pl_received := a\<rparr>) = ring_ok l" "ring_ok (l\<lparr>pl_incomplete := b\<rparr>) = ring_ok l"
  "ring_ok (l\<lparr>pl_overflow := b\<rparr>) = ring_ok l" "ring_ok (l\<lparr>pl_late := b\<rparr>) = ring_ok l"
  "retained (l\<lparr>pl_next := a\<rparr>) = retained l" "retained (l\<lparr>pl_source := a\<rparr>) = retained l"
  "retained (l\<lparr>pl_received := a\<rparr>) = retained l" "retained (l\<lparr>pl_incomplete := b\<rparr>) = retained l"
  "retained (l\<lparr>pl_overflow := b\<rparr>) = retained l" "retained (l\<lparr>pl_late := b\<rparr>) = retained l"
  by (simp_all add: ring_ok_def retained_def)

text \<open>The fields beside the ring itself, which \<open>push\<close> leaves alone.\<close>

definition counters :: "planeLog \<Rightarrow> int \<times> int \<times> int \<times> bool \<times> bool \<times> bool" where
  "counters l = (pl_next l, pl_source l, pl_received l, pl_incomplete l, pl_overflow l, pl_late l)"

lemma counters_stages:
  "counters (fst (push_trim l d)) = counters l" "counters (push_evict l d) = counters l"
  "counters (push_grow l d) = counters l" "counters (push_write l d) = counters l"
  by (simp_all add: counters_def push_trim_def push_evict_def push_grow_def push_write_def Let_def)

lemma counters_push: "counters (push l d) = counters l"
  by (simp add: push_def counters_stages split_def Let_def)

lemma push_fields [simp]:
  "pl_next (push l d) = pl_next l" "pl_source (push l d) = pl_source l"
  "pl_received (push l d) = pl_received l" "pl_incomplete (push l d) = pl_incomplete l"
  "pl_overflow (push l d) = pl_overflow l" "pl_late (push l d) = pl_late l"
  using counters_push [of l d] by (simp_all add: counters_def)

text \<open>The invariant of a live or staging ring: what makes its finalized log a valid document.\<close>

definition log_inv :: "planeLog \<Rightarrow> bool" where
  "log_inv l \<longleftrightarrow> ring_ok l \<and> int (pl_n l) \<le> pl_received l \<and> pl_received l \<le> pl_next l
     \<and> pl_next l \<le> pl_source l \<and> pl_source l \<le> MaxSafeInteger
     \<and> (pl_received l < pl_source l \<longrightarrow> pl_incomplete l \<or> pl_late l) \<and> (pl_overflow l \<longrightarrow> pl_incomplete l)"

lemma log_inv_newPlaneLog: "log_inv newPlaneLog"
  unfolding log_inv_def by (simp add: MaxSafeInteger_def) (simp add: newPlaneLog_def)

lemma log_inv_newPlaneLogAt: "0 \<le> offset \<Longrightarrow> offset \<le> MaxSafeInteger \<Longrightarrow> log_inv (newPlaneLogAt offset)"
  unfolding log_inv_def newPlaneLogAt_def by simp (simp add: newPlaneLog_def)

lemma pl_n_push: "ring_ok l \<Longrightarrow> d \<noteq> [] \<Longrightarrow> pl_n (push l d) = min MaxLogRetainedBytes (pl_n l + length d)"
  using length_retained [of "push l d"] by (simp add: push_retained length_retained)

lemma log_inv_newPlaneLogFrom:
  assumes "log_valid lg"
  shows "log_inv (newPlaneLogFrom lg) \<and> retained (newPlaneLogFrom lg) = Data lg"
proof -
  let ?l = "newPlaneLog\<lparr>pl_next := SourceBytes lg, pl_source := SourceBytes lg,
      pl_received := ReceivedBytes lg, pl_incomplete := Incomplete lg, pl_overflow := CounterOverflow lg\<rparr>"
  have ok: "ring_ok ?l" and n: "pl_n ?l = 0" by simp (simp add: newPlaneLog_def)
  show ?thesis
  proof (cases "Data lg = []")
    case True
    with assms show ?thesis unfolding newPlaneLogFrom_def log_inv_def log_valid_def
      by (simp add: newPlaneLog_def [THEN arg_cong [where f = pl_n]])
  next
    case False
    with assms show ?thesis using pl_n_push [OF ok False] push_retained [OF ok False]
      unfolding newPlaneLogFrom_def log_inv_def log_valid_def by (simp add: n)
  qed
qed

lemma append_log_inv:
  assumes "log_inv l" "data \<noteq> []" "offset + int (length data) \<le> MaxSafeInteger"
  shows "log_inv (fst (append_log l offset data))"
  using assms pl_n_push [of "l\<lparr>pl_incomplete := True\<rparr>" data] pl_n_push [of l data]
    push_retained [of "l\<lparr>pl_incomplete := True\<rparr>" data] push_retained [of l data]
  unfolding log_inv_def append_log_def Let_def by auto

lemma append_log_ok_next:
  "append_log l offset data = (l', Inr k) \<Longrightarrow> k = pl_next l' \<and> pl_next l' = max (pl_next l) (offset + int (length data))"
  by (auto simp: append_log_def Let_def split: if_splits)

lemma append_log_at_next:
  "data \<noteq> [] \<Longrightarrow> append_log l (pl_next l) data =
     ((push l data)\<lparr>pl_received := min MaxSafeInteger (pl_received l + int (length data)),
        pl_next := pl_next l + int (length data), pl_source := max (pl_source l) (pl_next l + int (length data))\<rparr>,
      Inr (pl_next l + int (length data)))"
  by (simp add: append_log_def Let_def)

subsection \<open>Runs of a log\<close>

text \<open>
  The states a ring passes through: created, seeded with a persisted log, staged at an offset,
  extended by chunks that \<open>DecodeTaskLog\<close> accepted (1 to \<open>MaxLogChunkBytes\<close> bytes, ending at
  \<open>MaxSafeInteger\<close> at the latest) and finalized by a decoded result.
\<close>

definition chunk_ok :: "int \<Rightarrow> bytes \<Rightarrow> bool" where
  "chunk_ok offset data \<longleftrightarrow> 1 \<le> length data \<and> length data \<le> MaxLogChunkBytes
     \<and> 0 \<le> offset \<and> offset \<le> MaxSafeInteger - int (length data)"

inductive log_reach :: "planeLog \<Rightarrow> bool" where
  fresh: "log_reach newPlaneLog"
| seeded: "TaskLog_Validate lg = Inr () \<Longrightarrow> log_reach (newPlaneLogFrom lg)"
| staged: "chunk_ok offset data \<Longrightarrow> log_reach (newPlaneLogAt offset)"
| chunk: "log_reach l \<Longrightarrow> chunk_ok offset data \<Longrightarrow> log_reach (fst (append_log l offset data))"
| replay: "log_reach l \<Longrightarrow> chunk_ok offset data \<Longrightarrow> log_reach (fst (appendReplay l offset data))"
| final: "log_reach l \<Longrightarrow> 0 \<le> ob \<Longrightarrow> ob \<le> MaxSafeInteger \<Longrightarrow> log_reach (fst (finalize_log l ob i v))"

lemma chunk_okD: "chunk_ok offset data \<Longrightarrow>
    data \<noteq> [] \<and> 0 \<le> offset \<and> offset \<le> MaxSafeInteger \<and> offset + int (length data) \<le> MaxSafeInteger"
  by (auto simp: chunk_ok_def)

lemma appendReplay_inv: "log_inv l \<Longrightarrow> chunk_ok offset data \<Longrightarrow> log_inv (fst (appendReplay l offset data))"
  by (auto simp: appendReplay_def Let_def dest!: chunk_okD intro!: append_log_inv)

lemma finalize_log_inv:
  "log_inv l \<Longrightarrow> 0 \<le> ob \<Longrightarrow> ob \<le> MaxSafeInteger \<Longrightarrow> log_inv (fst (finalize_log l ob i v))"
  by (auto simp: log_inv_def finalize_log_def Let_def)

lemma finalize_log_snapshot: "snd (finalize_log l ob i v) = snapshot_log (fst (finalize_log l ob i v))"
  by (simp add: finalize_log_def Let_def)

lemma finalize_log_settled:
  "log_inv l \<Longrightarrow> pl_received (fst (finalize_log l ob i v)) < pl_source (fst (finalize_log l ob i v))
     \<Longrightarrow> pl_incomplete (fst (finalize_log l ob i v))"
  by (auto simp: log_inv_def finalize_log_def Let_def max_def split: if_splits)

lemma snapshot_valid:
  assumes "log_inv l" "pl_received l < pl_source l \<Longrightarrow> pl_incomplete l"
  shows "log_valid (snapshot_log l)"
  using assms snapshot_retained [of l] ring_ok_len [of l] length_retained [of l]
  by (auto simp: log_valid_def log_inv_def snapshot_log_def meta_log_def)

lemma finalize_valid: "log_inv l \<Longrightarrow> 0 \<le> ob \<Longrightarrow> ob \<le> MaxSafeInteger \<Longrightarrow> log_valid (snd (finalize_log l ob i v))"
  unfolding finalize_log_snapshot by (intro snapshot_valid finalize_log_inv finalize_log_settled)

lemma log_reach_inv: "log_reach l \<Longrightarrow> log_inv l"
proof (induction rule: log_reach.induct)
  case (seeded lg)
  then show ?case by (simp add: TaskLog_Validate_iff log_inv_newPlaneLogFrom)
qed (auto intro: log_inv_newPlaneLog log_inv_newPlaneLogAt append_log_inv appendReplay_inv
       finalize_log_inv dest: chunk_okD)

subsection \<open>Replayed output\<close>

text \<open>
  \<open>stream_at l s\<close>: the ring holds the newest part of a prefix of the worker's output stream
  \<open>s\<close>, without a gap. \<open>covered\<close> describes replayed chunks of that stream, each starting at or
  below what has been received when it arrives.
\<close>

definition stream_at :: "planeLog \<Rightarrow> bytes \<Rightarrow> bool" where
  "stream_at l s \<longleftrightarrow> ring_ok l \<and> 0 \<le> pl_next l \<and> pl_next l \<le> int (length s)
     \<and> retained l = lastn MaxLogRetainedBytes (take (nat (pl_next l)) s)"

definition replay_range :: "bytes \<Rightarrow> planeLog \<Rightarrow> nat \<times> nat \<Rightarrow> planeLog" where
  "replay_range s l r = fst (appendReplay l (int (fst r)) (take (snd r) (drop (fst r) s)))"

fun covered :: "bytes \<Rightarrow> nat \<Rightarrow> (nat \<times> nat) list \<Rightarrow> bool" where
  "covered s k [] = True"
| "covered s k ((off, len) # rs) \<longleftrightarrow> off \<le> k \<and> 0 < len \<and> off + len \<le> length s \<and> covered s (max k (off + len)) rs"

lemma replay_range_step:
  assumes s: "stream_at l s" and off: "int off \<le> pl_next l" and len: "0 < len" "off + len \<le> length s"
  shows "stream_at (replay_range s l (off, len)) s
     \<and> pl_next (replay_range s l (off, len)) = max (pl_next l) (int (off + len))
     \<and> pl_incomplete (replay_range s l (off, len)) = pl_incomplete l"
proof -
  define d where "d = take len (drop off s)"
  define k where "k = nat (pl_next l)"
  have k: "pl_next l = int k" using s by (simp add: k_def stream_at_def)
  have d: "length d = len" using len by (simp add: d_def)
  show ?thesis
  proof (cases "off + len \<le> k")
    case True
    then have "replay_range s l (off, len) = l"
      using d by (simp add: replay_range_def d_def [symmetric] appendReplay_def append_log_def k Let_def)
    then show ?thesis using s True by (simp add: k)
  next
    case False
    have dr: "drop (k - off) d = take (off + len - k) (drop k s)"
      using off False by (simp add: d_def k drop_take add.commute)
    have ne: "drop (k - off) d \<noteq> []" using False d off by (simp add: k)
    have "appendReplay l (int off) d = append_log l (pl_next l) (drop (k - off) d)"
      using off False d by (cases "off = k") (auto simp: appendReplay_def Let_def k nat_diff_distrib)
    then have eq: "replay_range s l (off, len) = fst (append_log l (pl_next l) (drop (k - off) d))"
      by (simp add: replay_range_def d_def)
    have "retained (push l (take (off + len - k) (drop k s))) = lastn MaxLogRetainedBytes (take (off + len) s)"
      using s False len by (intro ring.put_of_prefix) (auto simp: stream_at_def k)
    then show ?thesis using s False len ne push_retained [of l "drop (k - off) d"] d off
      unfolding eq append_log_at_next [OF ne] by (auto simp: stream_at_def dr k nat_add_distrib)
  qed
qed

lemma replay_ranges:
  "stream_at l s \<Longrightarrow> covered s (nat (pl_next l)) rs \<Longrightarrow>
     stream_at (foldl (replay_range s) l rs) s \<and> pl_incomplete (foldl (replay_range s) l rs) = pl_incomplete l
     \<and> pl_next (foldl (replay_range s) l rs) = foldl max (pl_next l) (map (\<lambda>r. int (fst r + snd r)) rs)"
proof (induction rs arbitrary: l)
  case (Cons r rs)
  obtain off len where r: "r = (off, len)" by fastforce
  have k: "0 \<le> pl_next l" using Cons.prems by (simp add: stream_at_def)
  have step: "stream_at (replay_range s l r) s \<and> pl_next (replay_range s l r) = max (pl_next l) (int (off + len))
     \<and> pl_incomplete (replay_range s l r) = pl_incomplete l"
    using Cons.prems k unfolding r by (intro replay_range_step) auto
  have "nat (max (pl_next l) (int (off + len))) = max (nat (pl_next l)) (off + len)" using k by linarith
  with Cons.prems step have "covered s (nat (pl_next (replay_range s l r))) rs" by (simp add: r)
  with Cons.IH [of "replay_range s l r"] step show ?case by (simp add: r)
qed simp

subsection \<open>Properties\<close>

text \<open>
  C32. Inserting a nonempty chunk into the ring, for every head position, fill level, growth and
  eviction, keeps exactly the newest at most 10 MiB of everything retained so far followed by the
  chunk, keeps the ring well formed, and never divides by a zero buffer length (which would
  panic).
\<close>

theorem push_refines_tail:
  assumes "ring_ok l" and "data \<noteq> []"
  shows "retained (push l data) = lastn MaxLogRetainedBytes (retained l @ data)
    \<and> ring_ok (push l data) \<and> 0 \<notin> set (push_divisors l data)"
  using push_retained [OF assms] push_no_panic [OF assms] by auto

theorem push_refines_tail_witness:
  "ring_ok newPlaneLog \<and> retained (push newPlaneLog ''ab'') = ''ab''
    \<and> 0 \<notin> set (push_divisors newPlaneLog ''ab'')"
  using push_refines_tail [of newPlaneLog "''ab''"] by (simp add: MaxLogRetainedBytes_def)

text \<open>
  The read side of the ring: \<open>tail\<close> returns the newest at most k retained bytes and
  \<open>snapshot\<close> all of them, wherever the ring's head stands.
\<close>

theorem ring_reads:
  assumes "ring_ok l"
  shows "tail_log l k = lastn k (retained l) \<and> Data (snapshot_log l) = retained l"
  using assms by (simp add: tail_log_lastn snapshot_retained)

theorem ring_reads_witness:
  "tail_log \<lparr>pl_buf = ''cdab'', pl_head = 2, pl_n = 4, pl_next = 4, pl_source = 4, pl_received = 4,
      pl_incomplete = False, pl_overflow = False, pl_late = False\<rparr> 3 = ''bcd''"
  using ring_reads [of "\<lparr>pl_buf = ''cdab'', pl_head = 2, pl_n = 4, pl_next = 4, pl_source = 4,
      pl_received = 4, pl_incomplete = False, pl_overflow = False, pl_late = False\<rparr>" 3]
  by (simp add: ring_ok_def retained_def ring_list_def lastn_def MaxLogRetainedBytes_def)

text \<open>
  C33. Whatever order of accepted chunks, replays and finalizations a ring went through, from a
  fresh, a seeded or a staging ring, the log that finalizing it with a decoded result yields
  satisfies the document's invariants (\<open>TaskLog.Validate\<close>): its tail fits, retained \<open>\<le>\<close>
  received \<open>\<le>\<close> source, and missing or overflowed output is flagged incomplete.
\<close>

theorem finalized_log_validates:
  assumes "log_reach l" and "0 \<le> outputBytes" and "outputBytes \<le> MaxSafeInteger"
  shows "TaskLog_Validate (snd (finalize_log l outputBytes incomplete overflow)) = Inr ()"
  using finalize_valid [OF log_reach_inv [OF assms(1)] assms(2,3)] by (simp add: TaskLog_Validate_iff)

theorem finalized_log_validates_witness:
  "TaskLog_Validate (snd (finalize_log (fst (append_log (newPlaneLogAt 5) 7 ''abc'')) 12 False False)) = Inr ()"
proof -
  have c: "chunk_ok 7 ''abc''" "chunk_ok 5 ''abc''"
    by (simp_all add: chunk_ok_def MaxLogChunkBytes_def MaxSafeInteger_def)
  show ?thesis
    by (rule finalized_log_validates [OF log_reach.chunk [OF log_reach.staged [OF c(2)] c(1)]])
       (simp_all add: MaxSafeInteger_def)
qed

text \<open>
  Replaying any ranges of a worker's output stream, overlapping or repeated, as long as each
  starts at or below the next expected offset, leaves the ring holding the newest part of a
  prefix of that very stream: no byte is duplicated, reordered or lost, the next offset is the
  furthest end seen, and no gap is recorded.
\<close>

theorem replay_keeps_stream:
  assumes "stream_at l s" and "covered s (nat (pl_next l)) rs"
  shows "retained (foldl (replay_range s) l rs)
      = lastn MaxLogRetainedBytes (take (nat (foldl max (pl_next l) (map (\<lambda>r. int (fst r + snd r)) rs))) s)
    \<and> pl_incomplete (foldl (replay_range s) l rs) = pl_incomplete l"
  using replay_ranges [OF assms] by (auto simp: stream_at_def)

theorem replay_keeps_stream_witness:
  "retained (foldl (replay_range ''abcdef'') newPlaneLog [(0, 4), (2, 3), (1, 2)]) = ''abcde''"
  using replay_keeps_stream [of newPlaneLog "''abcdef''" "[(0, 4), (2, 3), (1, 2)]"]
  by (simp add: stream_at_def newPlaneLog_def [THEN arg_cong [where f = pl_next]] MaxLogRetainedBytes_def)

end
