(* ===== verification/Contract_Text.thy ===== *)
theory Contract_Text
  imports Prelude
begin

section \<open>Bytes, UTF-8 and identifier grammars\<close>

text \<open>
  The text predicates of \<open>internal/contract\<close>: Go's UTF-8 decoding (\<open>unicode/utf8\<close>) and the validity predicates of role texts
  and identifiers (\<open>role.go\<close>, \<open>node.go\<close>, \<open>task.go\<close>, \<open>control.go\<close>). The display of logs is in \<open>Text_Display\<close>.
\<close>

abbreviation code_of :: "char \<Rightarrow> nat" where
  "code_of c \<equiv> of_char c"

definition in_range :: "nat \<Rightarrow> nat \<Rightarrow> char \<Rightarrow> bool" where
  "in_range lo hi c \<longleftrightarrow> lo \<le> code_of c \<and> code_of c \<le> hi"

subsection \<open>UTF-8\<close>

text \<open>
  \<open>rune_width s\<close> is the size of the well-formed encoding \<open>s\<close> starts with and 0 when there is
  none (\<open>utf8.DecodeRune\<close> then reports the replacement rune with width 1). The ranges are
  those of the Unicode standard: no overlong form, no surrogate, nothing above U+10FFFF.
\<close>

definition cont :: "char \<Rightarrow> bool" where
  "cont c \<longleftrightarrow> in_range 0x80 0xBF c"

fun rune_width :: "bytes \<Rightarrow> nat" where
  "rune_width [] = 0"
| "rune_width (a # r) =
     (if code_of a < 0x80 then 1
      else if code_of a < 0xC2 then 0
      else if code_of a < 0xE0 then (case r of b # _ \<Rightarrow> if cont b then 2 else 0 | _ \<Rightarrow> 0)
      else if code_of a < 0xF0 then
        (case r of b # c # _ \<Rightarrow>
           if in_range (if code_of a = 0xE0 then 0xA0 else 0x80) (if code_of a = 0xED then 0x9F else 0xBF) b \<and> cont c
           then 3 else 0 | _ \<Rightarrow> 0)
      else if code_of a < 0xF5 then
        (case r of b # c # d # _ \<Rightarrow>
           if in_range (if code_of a = 0xF0 then 0x90 else 0x80) (if code_of a = 0xF4 then 0x8F else 0xBF) b
              \<and> cont c \<and> cont d
           then 4 else 0 | _ \<Rightarrow> 0)
      else 0)"

lemma rune_width_le: "rune_width s \<le> length s"
  by (cases s) (auto split: list.splits)

lemma rune_width_le4: "rune_width s \<le> 4"
  by (cases s) (auto split: list.splits)

text \<open>The value of the rune a well-formed prefix encodes.\<close>

fun rune_value :: "bytes \<Rightarrow> nat" where
  "rune_value s =
     (case rune_width s of
        Suc 0 \<Rightarrow> code_of (s ! 0)
      | Suc (Suc 0) \<Rightarrow> (code_of (s ! 0) - 0xC0) * 64 + (code_of (s ! 1) - 0x80)
      | Suc (Suc (Suc 0)) \<Rightarrow> (code_of (s ! 0) - 0xE0) * 4096 + (code_of (s ! 1) - 0x80) * 64 + (code_of (s ! 2) - 0x80)
      | Suc (Suc (Suc (Suc 0))) \<Rightarrow> (code_of (s ! 0) - 0xF0) * 262144 + (code_of (s ! 1) - 0x80) * 4096
           + (code_of (s ! 2) - 0x80) * 64 + (code_of (s ! 3) - 0x80)
      | _ \<Rightarrow> 0xFFFD)"

text \<open>
  \<open>runes s\<close> is what ranging over a string yields: each rune's value with its bytes, an invalid
  byte yielding U+FFFD alone.
\<close>

function runes :: "bytes \<Rightarrow> (nat \<times> bytes) list" where
  "runes [] = []"
| "runes (a # s) =
     (let w = rune_width (a # s) in
      if w = 0 then (0xFFFD, [a]) # runes s
      else (rune_value (a # s), take w (a # s)) # runes (drop w (a # s)))"
  by pat_completeness auto
termination
  by (relation "measure length") (auto simp del: rune_width.simps intro!: diff_less)

function ValidString :: "bytes \<Rightarrow> bool" where
  "ValidString [] = True"
| "ValidString (a # s) = (let w = rune_width (a # s) in if w = 0 then False else ValidString (drop w (a # s)))"
  by pat_completeness auto
termination
  by (relation "measure length") (auto simp del: rune_width.simps intro!: diff_less)

text \<open>\<open>strings.ToValidUTF8\<close>: each maximal run of invalid bytes becomes one replacement.\<close>

function toValidUTF8 :: "bytes \<Rightarrow> bool \<Rightarrow> bytes \<Rightarrow> bytes" where
  "toValidUTF8 rep inRun [] = []"
| "toValidUTF8 rep inRun (a # s) =
     (let w = rune_width (a # s) in
      if w = 0 then (if inRun then [] else rep) @ toValidUTF8 rep True s
      else take w (a # s) @ toValidUTF8 rep False (drop w (a # s)))"
  by pat_completeness auto
termination
  by (relation "measure (\<lambda>(_, _, s). length s)") (auto simp del: rune_width.simps intro!: diff_less)

definition ToValidUTF8 :: "bytes \<Rightarrow> bytes \<Rightarrow> bytes" where
  "ToValidUTF8 s rep = toValidUTF8 rep False s"

definition replacement :: bytes where
  "replacement = [CHR 0xEF, CHR 0xBF, CHR 0xBD]"

subsection \<open>Validity of texts and identifiers\<close>

definition is_lower :: "char \<Rightarrow> bool" where
  "is_lower c \<longleftrightarrow> in_range 0x61 0x7A c"

definition is_digit :: "char \<Rightarrow> bool" where
  "is_digit c \<longleftrightarrow> in_range 0x30 0x39 c"

definition is_lower_hex :: "char \<Rightarrow> bool" where
  "is_lower_hex c \<longleftrightarrow> is_digit c \<or> in_range 0x61 0x66 c"

definition ValidSlug :: "bytes \<Rightarrow> bool" where
  "ValidSlug s \<longleftrightarrow> \<not> (length s = 0 \<or> length s > 63 \<or> hd s = CHR ''-'' \<or> last s = CHR ''-'')
     \<and> list_all (\<lambda>c. is_lower c \<or> is_digit c \<or> c = CHR ''-'') s"

definition hex_id :: "nat \<Rightarrow> bytes \<Rightarrow> bool" where
  "hex_id k s \<longleftrightarrow> length s = k \<and> list_all is_lower_hex s"

definition ValidNodeID :: "bytes \<Rightarrow> bool" where
  "ValidNodeID s \<longleftrightarrow> take 2 s = ''n_'' \<and> hex_id 32 (drop 2 s)"

definition ValidTaskID :: "bytes \<Rightarrow> bool" where
  "ValidTaskID s \<longleftrightarrow> take 2 s = ''t_'' \<and> hex_id 32 (drop 2 s)"

definition ValidOperationID :: "bytes \<Rightarrow> bool" where
  "ValidOperationID s \<longleftrightarrow> hex_id 32 s"

definition ValidStopID :: "bytes \<Rightarrow> bool" where
  "ValidStopID s \<longleftrightarrow> hex_id 32 s"

definition ValidDigest :: "bytes \<Rightarrow> bool" where
  "ValidDigest s \<longleftrightarrow> hex_id 64 s"

definition ValidSoftwareVersion :: "bytes \<Rightarrow> bool" where
  "ValidSoftwareVersion v \<longleftrightarrow> \<not> (length v = 0 \<or> length v > 128) \<and> list_all (in_range 0x21 0x7E) v"

definition SafeText :: "bytes \<Rightarrow> nat \<Rightarrow> bytes" where
  "SafeText s mx = map (\<lambda>c. if code_of c < 0x20 \<or> code_of c > 0x7E then CHR ''?'' else c) (take mx s)"

text \<open>\<open>unicode.IsControl\<close>: the C0 and C1 ranges and DEL.\<close>

definition IsControl :: "nat \<Rightarrow> bool" where
  "IsControl r \<longleftrightarrow> r < 0x20 \<or> (0x7F \<le> r \<and> r \<le> 0x9F)"

definition validText :: "bytes \<Rightarrow> nat \<Rightarrow> bool" where
  "validText s mx \<longleftrightarrow> \<not> (length s = 0 \<or> length s > mx \<or> \<not> ValidString s)
     \<and> list_all (\<lambda>r. \<not> IsControl (fst r)) (runes s)"

definition maxRoleText :: nat where
  "maxRoleText = 1024"

definition ValidRolePath :: "bytes \<Rightarrow> bool" where
  "ValidRolePath p \<longleftrightarrow> validText p maxRoleText \<and> p \<noteq> [] \<and> hd p = CHR ''/''"

text \<open>
  \<open>unicode.IsSpace\<close>, which \<open>strings.TrimSpace\<close> trims; a text is blank when every rune is space.
\<close>

definition IsSpace :: "nat \<Rightarrow> bool" where
  "IsSpace r \<longleftrightarrow> (0x09 \<le> r \<and> r \<le> 0x0D) \<or> r \<in> {0x20, 0x85, 0xA0, 0x1680, 0x2028, 0x2029, 0x202F, 0x205F, 0x3000}
     \<or> (0x2000 \<le> r \<and> r \<le> 0x200A)"

definition blank :: "bytes \<Rightarrow> bool" where
  "blank s \<longleftrightarrow> list_all (\<lambda>r. IsSpace (fst r)) (runes s)"

definition ValidModel :: "bytes \<Rightarrow> bool" where
  "ValidModel m \<longleftrightarrow> validText m maxRoleText \<and> \<not> blank m"

end
