(* ===== verification/Contract_Role.thy ===== *)
theory Contract_Role
  imports Contract_Text Contract_Log
begin

section \<open>Role configurations\<close>

text \<open>
  \<open>internal/contract/role.go\<close>: the role configuration and record, patches and their validation.
  Two configurations are the same when their resolved compact encodings are equal
  (\<open>SameRoleConfig\<close>); the encoding renders every field of a validated configuration
  injectively, so the model compares the resolved fields. The length of that encoding
  (\<open>encoding/json\<close>) is the argument \<open>encLen\<close> of \<open>ValidateRoleConfig\<close>.
\<close>

definition MaxRoles :: nat where
  "MaxRoles = 100"

definition MaxConcurrency :: int where
  "MaxConcurrency = 2147483647"

definition MaxRoleConfigBytes :: nat where
  "MaxRoleConfigBytes = 8192"

definition DefaultRoleTimeout :: duration where
  "DefaultRoleTimeout = 2 * 3600 * 1000000000"

record AdapterInfo =
  Efforts :: "string list"
  TestOnly :: bool

type_synonym AdapterLookup = "string \<Rightarrow> AdapterInfo option"

record RoleConfig =
  c_ID :: string
  c_Name :: string
  c_Node :: string
  c_Adapter :: string
  c_Instruction :: string
  c_Runbook :: string
  c_Model :: string
  c_Effort :: string
  c_Concurrency :: int
  c_Timeout :: duration
  c_HasTimeout :: bool

definition Resolved :: "RoleConfig \<Rightarrow> RoleConfig" where
  "Resolved c = (if \<not> c_HasTimeout c then c\<lparr>c_Timeout := DefaultRoleTimeout, c_HasTimeout := True\<rparr> else c)"

record RoleRecord =
  r_Config :: RoleConfig
  RegistrationOrder :: int

abbreviation r_ID :: "RoleRecord \<Rightarrow> string" where "r_ID r \<equiv> c_ID (r_Config r)"
abbreviation r_Name :: "RoleRecord \<Rightarrow> string" where "r_Name r \<equiv> c_Name (r_Config r)"
abbreviation r_Node :: "RoleRecord \<Rightarrow> string" where "r_Node r \<equiv> c_Node (r_Config r)"
abbreviation r_Concurrency :: "RoleRecord \<Rightarrow> int" where "r_Concurrency r \<equiv> c_Concurrency (r_Config r)"

definition SameRoleConfig :: "RoleConfig \<Rightarrow> RoleConfig \<Rightarrow> bool" where
  "SameRoleConfig a b \<longleftrightarrow> Resolved a = Resolved b"

record RolePatch =
  p_Name :: "string option"
  p_Adapter :: "string option"
  p_Instruction :: "string option"
  p_Runbook :: "string option"
  p_Model :: "string option"
  p_Effort :: "string option"
  p_Concurrency :: "int option"
  p_Timeout :: "duration option"

definition RolePatch_Empty :: "RolePatch \<Rightarrow> bool" where
  "RolePatch_Empty p \<longleftrightarrow> p_Name p = None \<and> p_Adapter p = None \<and> p_Instruction p = None \<and> p_Runbook p = None
     \<and> p_Model p = None \<and> p_Effort p = None \<and> p_Concurrency p = None \<and> p_Timeout p = None"

definition set_field :: "'a \<Rightarrow> 'a option \<Rightarrow> 'a" where
  "set_field dst v = (case v of None \<Rightarrow> dst | Some x \<Rightarrow> x)"

definition RolePatch_Apply :: "RolePatch \<Rightarrow> RoleConfig \<Rightarrow> RoleConfig" where
  "RolePatch_Apply p c0 =
     (let c = c0\<lparr>c_Name := set_field (c_Name c0) (p_Name p), c_Adapter := set_field (c_Adapter c0) (p_Adapter p),
          c_Instruction := set_field (c_Instruction c0) (p_Instruction p),
          c_Runbook := set_field (c_Runbook c0) (p_Runbook p), c_Model := set_field (c_Model c0) (p_Model p),
          c_Effort := set_field (c_Effort c0) (p_Effort p),
          c_Concurrency := set_field (c_Concurrency c0) (p_Concurrency p)\<rparr>
      in case p_Timeout p of None \<Rightarrow> c | Some t \<Rightarrow> c\<lparr>c_Timeout := t, c_HasTimeout := True\<rparr>)"

definition roleFields :: "string list" where
  "roleFields = [''id'', ''name'', ''node'', ''adapter'', ''instruction'', ''runbook'', ''model'', ''effort'',
     ''concurrency'', ''timeout'']"

definition checkField :: "RoleConfig \<Rightarrow> string \<Rightarrow> unit res" where
  "checkField c field =
     (if field = ''id'' then (if \<not> ValidSlug (c_ID c) then errInvalid else Inr ())
      else if field = ''name'' then (if \<not> ValidSlug (c_Name c) then errInvalid else Inr ())
      else if field = ''node'' then (if \<not> ValidNodeID (c_Node c) then errInvalid else Inr ())
      else if field = ''adapter'' then (if c_Adapter c = [] then errInvalid else Inr ())
      else if field = ''instruction'' then (if \<not> ValidRolePath (c_Instruction c) then errInvalid else Inr ())
      else if field = ''runbook'' then (if \<not> ValidRolePath (c_Runbook c) then errInvalid else Inr ())
      else if field = ''model'' then (if \<not> ValidModel (c_Model c) then errInvalid else Inr ())
      else if field = ''effort'' then (if c_Effort c = [] then errInvalid else Inr ())
      else if field = ''concurrency'' then
        (if c_Concurrency c < 1 \<or> c_Concurrency c > MaxConcurrency then errInvalid else Inr ())
      else Inr ())"

definition checkAdapter :: "RoleConfig \<Rightarrow> AdapterLookup \<Rightarrow> unit res" where
  "checkAdapter c lookup =
     (case lookup (c_Adapter c) of
        None \<Rightarrow> errInvalid
      | Some info \<Rightarrow> if c_Effort c \<in> set (Efforts info) then Inr () else errInvalid)"

definition ValidateRoleConfig :: "(RoleConfig \<Rightarrow> nat) \<Rightarrow> RoleConfig \<Rightarrow> AdapterLookup option \<Rightarrow> unit res" where
  "ValidateRoleConfig encLen c lookup = firstErr
     (map (checkField c) (take 9 roleFields) @
      [if c_HasTimeout c \<and> c_Timeout c < 0 then errInvalid else Inr (),
       case lookup of None \<Rightarrow> Inr () | Some l \<Rightarrow> checkAdapter c l,
       if encLen (Resolved c) > MaxRoleConfigBytes then errInvalid else Inr ()])"

text \<open>The checks of a stored record whose fields are present with their types.\<close>

definition parseRoleRecordObject :: "(RoleConfig \<Rightarrow> nat) \<Rightarrow> AdapterLookup \<Rightarrow> RoleRecord \<Rightarrow> unit res" where
  "parseRoleRecordObject encLen lookup r = firstErr
     [if c_HasTimeout (r_Config r) then Inr () else errInvalid,
      ValidateRoleConfig encLen (r_Config r) (Some lookup),
      if RegistrationOrder r < 1 \<or> RegistrationOrder r > MaxSafeInteger then errInvalid else Inr ()]"

text \<open>Go orders strings bytewise.\<close>

fun bytes_less :: "bytes \<Rightarrow> bytes \<Rightarrow> bool" where
  "bytes_less _ [] = False"
| "bytes_less [] (_ # _) = True"
| "bytes_less (a # x) (b # y) = (code_of a < code_of b \<or> (a = b \<and> bytes_less x y))"

definition RoleListLess :: "RoleRecord \<Rightarrow> RoleRecord \<Rightarrow> bool" where
  "RoleListLess a b =
     (if r_Name a \<noteq> r_Name b then bytes_less (r_Name a) (r_Name b)
      else if RegistrationOrder a \<noteq> RegistrationOrder b then RegistrationOrder a < RegistrationOrder b
      else bytes_less (r_ID a) (r_ID b))"

subsection \<open>Facts\<close>

lemma Resolved_idem [simp]: "Resolved (Resolved c) = Resolved c"
  by (simp add: Resolved_def)

lemma Resolved_fields [simp]:
  "c_ID (Resolved c) = c_ID c" "c_Node (Resolved c) = c_Node c" "c_Name (Resolved c) = c_Name c"
  "c_Concurrency (Resolved c) = c_Concurrency c" "c_HasTimeout (Resolved c)"
  by (simp_all add: Resolved_def)

lemma Resolved_checkField: "checkField (Resolved c) f = checkField c f"
  by (simp add: checkField_def Resolved_def)

lemma ValidateRoleConfig_Resolved:
  "ValidateRoleConfig encLen c lookup = Inr () \<Longrightarrow> ValidateRoleConfig encLen (Resolved c) lookup = Inr ()"
  unfolding ValidateRoleConfig_def firstErr_ok_iff
  by (auto simp: Resolved_checkField split: option.splits)
     (auto simp: Resolved_def DefaultRoleTimeout_def checkAdapter_def split: if_splits option.splits)

lemma RolePatch_Apply_ID [simp]: "c_ID (RolePatch_Apply p c) = c_ID c" "c_Node (RolePatch_Apply p c) = c_Node c"
  by (simp_all add: RolePatch_Apply_def Let_def split: option.splits)

lemma RolePatch_Apply_Empty: "RolePatch_Empty p \<Longrightarrow> RolePatch_Apply p c = c"
  by (simp add: RolePatch_Empty_def RolePatch_Apply_def set_field_def)

lemma SameRoleConfig_equiv: "SameRoleConfig a a" "SameRoleConfig a b \<Longrightarrow> SameRoleConfig b a"
  "SameRoleConfig a b \<Longrightarrow> SameRoleConfig b c \<Longrightarrow> SameRoleConfig a c"
  by (auto simp: SameRoleConfig_def)

lemma bytes_less_irrefl [simp]: "\<not> bytes_less a a"
  by (induction a) simp_all

lemma bytes_less_trans: "bytes_less a b \<Longrightarrow> bytes_less b c \<Longrightarrow> bytes_less a c"
proof (induction a b arbitrary: c rule: bytes_less.induct)
  case (2 b y)
  then show ?case by (cases c) auto
next
  case (3 a x b y)
  then show ?case by (cases c) auto
qed simp

lemma bytes_less_total: "a \<noteq> b \<Longrightarrow> bytes_less a b \<or> bytes_less b a"
proof (induction a b rule: bytes_less.induct)
  case (1 a)
  then show ?case by (cases a) auto
next
  case (3 a x b y)
  then show ?case by (auto simp: not_less le_less)
qed simp

end
