(* ===== verification/Contract_Workspace.thy ===== *)
theory Contract_Workspace
  imports Contract_Text Contract_Log
begin

section \<open>Workspace names, refs and selectors\<close>

text \<open>
  The grammars of \<open>internal/contract/workspace.go\<close> (tokens, commit hashes, portable branch refs,
  task refs, commit selectors) and the workspace selection and binding of a task
  (\<open>internal/contract/task_workspace.go\<close>).
\<close>

definition DefaultBranchRef :: bytes where "DefaultBranchRef = ''refs/heads/main''"
definition BranchPrefix :: bytes where "BranchPrefix = ''refs/heads/''"
definition TaskRefPrefix :: bytes where "TaskRefPrefix = ''refs/callsheet/tasks/''"
definition SelectorEmpty :: bytes where "SelectorEmpty = ''empty''"
definition MaxBranchComponent :: nat where "MaxBranchComponent = 200"
definition MaxFullRef :: nat where "MaxFullRef = 512"

text \<open>\<open>strings.HasPrefix\<close>, \<open>HasSuffix\<close>, \<open>Contains\<close>, \<open>CutPrefix\<close> and \<open>Split\<close> on one byte.\<close>

definition HasPrefix :: "bytes \<Rightarrow> bytes \<Rightarrow> bool" where
  "HasPrefix s p \<longleftrightarrow> take (length p) s = p"

definition HasSuffix :: "bytes \<Rightarrow> bytes \<Rightarrow> bool" where
  "HasSuffix s p \<longleftrightarrow> length p \<le> length s \<and> drop (length s - length p) s = p"

fun Contains :: "bytes \<Rightarrow> bytes \<Rightarrow> bool" where
  "Contains [] p = (p = [])"
| "Contains (a # s) p = (HasPrefix (a # s) p \<or> Contains s p)"

definition CutPrefix :: "bytes \<Rightarrow> bytes \<Rightarrow> bytes option" where
  "CutPrefix s p = (if HasPrefix s p then Some (drop (length p) s) else None)"

fun Split :: "bytes \<Rightarrow> char \<Rightarrow> bytes list" where
  "Split [] sep = [[]]"
| "Split (a # s) sep = (if a = sep then [] # Split s sep
     else (case Split s sep of [] \<Rightarrow> [[a]] | w # ws \<Rightarrow> (a # w) # ws))"

definition ValidWorkspaceName :: "bytes \<Rightarrow> bool" where
  "ValidWorkspaceName s = ValidSlug s"

definition lowerHex :: "bytes \<Rightarrow> nat \<Rightarrow> bool" where
  "lowerHex s k \<longleftrightarrow> length s = k \<and> list_all (\<lambda>c. in_range 0x30 0x39 c \<or> in_range 0x61 0x66 c) s"

definition ValidWorkspaceToken :: "bytes \<Rightarrow> bool" where
  "ValidWorkspaceToken s = lowerHex s 32"

definition ValidCommitHash :: "bytes \<Rightarrow> bool" where
  "ValidCommitHash s = lowerHex s 40"

fun component_bytes :: "nat \<Rightarrow> bytes \<Rightarrow> bool" where
  "component_bytes i [] = True"
| "component_bytes i (b # c) \<longleftrightarrow>
     (is_lower b \<or> is_digit b \<or> (i > 0 \<and> (b = CHR ''.'' \<or> b = CHR ''_'' \<or> b = CHR ''-''))) \<and> component_bytes (Suc i) c"

definition validComponent :: "bytes \<Rightarrow> bool" where
  "validComponent c \<longleftrightarrow> \<not> (length c = 0 \<or> length c > MaxBranchComponent) \<and> component_bytes 0 c
     \<and> \<not> Contains c ''..'' \<and> \<not> HasSuffix c ''.lock''"

definition ValidBranchRef :: "bytes \<Rightarrow> bool" where
  "ValidBranchRef full =
     (if length full > MaxFullRef \<or> \<not> ValidString full \<or> HasSuffix full ''.'' then False
      else (case CutPrefix full BranchPrefix of
          None \<Rightarrow> False
        | Some short \<Rightarrow> short \<noteq> [] \<and> list_all validComponent (Split short (CHR ''/''))))"

definition ValidTaskRef :: "bytes \<Rightarrow> bool" where
  "ValidTaskRef full = (case CutPrefix full TaskRefPrefix of None \<Rightarrow> False | Some i \<Rightarrow> ValidTaskID i)"

definition NormalizeBranch :: "bytes \<Rightarrow> bytes res" where
  "NormalizeBranch s =
     (let full = (if \<not> HasPrefix s ''refs/'' then BranchPrefix @ s else s) in
      if \<not> ValidBranchRef full then errInvalid else Inr full)"

datatype Selector = SelEmpty | SelHash bytes | SelBranch bytes | SelTask bytes

definition ParseSelector :: "bytes \<Rightarrow> bool \<Rightarrow> Selector res" where
  "ParseSelector s allowEmpty =
     (if allowEmpty \<and> s = SelectorEmpty then Inr SelEmpty
      else if ValidCommitHash s then Inr (SelHash s)
      else if HasPrefix s TaskRefPrefix then (if \<not> ValidTaskRef s then errInvalid else Inr (SelTask s))
      else if s = [] then errInvalid
      else (case NormalizeBranch s of Inl _ \<Rightarrow> errInvalid | Inr full \<Rightarrow> Inr (SelBranch full)))"

definition ValidStatusCursor :: "bytes \<Rightarrow> bool" where
  "ValidStatusCursor s \<longleftrightarrow> ValidBranchRef s \<or> ValidTaskRef s"

definition ValidMode :: "bytes \<Rightarrow> bool" where
  "ValidMode s \<longleftrightarrow> length s = 6 \<and> list_all (in_range 0x30 0x37) s"

definition ParseTaskBase :: "bytes option \<Rightarrow> Selector res" where
  "ParseTaskBase base =
     (case base of
        None \<Rightarrow> Inr (SelBranch DefaultBranchRef)
      | Some s \<Rightarrow>
          if ValidTaskID s then Inr (SelTask (TaskRefPrefix @ s))
          else (case ParseSelector s True of Inl _ \<Rightarrow> errInvalid | Inr sel \<Rightarrow> Inr sel))"

fun SelectorString :: "Selector \<Rightarrow> bytes" where
  "SelectorString SelEmpty = SelectorEmpty"
| "SelectorString (SelHash v) = v"
| "SelectorString (SelBranch v) = v"
| "SelectorString (SelTask v) = v"

record WorkspaceBinding =
  b_Name :: string
  b_Instance :: string
  b_BaseSelector :: bytes
  b_BaseCommit :: "string option"

definition WorkspaceBinding_Validate :: "WorkspaceBinding \<Rightarrow> unit res" where
  "WorkspaceBinding_Validate b =
     (if \<not> ValidWorkspaceName (b_Name b) then errInvalid
      else if \<not> ValidWorkspaceToken (b_Instance b) then errInvalid
      else if (case b_BaseCommit b of None \<Rightarrow> False | Some c \<Rightarrow> \<not> ValidCommitHash c) then errInvalid
      else (case ParseSelector (b_BaseSelector b) True of
          Inl _ \<Rightarrow> errInvalid
        | Inr sel \<Rightarrow>
            (case sel of
               SelEmpty \<Rightarrow> if b_BaseCommit b \<noteq> None then errInvalid else Inr ()
             | SelHash v \<Rightarrow> if b_BaseCommit b \<noteq> Some v then errInvalid else Inr ()
             | SelBranch v \<Rightarrow> if v \<noteq> b_BaseSelector b \<or> b_BaseCommit b = None then errInvalid else Inr ()
             | SelTask v \<Rightarrow> if b_BaseCommit b = None then errInvalid else Inr ())))"

definition checkWorkspaceFields :: "bytes option \<Rightarrow> bytes option \<Rightarrow> bytes option \<Rightarrow> unit res" where
  "checkWorkspaceFields ws base inst =
     (case ws of
        None \<Rightarrow> if base \<noteq> None then errInvalid else if inst \<noteq> None then errInvalid else Inr ()
      | Some w \<Rightarrow>
          if \<not> ValidWorkspaceName w then errInvalid
          else if (case inst of None \<Rightarrow> False | Some t \<Rightarrow> \<not> ValidWorkspaceToken t) then errInvalid
          else (case ParseTaskBase base of Inl e \<Rightarrow> Inl e | Inr _ \<Rightarrow> Inr ()))"

subsection \<open>Facts\<close>

lemma HasPrefix_append [simp]: "HasPrefix (p @ s) p"
  by (simp add: HasPrefix_def)

lemma CutPrefix_Some: "CutPrefix s p = Some t \<longleftrightarrow> s = p @ t"
  by (auto simp: CutPrefix_def HasPrefix_def) (metis append_take_drop_id)

lemma ValidBranchRef_prefix: "ValidBranchRef s \<Longrightarrow> \<exists>t. s = BranchPrefix @ t"
  by (auto simp: ValidBranchRef_def CutPrefix_Some split: if_splits option.splits)

lemma ValidTaskRef_prefix: "ValidTaskRef s \<longleftrightarrow> (\<exists>t. s = TaskRefPrefix @ t \<and> ValidTaskID t)"
  by (auto simp: ValidTaskRef_def CutPrefix_Some split: option.splits) (simp add: CutPrefix_def)

lemma lowerHex_not_ref: "\<not> lowerHex (CHR ''r'' # s) k"
  by (simp add: lowerHex_def in_range_def)

lemma full_branch_parses:
  assumes "ValidBranchRef v"
  shows "ParseSelector v allowEmpty = Inr (SelBranch v)"
proof -
  obtain t where t: "v = BranchPrefix @ t" using ValidBranchRef_prefix [OF assms] by blast
  have "v \<noteq> SelectorEmpty" "\<not> ValidCommitHash v" "\<not> HasPrefix v TaskRefPrefix" "v \<noteq> []"
    by (simp_all add: t BranchPrefix_def SelectorEmpty_def ValidCommitHash_def lowerHex_not_ref HasPrefix_def TaskRefPrefix_def)
  moreover have "HasPrefix v ''refs/''" by (simp add: t BranchPrefix_def HasPrefix_def)
  ultimately show ?thesis using assms by (simp add: ParseSelector_def NormalizeBranch_def)
qed

lemma task_ref_parses:
  assumes "ValidTaskRef v"
  shows "ParseSelector v allowEmpty = Inr (SelTask v)"
proof -
  obtain t where t: "v = TaskRefPrefix @ t" using assms ValidTaskRef_prefix by blast
  have "v \<noteq> SelectorEmpty" "\<not> ValidCommitHash v"
    by (simp_all add: t SelectorEmpty_def ValidCommitHash_def lowerHex_not_ref TaskRefPrefix_def)
  moreover have "HasPrefix v TaskRefPrefix" by (simp add: t)
  ultimately show ?thesis using assms by (simp add: ParseSelector_def)
qed

lemma hash_parses: "ValidCommitHash v \<Longrightarrow> ParseSelector v True = Inr (SelHash v)"
  by (auto simp: ParseSelector_def ValidCommitHash_def lowerHex_def SelectorEmpty_def)

lemma empty_parses: "ParseSelector SelectorEmpty True = Inr SelEmpty"
  by (simp add: ParseSelector_def)

lemma ParseSelector_sound:
  assumes "ParseSelector s allowEmpty = Inr sel"
  shows "case sel of SelEmpty \<Rightarrow> allowEmpty | SelHash v \<Rightarrow> ValidCommitHash v | SelBranch v \<Rightarrow> ValidBranchRef v
    | SelTask v \<Rightarrow> ValidTaskRef v"
  using assms by (auto simp: ParseSelector_def NormalizeBranch_def Let_def split: if_splits sum.splits)

lemma ParseTaskBase_sound:
  assumes "ParseTaskBase base = Inr sel"
  shows "case sel of SelEmpty \<Rightarrow> True | SelHash v \<Rightarrow> ValidCommitHash v | SelBranch v \<Rightarrow> ValidBranchRef v
    | SelTask v \<Rightarrow> ValidTaskRef v"
proof (cases base)
  case None
  have "ValidBranchRef DefaultBranchRef" by code_simp
  with None assms show ?thesis by (auto simp: ParseTaskBase_def)
next
  case (Some s)
  with assms ParseSelector_sound [of s True sel] show ?thesis
    by (auto simp: ParseTaskBase_def ValidTaskRef_prefix split: if_splits sum.splits Selector.splits)
qed

subsection \<open>Properties\<close>

text \<open>
  C37. Canonical base selectors round-trip: whatever base a dispatch names (omitted, the empty
  tree, a hash, a short or full branch, a task ID or a task ref), the canonical selector string
  stored in its binding parses back to the very selector it was resolved from, so re-reading a
  binding never changes what it means.
\<close>

theorem base_selector_roundtrip:
  assumes "ParseTaskBase base = Inr sel"
  shows "ParseSelector (SelectorString sel) True = Inr sel \<and> ParseTaskBase (Some (SelectorString sel)) = Inr sel"
proof -
  have p: "ParseSelector (SelectorString sel) True = Inr sel"
    using ParseTaskBase_sound [OF assms]
    by (cases sel) (simp_all add: full_branch_parses task_ref_parses hash_parses empty_parses)
  have "\<not> ValidTaskID (SelectorString sel)"
  proof (cases sel)
    case (SelHash v)
    then show ?thesis using ParseTaskBase_sound [OF assms]
      by (auto simp: ValidTaskID_def ValidCommitHash_def lowerHex_def hex_id_def)
  next
    case (SelBranch v)
    then show ?thesis using ParseTaskBase_sound [OF assms] ValidBranchRef_prefix [of v]
      by (auto simp: ValidTaskID_def BranchPrefix_def)
  next
    case (SelTask v)
    then show ?thesis using ParseTaskBase_sound [OF assms]
      by (auto simp: ValidTaskID_def ValidTaskRef_prefix TaskRefPrefix_def)
  qed (simp add: ValidTaskID_def SelectorEmpty_def)
  with p show ?thesis by (simp add: ParseTaskBase_def)
qed

theorem base_selector_roundtrip_witness:
  "ParseTaskBase (Some ''feature/x'') = Inr (SelBranch ''refs/heads/feature/x'')
   \<and> ParseSelector ''refs/heads/feature/x'' True = Inr (SelBranch ''refs/heads/feature/x'')"
proof -
  have p: "ParseTaskBase (Some ''feature/x'') = Inr (SelBranch ''refs/heads/feature/x'')" by code_simp
  with base_selector_roundtrip [OF p] show ?thesis by simp
qed

end
