(* ===== verification/Contract_Task.thy ===== *)
theory Contract_Task
  imports Contract_Role Contract_Workspace
begin

section \<open>Tasks on the wire and on disk\<close>

text \<open>
  \<open>internal/contract/task.go\<close>, \<open>task_view.go\<close>, \<open>task_record.go\<close>, \<open>control.go\<close>, \<open>controls.go\<close>
  and \<open>task_workspace.go\<close>: task states and outcomes, requests, results, late evidence, publication
  intents and the persisted record with the loader's validation. Validators work on decoded
  values: presence, types and timestamp syntax belong to the strict JSON decoder, which is not
  modelled, and instants are already parsed. The digest of a result (SHA-256 of a canonical JSON
  encoding) and encoded lengths are arguments.
\<close>

subsection \<open>States and reasons\<close>

datatype task_state =
    TaskPending | TaskRunning | TaskSucceeded | TaskFailed | TaskRejected | TaskLost | TaskCancelled | TaskTimedOut
  | TaskOther string

definition ValidTaskState :: "task_state \<Rightarrow> bool" where
  "ValidTaskState s = (case s of TaskOther _ \<Rightarrow> False | _ \<Rightarrow> True)"

definition TaskTerminal :: "task_state \<Rightarrow> bool" where
  "TaskTerminal s \<longleftrightarrow> s \<in> {TaskSucceeded, TaskFailed, TaskRejected, TaskLost, TaskCancelled, TaskTimedOut}"

definition LostReasons :: "string list" where
  "LostReasons = [''lease_expired'', ''startup_grace_expired'', ''execution_missing'',
     ''legacy_execution_unrecoverable'', ''worker_lost'']"

definition knownLost :: "string \<Rightarrow> bool" where
  "knownLost r = list_ex (\<lambda>s. s = r) LostReasons"

definition StartRefusalReasons :: "string list" where
  "StartRefusalReasons = [''role_missing'', ''role_changed'', ''local_full'', ''manual_unreadable'', ''manual_not_regular'',
     ''manual_too_large'', ''manual_invalid_text'', ''adapter_disabled'', ''executable_unavailable'',
     ''preparation_timeout'', ''scratch_unavailable'', ''start_failed'',
     ''workspace_unavailable'', ''workspace_base_unavailable'', ''workspace_checkout_failed'', ''workspace_prepare_timeout'']"

definition knownRefusal :: "string \<Rightarrow> bool" where
  "knownRefusal r = list_ex (\<lambda>s. s = r) StartRefusalReasons"

definition taskReasonCode :: "task_state \<Rightarrow> string \<Rightarrow> bool" where
  "taskReasonCode s c =
     (case s of
        TaskLost \<Rightarrow> knownLost c
      | TaskCancelled \<Rightarrow> c = ''cancelled_before_start''
      | _ \<Rightarrow> c = ''start_not_sent'' \<or> knownRefusal c)"

record TaskReason =
  tr_Code :: string
  tr_Message :: bytes

definition MaxReasonMessageBytes :: nat where "MaxReasonMessageBytes = 256"
definition MaxFinalMessageBytes :: nat where "MaxFinalMessageBytes = 65536"

definition TaskReason_validate :: "task_state \<Rightarrow> TaskReason \<Rightarrow> unit res" where
  "TaskReason_validate s r =
     (if \<not> taskReasonCode s (tr_Code r) \<or> \<not> ValidString (tr_Message r) \<or> length (tr_Message r) > MaxReasonMessageBytes
      then errInvalid else Inr ())"

definition WireSignals :: "string list" where
  "WireSignals = [''SIGHUP'', ''SIGINT'', ''SIGQUIT'', ''SIGILL'', ''SIGTRAP'', ''SIGABRT'', ''SIGBUS'', ''SIGFPE'',
     ''SIGKILL'', ''SIGUSR1'', ''SIGSEGV'', ''SIGUSR2'', ''SIGPIPE'', ''SIGALRM'', ''SIGTERM'', ''SIGCHLD'',
     ''SIGCONT'', ''SIGSTOP'', ''SIGTSTP'', ''SIGTTIN'', ''SIGTTOU'', ''SIGURG'', ''SIGXCPU'', ''SIGXFSZ'',
     ''SIGVTALRM'', ''SIGPROF'', ''SIGWINCH'', ''SIGIO'', ''SIGSYS'', ''SIGEMT'', ''SIGINFO'', ''SIGSTKFLT'',
     ''SIGPWR'', ''SIGUNKNOWN'']"

definition ValidWireSignal :: "string \<Rightarrow> bool" where
  "ValidWireSignal s = list_ex (\<lambda>w. w = s) WireSignals"

definition checkFinalMessage :: "bytes option \<Rightarrow> bool \<Rightarrow> unit res" where
  "checkFinalMessage m truncated =
     (case m of
        None \<Rightarrow> if truncated then errInvalid else Inr ()
      | Some s \<Rightarrow> if \<not> ValidString s \<or> length s > MaxFinalMessageBytes then errInvalid else Inr ())"

text \<open>The lifecycle invariants of a state's timestamps and outcome fields.\<close>

definition validLifecycle :: "task_state \<Rightarrow> bool \<Rightarrow> bool \<Rightarrow> int option \<Rightarrow> string option \<Rightarrow> bytes option \<Rightarrow> bool \<Rightarrow> bool
    \<Rightarrow> nat \<Rightarrow> unit res" where
  "validLifecycle state started finished exit signal final truncated reason candidates =
     (if \<not> TaskTerminal state \<and> (finished \<or> exit \<noteq> None \<or> signal \<noteq> None \<or> final \<noteq> None \<or> truncated) then errInvalid
      else if state \<noteq> TaskRejected \<and> candidates > 0 then errInvalid
      else if state \<noteq> TaskRejected \<and> state \<noteq> TaskLost \<and> state \<noteq> TaskCancelled \<and> reason then errInvalid
      else if (case state of
            TaskPending \<Rightarrow> started
          | TaskRunning \<Rightarrow> \<not> started
          | TaskSucceeded \<Rightarrow> \<not> started \<or> \<not> finished \<or> exit \<noteq> Some 0 \<or> signal \<noteq> None
          | TaskFailed \<Rightarrow> \<not> started \<or> \<not> finished \<or> (exit = None) = (signal = None) \<or> exit = Some 0
          | TaskRejected \<Rightarrow> started \<or> \<not> finished \<or> exit \<noteq> None \<or> signal \<noteq> None \<or> final \<noteq> None \<or> truncated \<or> \<not> reason
          | TaskLost \<Rightarrow> \<not> finished \<or> \<not> reason \<or> (exit \<noteq> None \<and> signal \<noteq> None)
          | TaskCancelled \<Rightarrow> \<not> finished \<or> (exit \<noteq> None \<and> signal \<noteq> None) \<or> started = reason
          | TaskTimedOut \<Rightarrow> \<not> started \<or> \<not> finished \<or> (exit \<noteq> None \<and> signal \<noteq> None) \<or> reason
          | TaskOther _ \<Rightarrow> True) then errInvalid
      else if (case exit of None \<Rightarrow> False | Some x \<Rightarrow> x < 0 \<or> x > 255) then errInvalid
      else if (case signal of None \<Rightarrow> False | Some s \<Rightarrow> \<not> ValidWireSignal s) then errInvalid
      else checkFinalMessage final truncated)"

subsection \<open>Requests\<close>

datatype TaskTarget = TargetID string | TargetName string

record RequestedBy =
  rb_Name :: string
  rb_Version :: string
  rb_Hostname :: string

definition ValidHostname :: "bytes \<Rightarrow> bool" where
  "ValidHostname h \<longleftrightarrow> h \<noteq> [] \<and> length h \<le> 128
     \<and> (is_lower (hd h) \<or> in_range 0x41 0x5A (hd h) \<or> is_digit (hd h))
     \<and> list_all (\<lambda>c. is_lower c \<or> in_range 0x41 0x5A c \<or> is_digit c \<or> c = CHR ''.'' \<or> c = CHR ''_'' \<or> c = CHR ''-'') (tl h)"

definition RequestedBy_Validate :: "RequestedBy \<Rightarrow> unit res" where
  "RequestedBy_Validate r =
     (if \<not> ValidSoftwareVersion (rb_Name r) then errInvalid
      else if \<not> ValidSoftwareVersion (rb_Version r) then errInvalid
      else if \<not> ValidHostname (rb_Hostname r) then errInvalid
      else Inr ())"

record TaskOverride =
  o_Model :: "bytes option"
  o_Effort :: "string option"
  o_Timeout :: "duration option"

record DispatchRequest =
  q_Target :: TaskTarget
  q_Goal :: bytes
  q_Payload :: "bytes list"
  q_Acceptance :: bytes
  q_RequestedBy :: RequestedBy
  q_Override :: "TaskOverride option"
  q_Workspace :: "bytes option"
  q_Base :: "bytes option"
  q_WorkspaceInstance :: "bytes option"

definition MaxGoalBytes :: nat where "MaxGoalBytes = 16384"
definition MaxAcceptanceBytes :: nat where "MaxAcceptanceBytes = 16384"
definition MaxPayloadPointers :: nat where "MaxPayloadPointers = 64"
definition MaxPointerBytes :: nat where "MaxPointerBytes = 2048"
definition MaxPayloadBytes :: nat where "MaxPayloadBytes = 65536"
definition MaxDispatchRequestBytes :: nat where "MaxDispatchRequestBytes = 262144"

definition checkTaskText :: "bytes \<Rightarrow> nat \<Rightarrow> unit res" where
  "checkTaskText s mx =
     (if \<not> ValidString s then errInvalid
      else if blank s then errInvalid
      else if length s > mx then errInvalid
      else if CHR 0x00 \<in> set s then errInvalid
      else Inr ())"

definition checkPointer :: "bytes \<Rightarrow> unit res" where
  "checkPointer s =
     (if s = [] then errInvalid
      else if \<not> ValidString s then errInvalid
      else if length s > MaxPointerBytes then errInvalid
      else if CHR 0x00 \<in> set s then errInvalid
      else Inr ())"

definition checkPayload :: "bytes list \<Rightarrow> unit res" where
  "checkPayload p = firstErr
     ([if length p > MaxPayloadPointers then errInvalid else Inr ()] @ map checkPointer p
      @ [if sum_list (map length p) > MaxPayloadBytes then errInvalid else Inr ()])"

definition target_value :: "TaskTarget \<Rightarrow> string" where
  "target_value t = (case t of TargetID v \<Rightarrow> v | TargetName v \<Rightarrow> v)"

definition checkOverride :: "TaskOverride option \<Rightarrow> unit res" where
  "checkOverride ov =
     (case ov of
        None \<Rightarrow> Inr ()
      | Some x \<Rightarrow>
          if o_Model x = None \<and> o_Effort x = None \<and> o_Timeout x = None then errInvalid
          else if (case o_Model x of None \<Rightarrow> False | Some m \<Rightarrow> \<not> ValidModel m) then errInvalid
          else if (case o_Effort x of None \<Rightarrow> False | Some e \<Rightarrow> e = []) then errInvalid
          else if (case o_Timeout x of None \<Rightarrow> False | Some t \<Rightarrow> t < 0) then errInvalid
          else Inr ())"

definition DispatchRequest_Validate :: "(DispatchRequest \<Rightarrow> nat) \<Rightarrow> DispatchRequest \<Rightarrow> unit res" where
  "DispatchRequest_Validate encLen r = firstErr
     [if \<not> ValidSlug (target_value (q_Target r)) then errInvalid else Inr (),
      checkTaskText (q_Goal r) MaxGoalBytes,
      checkTaskText (q_Acceptance r) MaxAcceptanceBytes,
      checkPayload (q_Payload r),
      RequestedBy_Validate (q_RequestedBy r),
      checkOverride (q_Override r),
      checkWorkspaceFields (q_Workspace r) (q_Base r) (q_WorkspaceInstance r),
      if encLen r > MaxDispatchRequestBytes then errInvalid else Inr ()]"

record TaskEffective =
  ef_Model :: bytes
  ef_Effort :: string
  ef_Timeout :: duration

definition CheckEffort :: "string \<Rightarrow> string \<Rightarrow> AdapterLookup \<Rightarrow> unit res" where
  "CheckEffort adapter effort lookup =
     (case lookup adapter of None \<Rightarrow> errInvalid
      | Some info \<Rightarrow> if effort \<in> set (Efforts info) then Inr () else errInvalid)"

definition apply_override :: "TaskOverride option \<Rightarrow> TaskEffective \<Rightarrow> TaskEffective" where
  "apply_override ov e =
     (case ov of None \<Rightarrow> e
      | Some x \<Rightarrow> \<lparr>ef_Model = set_field (ef_Model e) (o_Model x), ef_Effort = set_field (ef_Effort e) (o_Effort x),
                   ef_Timeout = set_field (ef_Timeout e) (o_Timeout x)\<rparr>)"

definition ResolveEffective :: "RoleRecord \<Rightarrow> TaskOverride option \<Rightarrow> AdapterLookup \<Rightarrow> TaskEffective res" where
  "ResolveEffective role ov lookup =
     (let r = Resolved (r_Config role);
          e = apply_override ov \<lparr>ef_Model = c_Model r, ef_Effort = c_Effort r, ef_Timeout = c_Timeout r\<rparr> in
      if \<not> ValidModel (ef_Model e) then errInvalid
      else if ef_Timeout e < 0 then errInvalid
      else (case CheckEffort (c_Adapter r) (ef_Effort e) lookup of Inl err \<Rightarrow> Inl err | Inr _ \<Rightarrow> Inr e))"

definition CheckBinding :: "DispatchRequest \<Rightarrow> WorkspaceBinding option \<Rightarrow> unit res" where
  "CheckBinding r b =
     (if (q_Workspace r = None) \<noteq> (b = None) then errInvalid
      else case b of
        None \<Rightarrow> Inr ()
      | Some x \<Rightarrow>
          (case WorkspaceBinding_Validate x of
             Inl e \<Rightarrow> Inl e
           | Inr _ \<Rightarrow>
               (case ParseTaskBase (q_Base r) of
                  Inl e \<Rightarrow> Inl e
                | Inr sel \<Rightarrow>
                    if q_Workspace r \<noteq> Some (b_Name x) then errInvalid
                    else if (case q_WorkspaceInstance r of None \<Rightarrow> False | Some i \<Rightarrow> i \<noteq> b_Instance x) then errInvalid
                    else if SelectorString sel \<noteq> b_BaseSelector x then errInvalid
                    else Inr ())))"

subsection \<open>Results\<close>

record ExecutionToken =
  Epoch :: string
  Attachment :: nat

datatype outcome = OutcomeNatural | OutcomeLost | OutcomeCancelled | OutcomeTimedOut | OutcomeOther string

definition validOutcome :: "outcome \<Rightarrow> bool" where
  "validOutcome o' = (case o' of OutcomeOther _ \<Rightarrow> False | _ \<Rightarrow> True)"

datatype publication = PublicationPublished | PublicationFailed | PublicationNotStarted | PublicationNotApplicable
  | PublicationOther string

record TaskDiffstat =
  Added :: int
  Modified :: int
  Deleted :: int
  OldBytes :: int
  NewBytes :: int

definition TaskDiffstat_validate :: "TaskDiffstat \<Rightarrow> unit res" where
  "TaskDiffstat_validate d =
     (if list_ex (\<lambda>x. x < 0 \<or> x > MaxSafeInteger) [Added d, Modified d, Deleted d, OldBytes d, NewBytes d]
      then errInvalid else Inr ())"

text \<open>A change row; its path is the raw bytes whose base64 the wire form carries.\<close>

datatype change_kind = ChangeAdded | ChangeDeleted | ChangeModified | ChangeOther string

record WorkspaceChange =
  ch_Path :: bytes
  ch_Kind :: change_kind
  ch_OldMode :: "string option"
  ch_NewMode :: "string option"
  ch_OldBytes :: "int option"
  ch_NewBytes :: "int option"

definition WorkspaceChange_validate :: "WorkspaceChange \<Rightarrow> unit res" where
  "WorkspaceChange_validate c =
     (let okMode = (\<lambda>m. case m of None \<Rightarrow> True | Some s \<Rightarrow> ValidMode s);
          okSize = (\<lambda>k. case k of None \<Rightarrow> True | Some (x::int) \<Rightarrow> x \<ge> 0) in
      if \<not> okMode (ch_OldMode c) \<or> \<not> okMode (ch_NewMode c) \<or> \<not> okSize (ch_OldBytes c) \<or> \<not> okSize (ch_NewBytes c)
         \<or> (ch_OldMode c = None) \<noteq> (ch_OldBytes c = None) \<or> (ch_NewMode c = None) \<noteq> (ch_NewBytes c = None) then errInvalid
      else (case ch_Kind c of
          ChangeAdded \<Rightarrow> if ch_OldMode c \<noteq> None \<or> ch_NewMode c = None then errInvalid else Inr ()
        | ChangeDeleted \<Rightarrow> if ch_OldMode c = None \<or> ch_NewMode c \<noteq> None then errInvalid else Inr ()
        | ChangeModified \<Rightarrow> if ch_OldMode c = None \<or> ch_NewMode c = None then errInvalid else Inr ()
        | ChangeOther _ \<Rightarrow> errInvalid))"

record TaskWorkspaceResult =
  w_Name :: string
  w_Instance :: string
  w_BaseCommit :: "string option"
  w_Publication :: publication
  w_Commit :: "string option"
  w_Ref :: "string option"
  w_Error :: "string option"
  w_Diffstat :: "TaskDiffstat option"
  w_Changes :: "WorkspaceChange list"
  w_ChangesTruncated :: bool
  w_NextAfter :: "bytes option"

definition MaxWorkspaceChanges :: nat where "MaxWorkspaceChanges = 100"
definition MaxWorkspaceDTOBytes :: nat where "MaxWorkspaceDTOBytes = 32768"

definition PublicationErrors :: "string list" where
  "PublicationErrors = [''workspace_unavailable'', ''workspace_instance_mismatch'', ''workspace_base_unavailable'',
     ''unsupported_repository'', ''workspace_snapshot_failed'', ''workspace_metadata_overflow'',
     ''workspace_storage_failed'', ''task_ref_exists'', ''task_assignment_mismatch'', ''task_publication_closed'',
     ''publication_timeout'', ''publication_interrupted'', ''publication_transport_failed'']"

definition ValidPublicationError :: "string \<Rightarrow> bool" where
  "ValidPublicationError s = list_ex (\<lambda>e. e = s) PublicationErrors"

fun check_changes :: "bytes option \<Rightarrow> WorkspaceChange list \<Rightarrow> unit res" where
  "check_changes prev [] = Inr ()"
| "check_changes prev (c # cs) =
     (if ch_Path c = [] then errInvalid
      else if (case prev of None \<Rightarrow> False | Some p \<Rightarrow> \<not> bytes_less p (ch_Path c)) then errInvalid
      else (case WorkspaceChange_validate c of Inl e \<Rightarrow> Inl e | Inr _ \<Rightarrow> check_changes (Some (ch_Path c)) cs))"

definition check_publication :: "TaskWorkspaceResult \<Rightarrow> unit res" where
  "check_publication r =
     (let empty = (w_Commit r = None \<and> w_Ref r = None \<and> w_Diffstat r = None \<and> w_Changes r = []
                   \<and> \<not> w_ChangesTruncated r \<and> w_NextAfter r = None) in
      case w_Publication r of
        PublicationPublished \<Rightarrow>
          (case (w_Commit r, w_Ref r, w_Diffstat r) of
             (Some c, Some ref, Some d) \<Rightarrow>
               if \<not> ValidCommitHash c \<or> w_Error r \<noteq> None then errInvalid
               else if \<not> ValidTaskRef ref then errInvalid
               else TaskDiffstat_validate d
           | _ \<Rightarrow> errInvalid)
      | PublicationFailed \<Rightarrow>
          if \<not> empty \<or> (case w_Error r of None \<Rightarrow> True | Some e \<Rightarrow> \<not> ValidPublicationError e) then errInvalid else Inr ()
      | PublicationOther _ \<Rightarrow> errInvalid
      | _ \<Rightarrow> if \<not> empty \<or> w_Error r \<noteq> None then errInvalid else Inr ())"

definition TaskWorkspaceResult_Validate :: "(TaskWorkspaceResult \<Rightarrow> nat) \<Rightarrow> TaskWorkspaceResult \<Rightarrow> unit res" where
  "TaskWorkspaceResult_Validate encLen r = firstErr
     [if \<not> ValidWorkspaceName (w_Name r) \<or> \<not> ValidWorkspaceToken (w_Instance r) then errInvalid else Inr (),
      if (case w_BaseCommit r of None \<Rightarrow> False | Some c \<Rightarrow> \<not> ValidCommitHash c) then errInvalid else Inr (),
      if length (w_Changes r) > MaxWorkspaceChanges then errInvalid else Inr (),
      check_publication r,
      check_changes None (w_Changes r),
      if \<not> w_ChangesTruncated r \<and> w_NextAfter r \<noteq> None then errInvalid
      else if w_ChangesTruncated r \<and> w_Changes r = [] \<and> w_NextAfter r \<noteq> None then errInvalid
      else if w_ChangesTruncated r \<and> w_Changes r \<noteq> [] \<and> w_NextAfter r \<noteq> Some (ch_Path (last (w_Changes r))) then errInvalid
      else Inr (),
      if encLen r > MaxWorkspaceDTOBytes then errInvalid else Inr ()]"

definition NewNotApplicable :: "WorkspaceBinding \<Rightarrow> TaskWorkspaceResult" where
  "NewNotApplicable b = \<lparr>w_Name = b_Name b, w_Instance = b_Instance b, w_BaseCommit = b_BaseCommit b,
     w_Publication = PublicationNotApplicable, w_Commit = None, w_Ref = None, w_Error = None, w_Diffstat = None,
     w_Changes = [], w_ChangesTruncated = False, w_NextAfter = None\<rparr>"

definition NewNotStarted :: "WorkspaceBinding \<Rightarrow> TaskWorkspaceResult" where
  "NewNotStarted b = (NewNotApplicable b)\<lparr>w_Publication := PublicationNotStarted\<rparr>"

definition NewPublicationFailed :: "WorkspaceBinding \<Rightarrow> string \<Rightarrow> TaskWorkspaceResult" where
  "NewPublicationFailed b code = (NewNotApplicable b)\<lparr>w_Publication := PublicationFailed, w_Error := Some code\<rparr>"

record TaskResultBody =
  r_TaskID :: string
  r_Execution :: ExecutionToken
  r_Outcome :: outcome
  r_ExitCode :: "int option"
  r_Signal :: "string option"
  r_FinalMessage :: "bytes option"
  r_FinalMessageTruncated :: bool
  r_OutputBytes :: int
  r_LogIncomplete :: bool
  r_CounterOverflow :: bool
  r_StopID :: "string option"
  r_Workspace :: "TaskWorkspaceResult option"
  r_Digest :: string

definition TaskResultBody_Validate :: "(TaskResultBody \<Rightarrow> string) \<Rightarrow> (TaskWorkspaceResult \<Rightarrow> nat) \<Rightarrow> TaskResultBody \<Rightarrow> unit res" where
  "TaskResultBody_Validate ResultDigest encLen b =
     (if \<not> ValidTaskID (r_TaskID b) then errInvalid
      else if \<not> validOutcome (r_Outcome b) then errInvalid
      else if r_Outcome b = OutcomeNatural \<and> (r_ExitCode b = None) = (r_Signal b = None) then errInvalid
      else if r_ExitCode b \<noteq> None \<and> r_Signal b \<noteq> None then errInvalid
      else if (case r_ExitCode b of None \<Rightarrow> False | Some x \<Rightarrow> x < 0 \<or> x > 255) then errInvalid
      else if (case r_Signal b of None \<Rightarrow> False | Some s \<Rightarrow> \<not> ValidWireSignal s) then errInvalid
      else if (case r_StopID b of None \<Rightarrow> False | Some s \<Rightarrow> \<not> ValidStopID s) then errInvalid
      else if r_StopID b \<noteq> None \<and> (r_Outcome b = OutcomeNatural \<or> r_Outcome b = OutcomeTimedOut) then errInvalid
      else if r_OutputBytes b < 0 \<or> r_OutputBytes b > MaxSafeInteger then errInvalid
      else if \<not> ValidDigest (r_Digest b) then errInvalid
      else if r_Digest b \<noteq> ResultDigest b then errInvalid
      else (case r_Workspace b of
          None \<Rightarrow> checkFinalMessage (r_FinalMessage b) (r_FinalMessageTruncated b)
        | Some w \<Rightarrow> firstErr
            [TaskWorkspaceResult_Validate encLen w,
             if r_Outcome b = OutcomeLost \<and> w_Publication w \<noteq> PublicationNotApplicable then errInvalid else Inr (),
             checkFinalMessage (r_FinalMessage b) (r_FinalMessageTruncated b)]))"

record LateResult =
  l_Digest :: string
  l_ReceivedAt :: instant
  l_Outcome :: outcome
  l_ExitCode :: "int option"
  l_Signal :: "string option"
  l_FinalMessage :: "bytes option"
  l_FinalMessageTruncated :: bool
  l_OutputBytes :: int
  l_LogIncomplete :: bool
  l_CounterOverflow :: bool
  l_Workspace :: "TaskWorkspaceResult option"
  l_Log :: TaskLog

definition LateFrom :: "TaskResultBody \<Rightarrow> instant \<Rightarrow> TaskLog \<Rightarrow> LateResult" where
  "LateFrom b at lg = \<lparr>l_Digest = r_Digest b, l_ReceivedAt = at, l_Outcome = r_Outcome b, l_ExitCode = r_ExitCode b,
     l_Signal = r_Signal b, l_FinalMessage = r_FinalMessage b, l_FinalMessageTruncated = r_FinalMessageTruncated b,
     l_OutputBytes = r_OutputBytes b, l_LogIncomplete = r_LogIncomplete b, l_CounterOverflow = r_CounterOverflow b,
     l_Workspace = r_Workspace b, l_Log = lg\<rparr>"

definition LateResult_validate :: "(TaskWorkspaceResult \<Rightarrow> nat) \<Rightarrow> LateResult \<Rightarrow> unit res" where
  "LateResult_validate encLen l =
     (if \<not> ValidDigest (l_Digest l) then errInvalid
      else if \<not> validOutcome (l_Outcome l) then errInvalid
      else if l_Outcome l = OutcomeNatural \<and> (l_ExitCode l = None) = (l_Signal l = None) then errInvalid
      else if l_ExitCode l \<noteq> None \<and> l_Signal l \<noteq> None then errInvalid
      else if (case l_ExitCode l of None \<Rightarrow> False | Some x \<Rightarrow> x < 0 \<or> x > 255) then errInvalid
      else if (case l_Signal l of None \<Rightarrow> False | Some s \<Rightarrow> \<not> ValidWireSignal s) then errInvalid
      else if l_OutputBytes l < 0 \<or> l_OutputBytes l > MaxSafeInteger then errInvalid
      else firstErr
        [checkFinalMessage (l_FinalMessage l) (l_FinalMessageTruncated l),
         case l_Workspace l of None \<Rightarrow> Inr () | Some w \<Rightarrow> TaskWorkspaceResult_Validate encLen w,
         TaskLog_Validate (l_Log l)])"

subsection \<open>Stop intents, publications and the persisted record\<close>

record StopIntent =
  s_ID :: string
  s_Kind :: string
  s_RequestedAt :: instant

definition StopIntent_Validate :: "StopIntent \<Rightarrow> unit res" where
  "StopIntent_Validate s = (if \<not> ValidStopID (s_ID s) \<or> s_Kind s \<noteq> ''cancelled'' then errInvalid else Inr ())"

datatype pub_phase = PubPhaseAuthorized | PubPhaseSettled | PubPhaseOther string

record TaskPublication =
  p_ID :: string
  p_State :: task_state
  p_Tree :: string
  p_Commit :: string
  p_Instance :: string
  p_Deadline :: instant
  p_Phase :: pub_phase
  p_Candidate :: TaskResultBody
  p_Status :: "publication option"
  p_Error :: "string option"

definition publishableState :: "task_state \<Rightarrow> bool" where
  "publishableState s \<longleftrightarrow> s = TaskSucceeded \<or> s = TaskFailed \<or> s = TaskCancelled \<or> s = TaskTimedOut"

definition check_phase :: "TaskPublication \<Rightarrow> unit res" where
  "check_phase p =
     (case p_Phase p of
        PubPhaseAuthorized \<Rightarrow> if p_Status p \<noteq> None \<or> p_Error p \<noteq> None then errInvalid else Inr ()
      | PubPhaseSettled \<Rightarrow>
          if p_Status p \<noteq> Some PublicationPublished \<and> p_Status p \<noteq> Some PublicationFailed then errInvalid
          else if (p_Status p = Some PublicationFailed) \<noteq> (p_Error p \<noteq> None) then errInvalid
          else if (case p_Error p of None \<Rightarrow> False | Some e \<Rightarrow> \<not> ValidPublicationError e) then errInvalid
          else Inr ()
      | PubPhaseOther _ \<Rightarrow> errInvalid)"

definition TaskPublication_Validate :: "(TaskResultBody \<Rightarrow> string) \<Rightarrow> (TaskWorkspaceResult \<Rightarrow> nat) \<Rightarrow> TaskPublication \<Rightarrow> unit res" where
  "TaskPublication_Validate ResultDigest encLen p = firstErr
     [if \<not> ValidWorkspaceToken (p_ID p) \<or> \<not> ValidWorkspaceToken (p_Instance p) then errInvalid else Inr (),
      if \<not> publishableState (p_State p) then errInvalid else Inr (),
      if \<not> ValidCommitHash (p_Tree p) \<or> \<not> ValidCommitHash (p_Commit p) then errInvalid else Inr (),
      if r_Workspace (p_Candidate p) \<noteq> None then errInvalid else Inr (),
      TaskResultBody_Validate ResultDigest encLen (p_Candidate p),
      check_phase p]"

datatype timeout_policy = TimeoutPolicyLegacy | TimeoutPolicyEnforced

subsection \<open>The persisted record\<close>

record TaskCandidate =
  tc_RoleID :: string
  tc_NodeID :: string
  tc_RegistrationOrder :: int
  tc_NodeLiveness :: string
  tc_Inflight :: int
  tc_ReconcilingInflight :: int
  tc_Concurrency :: int
  tc_CanAccept :: bool
  tc_Reason :: string

definition CandidateReasons :: "string list" where
  "CandidateReasons = [''storage_unconfirmed'', ''role_removing'', ''node_offline'', ''node_detached'', ''role_unsynced'',
     ''worker_unready'', ''full'', ''available'']"

definition MaxCandidates :: nat where "MaxCandidates = 100"
definition MaxCandidateReason :: nat where "MaxCandidateReason = 128"

definition TaskCandidate_validate :: "TaskCandidate \<Rightarrow> unit res" where
  "TaskCandidate_validate c =
     (if \<not> ValidSlug (tc_RoleID c) \<or> \<not> ValidNodeID (tc_NodeID c) then errInvalid
      else if tc_RegistrationOrder c < 1 \<or> tc_RegistrationOrder c > MaxSafeInteger then errInvalid
      else if tc_NodeLiveness c \<noteq> ''online'' \<and> tc_NodeLiveness c \<noteq> ''offline'' then errInvalid
      else if tc_Inflight c < 0 \<or> tc_Inflight c > MaxSafeInteger \<or> tc_ReconcilingInflight c < 0
              \<or> tc_ReconcilingInflight c > tc_Inflight c then errInvalid
      else if tc_Concurrency c < 1 \<or> tc_Concurrency c > MaxConcurrency then errInvalid
      else if \<not> list_ex (\<lambda>r. r = tc_Reason c) CandidateReasons \<or> length (tc_Reason c) > MaxCandidateReason then errInvalid
      else if tc_CanAccept c \<noteq> (tc_Reason c = ''available'') then errInvalid
      else Inr ())"

definition validateCandidates :: "TaskCandidate list \<Rightarrow> unit res" where
  "validateCandidates cs = firstErr
     ((if length cs > MaxCandidates then errInvalid else Inr ()) # map TaskCandidate_validate cs)"

record TaskRecord =
  TaskID :: string
  Request :: DispatchRequest
  Role :: RoleRecord
  RolesRevision :: int
  Effective :: TaskEffective
  Execution :: ExecutionToken
  State :: task_state
  CreatedAt :: instant
  StartedAt :: "instant option"
  FinishedAt :: "instant option"
  ExitCode :: "int option"
  Signal :: "string option"
  FinalMessage :: "bytes option"
  FinalMessageTruncated :: bool
  Reason :: "TaskReason option"
  Candidates :: "TaskCandidate list"
  Log :: TaskLog
  Revision :: int
  StartDigest :: "string option"
  TimeoutPolicy :: timeout_policy
  rec_StopIntent :: "StopIntent option"
  ResultDigest :: "string option"
  Late :: "LateResult option"
  Workspace :: "WorkspaceBinding option"
  Publication :: "TaskPublication option"
  WorkspaceResult :: "TaskWorkspaceResult option"

definition stopIntentState :: "task_state \<Rightarrow> bool" where
  "stopIntentState s \<longleftrightarrow> s = TaskPending \<or> s = TaskRunning \<or> s = TaskLost \<or> s = TaskCancelled"

text \<open>
  The loader's checks of a decoded record: \<open>commonRecord\<close>, then \<open>finishRecord\<close>. \<open>roleLen\<close> and
  \<open>dtoLen\<close> are the encoded lengths the role and workspace validators bound.
\<close>

definition commonRecord :: "(RoleConfig \<Rightarrow> nat) \<Rightarrow> AdapterLookup \<Rightarrow> TaskRecord \<Rightarrow> unit res" where
  "commonRecord roleLen lookup r = firstErr
     [if \<not> ValidTaskID (TaskID r) then errInvalid else Inr (),
      parseRoleRecordObject roleLen lookup (Role r),
      CheckEffort (c_Adapter (r_Config (Role r))) (ef_Effort (Effective r)) lookup,
      if RolesRevision r < 0 \<or> RolesRevision r > MaxSafeInteger \<or> Revision r < 1 \<or> Revision r > MaxSafeInteger
      then errInvalid else Inr (),
      validLifecycle (State r) (StartedAt r \<noteq> None) (FinishedAt r \<noteq> None) (ExitCode r) (Signal r) (FinalMessage r)
        (FinalMessageTruncated r) (Reason r \<noteq> None) (length (Candidates r)),
      case Reason r of None \<Rightarrow> Inr () | Some x \<Rightarrow> TaskReason_validate (State r) x,
      validateCandidates (Candidates r),
      TaskLog_Validate (Log r)]"

definition finishRecord :: "(RoleConfig \<Rightarrow> nat) \<Rightarrow> AdapterLookup \<Rightarrow> (TaskWorkspaceResult \<Rightarrow> nat) \<Rightarrow> TaskRecord \<Rightarrow> unit res" where
  "finishRecord roleLen lookup dtoLen r = firstErr
     [commonRecord roleLen lookup r,
      if (case StartDigest r of None \<Rightarrow> False | Some d \<Rightarrow> \<not> ValidDigest d) then errInvalid else Inr (),
      if (case ResultDigest r of None \<Rightarrow> False | Some d \<Rightarrow> \<not> ValidDigest d) then errInvalid else Inr (),
      if ResultDigest r \<noteq> None \<and> \<not> TaskTerminal (State r) then errInvalid else Inr (),
      if Late r \<noteq> None \<and> \<not> TaskTerminal (State r) then errInvalid else Inr (),
      if rec_StopIntent r \<noteq> None \<and> \<not> stopIntentState (State r) then errInvalid else Inr (),
      if State r = TaskTimedOut \<and> TimeoutPolicy r \<noteq> TimeoutPolicyEnforced then errInvalid else Inr (),
      case Late r of None \<Rightarrow> Inr ()
      | Some l \<Rightarrow> firstErr [LateResult_validate dtoLen l, checkTails (length (Data (Log r))) (length (Data (l_Log l)))]]"

definition sameHash :: "string option \<Rightarrow> string option \<Rightarrow> bool" where
  "sameHash a b \<longleftrightarrow> a = b"

definition check_rec_publication :: "TaskRecord \<Rightarrow> WorkspaceBinding \<Rightarrow> TaskPublication \<Rightarrow> unit res" where
  "check_rec_publication r b p =
     (if p_Instance p \<noteq> b_Instance b then errInvalid
      else if p_Phase p = PubPhaseAuthorized \<and> TaskTerminal (State r) then errInvalid
      else if p_Phase p = PubPhaseSettled \<and> (\<not> TaskTerminal (State r) \<or> State r \<noteq> p_State p) then errInvalid
      else if r_TaskID (p_Candidate p) \<noteq> TaskID r \<or> r_Execution (p_Candidate p) \<noteq> Execution r then errInvalid
      else Inr ())"

definition check_rec_result :: "TaskRecord \<Rightarrow> WorkspaceBinding \<Rightarrow> TaskWorkspaceResult \<Rightarrow> unit res" where
  "check_rec_result r b w =
     (if w_Name w \<noteq> b_Name b \<or> w_Instance w \<noteq> b_Instance b \<or> \<not> sameHash (w_BaseCommit w) (b_BaseCommit b) then errInvalid
      else if w_Publication w = PublicationPublished
              \<and> (case Publication r of None \<Rightarrow> True
                 | Some p \<Rightarrow> p_Phase p \<noteq> PubPhaseSettled \<or> p_Status p \<noteq> Some PublicationPublished
                     \<or> w_Commit w \<noteq> Some (p_Commit p) \<or> w_Ref w \<noteq> Some (TaskRefPrefix @ TaskID r)) then errInvalid
      else if w_Publication w = PublicationFailed
              \<and> (case Publication r of None \<Rightarrow> False
                 | Some p \<Rightarrow> p_Phase p = PubPhaseSettled \<and> p_Status p \<noteq> Some PublicationFailed) then errInvalid
      else if (State r = TaskLost \<or> State r = TaskRejected) \<and> w_Publication w \<noteq> PublicationNotApplicable then errInvalid
      else Inr ())"

definition checkWorkspaceRecord :: "TaskRecord \<Rightarrow> unit res" where
  "checkWorkspaceRecord r = firstErr
     [CheckBinding (Request r) (Workspace r),
      if Workspace r = None \<and> (Publication r \<noteq> None \<or> WorkspaceResult r \<noteq> None) then errInvalid else Inr (),
      case (Workspace r, Publication r) of (Some b, Some p) \<Rightarrow> check_rec_publication r b p | _ \<Rightarrow> Inr (),
      if TaskTerminal (State r) \<and> Workspace r \<noteq> None \<and> WorkspaceResult r = None then errInvalid else Inr (),
      if \<not> TaskTerminal (State r) \<and> WorkspaceResult r \<noteq> None then errInvalid else Inr (),
      case (Workspace r, WorkspaceResult r) of (Some b, Some w) \<Rightarrow> check_rec_result r b w | _ \<Rightarrow> Inr (),
      case Late r of None \<Rightarrow> Inr ()
      | Some l \<Rightarrow> (case l_Workspace l of None \<Rightarrow> Inr ()
                   | Some w \<Rightarrow> if w_Publication w = PublicationPublished then errInvalid else Inr ())]"

datatype workspace_phase = WorkspacePhasePreparing | WorkspacePhaseExecuting | WorkspacePhasePublishing

definition WorkspacePhaseOf :: "WorkspaceBinding option \<Rightarrow> task_state \<Rightarrow> bool \<Rightarrow> workspace_phase option" where
  "WorkspacePhaseOf b s publishing =
     (if b = None \<or> TaskTerminal s then None
      else if publishing then Some WorkspacePhasePublishing
      else if s = TaskRunning then Some WorkspacePhaseExecuting
      else Some WorkspacePhasePreparing)"

end
