(* ===== verification/Role_Registry.thy ===== *)
theory Role_Registry
  imports Contract_Role
begin

section \<open>The role registry\<close>

text \<open>
  \<open>internal/plane/role_registry.go\<close> and the mutations of \<open>internal/plane/roles.go\<close>: the immutable
  registry document and its four transformations, the loader's checks on a decoded document, the
  visible and confirmed states around an atomic publication, and the add, set and remove
  mutations behind the gate. JSON tokens, temporaries and directory listing are not modelled: the
  outcome of a write, of a sync or of a worker's validation is an input of the operation.
\<close>

record roleRemoval =
  rm_ID :: string
  rm_RegistrationOrder :: int
  rm_OperationID :: string

record roleDoc =
  exists_doc :: bool
  revision :: int
  nextOrder :: int
  doc_roles :: "RoleRecord list"
  removals :: "roleRemoval list"

type_synonym instanceKey = "string \<times> int"

definition keyOf :: "RoleRecord \<Rightarrow> instanceKey" where
  "keyOf r = (r_ID r, RegistrationOrder r)"

definition rm_key :: "roleRemoval \<Rightarrow> instanceKey" where
  "rm_key f = (rm_ID f, rm_RegistrationOrder f)"

definition fenceOf :: "roleDoc \<Rightarrow> string \<Rightarrow> int \<Rightarrow> roleRemoval option" where
  "fenceOf d i order = List.find (\<lambda>f. rm_ID f = i \<and> rm_RegistrationOrder f = order) (removals d)"

definition fenced :: "roleDoc \<Rightarrow> RoleRecord \<Rightarrow> bool" where
  "fenced d r \<longleftrightarrow> fenceOf d (r_ID r) (RegistrationOrder r) \<noteq> None"

definition keepRemovals :: "roleRemoval list \<Rightarrow> RoleRecord list \<Rightarrow> roleRemoval list" where
  "keepRemovals rs roles =
     filter (\<lambda>f. list_ex (\<lambda>r. r_ID r = rm_ID f \<and> RegistrationOrder r = rm_RegistrationOrder f) roles) rs"

definition emptyRoleDoc :: roleDoc where
  "emptyRoleDoc = \<lparr>exists_doc = False, revision = 0, nextOrder = 1, doc_roles = [], removals = []\<rparr>"

definition withFence :: "roleDoc \<Rightarrow> nat \<Rightarrow> string \<Rightarrow> roleDoc" where
  "withFence d i op =
     (let r = doc_roles d ! i in
      \<lparr>exists_doc = True, revision = revision d + 1, nextOrder = nextOrder d, doc_roles = doc_roles d,
       removals = removals d @ [\<lparr>rm_ID = r_ID r, rm_RegistrationOrder = RegistrationOrder r, rm_OperationID = op\<rparr>]\<rparr>)"

fun find_from :: "nat \<Rightarrow> RoleRecord list \<Rightarrow> string \<Rightarrow> (RoleRecord \<times> nat) option" where
  "find_from k [] i = None"
| "find_from k (r # rs) i = (if r_ID r = i then Some (r, k) else find_from (Suc k) rs i)"

definition find_role :: "roleDoc \<Rightarrow> string \<Rightarrow> (RoleRecord \<times> nat) option" where
  "find_role d i = find_from 0 (doc_roles d) i"

definition forNode :: "roleDoc \<Rightarrow> string \<Rightarrow> RoleRecord list" where
  "forNode d i = filter (\<lambda>r. r_Node r = i) (doc_roles d)"

record roleSnap =
  rev :: int
  snap_roles :: "RoleRecord list"

definition snapshotFor :: "roleDoc \<Rightarrow> string \<Rightarrow> roleSnap" where
  "snapshotFor d i = \<lparr>rev = revision d, snap_roles = forNode d i\<rparr>"

definition withAdded :: "roleDoc \<Rightarrow> RoleConfig \<Rightarrow> roleDoc \<times> RoleRecord" where
  "withAdded d c =
     (let r = \<lparr>r_Config = Resolved c, RegistrationOrder = nextOrder d\<rparr> in
      (\<lparr>exists_doc = True, revision = revision d + 1, nextOrder = nextOrder d + 1,
        doc_roles = doc_roles d @ [r], removals = removals d\<rparr>, r))"

definition withReplaced :: "roleDoc \<Rightarrow> nat \<Rightarrow> RoleConfig \<Rightarrow> roleDoc \<times> RoleRecord" where
  "withReplaced d i c =
     (let r = \<lparr>r_Config = Resolved c, RegistrationOrder = RegistrationOrder (doc_roles d ! i)\<rparr>;
          roles = (doc_roles d)[i := r] in
      (\<lparr>exists_doc = True, revision = revision d + 1, nextOrder = nextOrder d, doc_roles = roles,
        removals = keepRemovals (removals d) roles\<rparr>, r))"

definition withRemoved :: "roleDoc \<Rightarrow> nat \<Rightarrow> roleDoc" where
  "withRemoved d i =
     (let roles = take i (doc_roles d) @ drop (Suc i) (doc_roles d) in
      \<lparr>exists_doc = True, revision = revision d + 1, nextOrder = nextOrder d, doc_roles = roles,
       removals = keepRemovals (removals d) roles\<rparr>)"

subsection \<open>The stored document\<close>

record registryFile =
  f_SchemaVersion :: int
  f_Revision :: int
  f_NextRegistrationOrder :: int
  f_Roles :: "RoleRecord list"
  f_Removals :: "roleRemoval list option"

definition encodeRoleDoc :: "roleDoc \<Rightarrow> registryFile" where
  "encodeRoleDoc d = \<lparr>f_SchemaVersion = 2, f_Revision = revision d, f_NextRegistrationOrder = nextOrder d,
     f_Roles = doc_roles d, f_Removals = Some (removals d)\<rparr>"

text \<open>
  The checks of \<open>parseRemoval\<close> on a fence whose fields are present with their types, and those of
  \<open>parseRoleDoc\<close>. Every failure is one non-contract error, which
  the loader wraps as a conflict.
\<close>

definition parseRemoval :: "roleRemoval \<Rightarrow> unit res" where
  "parseRemoval f =
     (if \<not> ValidSlug (rm_ID f) then Inl (Cause ''id'')
      else if rm_RegistrationOrder f < 1 \<or> rm_RegistrationOrder f > MaxSafeInteger then Inl (Cause ''order'')
      else if \<not> ValidOperationID (rm_OperationID f) then Inl (Cause ''operation_id'')
      else Inr ())"

fun parse_roles :: "(RoleRecord \<Rightarrow> unit res) \<Rightarrow> int \<Rightarrow> (string \<Rightarrow> bool) \<Rightarrow> RoleRecord list \<Rightarrow> RoleRecord list
    \<Rightarrow> RoleRecord list res" where
  "parse_roles parse nxt nodes acc [] = Inr acc"
| "parse_roles parse nxt nodes acc (r # rs) =
     (case parse r of
        Inl e \<Rightarrow> Inl e
      | Inr _ \<Rightarrow>
          if r_ID r \<in> set (map r_ID acc) then Inl (Cause ''duplicate role ID'')
          else if acc \<noteq> [] \<and> RegistrationOrder (last acc) \<ge> RegistrationOrder r then Inl (Cause ''not sorted'')
          else if RegistrationOrder r \<ge> nxt then Inl (Cause ''order not below next'')
          else if \<not> nodes (r_Node r) then Inl (Cause ''unknown node'')
          else parse_roles parse nxt nodes (acc @ [r]) rs)"

fun parse_removals :: "RoleRecord list \<Rightarrow> roleRemoval list \<Rightarrow> roleRemoval list \<Rightarrow> roleRemoval list res" where
  "parse_removals roles acc [] = Inr acc"
| "parse_removals roles acc (f # fs) =
     (case parseRemoval f of
        Inl e \<Rightarrow> Inl e
      | Inr _ \<Rightarrow>
          if rm_OperationID f \<in> set (map rm_OperationID acc) \<or> rm_key f \<in> set (map rm_key acc)
          then Inl (Cause ''repeated removal'')
          else if length (filter (\<lambda>r. r_ID r = rm_ID f \<and> RegistrationOrder r = rm_RegistrationOrder f) roles) \<noteq> 1
          then Inl (Cause ''not exactly one instance'')
          else parse_removals roles (acc @ [f]) fs)"

definition parseRoleDoc :: "(RoleConfig \<Rightarrow> nat) \<Rightarrow> AdapterLookup \<Rightarrow> (string \<Rightarrow> bool) \<Rightarrow> registryFile \<Rightarrow> roleDoc res" where
  "parseRoleDoc encLen lookup nodes f =
     (if f_SchemaVersion f \<noteq> 2 \<and> f_SchemaVersion f \<noteq> 1 then Inl (Cause ''schema'')
      else if f_SchemaVersion f = 1 \<and> f_Removals f \<noteq> None then Inl (Cause ''schema 1 has no removals'')
      else if f_SchemaVersion f = 2 \<and> f_Removals f = None then Inl (Cause ''removals is required'')
      else if f_Revision f < 1 \<or> f_Revision f > MaxSafeInteger then Inl (Cause ''revision'')
      else if f_NextRegistrationOrder f < 1 \<or> f_NextRegistrationOrder f > MaxSafeInteger then Inl (Cause ''next'')
      else if length (f_Roles f) > MaxRoles then Inl (Cause ''too many roles'')
      else case parse_roles (parseRoleRecordObject encLen lookup) (f_NextRegistrationOrder f) nodes [] (f_Roles f) of
          Inl e \<Rightarrow> Inl e
        | Inr roles \<Rightarrow>
            (case f_Removals f of
               None \<Rightarrow> Inr \<lparr>exists_doc = True, revision = f_Revision f, nextOrder = f_NextRegistrationOrder f,
                            doc_roles = roles, removals = []\<rparr>
             | Some fs \<Rightarrow>
                 (case parse_removals roles [] fs of
                    Inl e \<Rightarrow> Inl e
                  | Inr rms \<Rightarrow> Inr \<lparr>exists_doc = True, revision = f_Revision f,
                      nextOrder = f_NextRegistrationOrder f, doc_roles = roles, removals = rms\<rparr>)))"

text \<open>\<open>loadRoleDoc\<close>: no file is the empty registry, an oversized or invalid one a conflict.\<close>

definition loadRoleDoc :: "(RoleConfig \<Rightarrow> nat) \<Rightarrow> AdapterLookup \<Rightarrow> (string \<Rightarrow> bool) \<Rightarrow> bool \<Rightarrow> registryFile option
    \<Rightarrow> roleDoc res" where
  "loadRoleDoc encLen lookup nodes tooLarge file =
     (case file of
        None \<Rightarrow> Inr emptyRoleDoc
      | Some f \<Rightarrow>
          if tooLarge then Inl (Error CodeConflict '''')
          else (case parseRoleDoc encLen lookup nodes f of
                  Inl _ \<Rightarrow> Inl (Error CodeConflict '''')
                | Inr d \<Rightarrow> Inr d))"

subsection \<open>Publication\<close>

text \<open>The outcome of making a prepared document visible and syncing its directory.\<close>

datatype disk_outcome = DiskOk | DiskUnconfirmed | DiskFailed

record roleState =
  rs_visible :: roleDoc
  rs_confirmed :: roleDoc
  rs_blocked :: bool
  rs_blockedNode :: string

definition newRoleRegistry :: "roleDoc \<Rightarrow> roleState" where
  "newRoleRegistry d = \<lparr>rs_visible = d, rs_confirmed = d, rs_blocked = False, rs_blockedNode = []\<rparr>"

definition resync :: "bool \<Rightarrow> roleState \<Rightarrow> roleState \<times> (string \<times> bool) res" where
  "resync syncOk s =
     (if \<not> rs_blocked s then (s, Inr ([], False))
      else if \<not> syncOk then (s, Inl (Error CodeInternal ''''))
      else (\<lparr>rs_visible = rs_visible s, rs_confirmed = rs_visible s, rs_blocked = False, rs_blockedNode = []\<rparr>,
            Inr (rs_blockedNode s, True)))"

definition publish :: "disk_outcome \<Rightarrow> roleState \<Rightarrow> roleDoc \<Rightarrow> string \<Rightarrow> roleState \<times> unit res" where
  "publish o' s nxt node =
     (case o' of
        DiskFailed \<Rightarrow> (s, Inl (Error CodeInternal ''''))
      | DiskUnconfirmed \<Rightarrow>
          (\<lparr>rs_visible = nxt, rs_confirmed = rs_confirmed s, rs_blocked = True, rs_blockedNode = node\<rparr>,
           Inl (Error CodeInternal ''unconfirmed''))
      | DiskOk \<Rightarrow> (\<lparr>rs_visible = nxt, rs_confirmed = nxt, rs_blocked = False, rs_blockedNode = []\<rparr>, Inr ()))"

subsection \<open>Mutations\<close>

text \<open>
  The inputs of one mutation: whether another one holds the gate, the outcome of the resync's
  directory sync, the enrolled nodes, the worker's validation, and at each of the two rechecks the
  mutation's liveness and the validated attachment's, then the preparation and the publication.
\<close>

record mutationEnv =
  e_gateBusy :: bool
  e_syncOk :: bool
  e_known :: "string \<Rightarrow> bool"
  e_validate :: "unit res"
  e_live :: "bool \<times> bool"
  e_target :: "unit res \<times> unit res"
  e_prepare :: "unit res"
  e_disk :: disk_outcome

definition live :: "bool \<Rightarrow> unit res" where
  "live ok = (if \<not> ok then Inl (Error CodeUnavailable ''validation_timeout'') else Inr ())"

definition counterErr :: "'a res" where
  "counterErr = Inl (Error CodeConflict '''')"

definition notFound :: "'a res" where
  "notFound = Inl (Error CodeNotFound '''')"

definition removing :: "'a res" where
  "removing = Inl (Error CodeConflict ''role_removing'')"

definition addConflict :: "roleDoc \<Rightarrow> RoleConfig \<Rightarrow> unit res" where
  "addConflict d c =
     (if find_role d (c_ID c) \<noteq> None then Inl (Error CodeConflict '''')
      else if length (doc_roles d) \<ge> MaxRoles then Inl (Error CodeConflict '''')
      else if revision d \<ge> MaxSafeInteger then counterErr
      else if nextOrder d \<ge> MaxSafeInteger then counterErr
      else Inr ())"

definition nodeKnown :: "mutationEnv \<Rightarrow> string \<Rightarrow> unit res" where
  "nodeKnown e n = (if \<not> e_known e n then notFound else Inr ())"

definition begin_mutation :: "mutationEnv \<Rightarrow> roleState \<Rightarrow> roleState \<times> unit res" where
  "begin_mutation e s =
     (if e_gateBusy e then (s, Inl (Error CodeUnavailable ''busy''))
      else (case resync (e_syncOk e) s of (s', Inl err) \<Rightarrow> (s', Inl err) | (s', Inr _) \<Rightarrow> (s', Inr ())))"

definition recheck :: "bool \<Rightarrow> unit res \<Rightarrow> bool \<Rightarrow> unit res \<Rightarrow> int \<Rightarrow> roleState \<Rightarrow> unit res" where
  "recheck ok guard validated target base s = firstErr
     [live ok, guard, if validated then target else Inr (),
      if revision (rs_visible s) \<noteq> base then Inl (Error CodeUnavailable ''busy'') else Inr ()]"

definition commit :: "mutationEnv \<Rightarrow> roleState \<Rightarrow> int \<Rightarrow> string \<Rightarrow> bool \<Rightarrow> roleDoc \<Rightarrow> unit res \<times> unit res
    \<Rightarrow> roleState \<times> unit res" where
  "commit e s base node validated nxt guards =
     (case firstErr [recheck (fst (e_live e)) (fst guards) validated (fst (e_target e)) base s,
                     e_prepare e,
                     recheck (snd (e_live e)) (snd guards) validated (snd (e_target e)) base s] of
        Inl err \<Rightarrow> (s, Inl err)
      | Inr _ \<Rightarrow> publish (e_disk e) s nxt node)"

definition add_role :: "mutationEnv \<Rightarrow> roleState \<Rightarrow> RoleConfig res \<Rightarrow> roleState \<times> RoleRecord res" where
  "add_role e s parsed =
     (case parsed of
        Inl err \<Rightarrow> (s, Inl err)
      | Inr c0 \<Rightarrow>
          let c = Resolved c0 in
          (case firstErr [addConflict (rs_visible s) c, nodeKnown e (c_Node c)] of
             Inl err \<Rightarrow> (s, Inl err)
           | Inr _ \<Rightarrow>
               (case begin_mutation e s of
                  (s1, Inl err) \<Rightarrow> (s1, Inl err)
                | (s1, Inr _) \<Rightarrow>
                    let d = rs_visible s1 in
                    (case firstErr [addConflict d c, e_validate e] of
                       Inl err \<Rightarrow> (s1, Inl err)
                     | Inr _ \<Rightarrow>
                         let (nxt, r) = withAdded d c in
                         (case commit e s1 (revision d) (c_Node c) True nxt (Inr (), Inr ()) of
                            (s2, Inl err) \<Rightarrow> (s2, Inl err)
                          | (s2, Inr _) \<Rightarrow> (s2, Inr r))))))"

definition merge :: "(RoleConfig \<Rightarrow> nat) \<Rightarrow> AdapterLookup \<Rightarrow> roleDoc \<Rightarrow> string \<Rightarrow> RolePatch
    \<Rightarrow> (RoleRecord \<times> nat \<times> RoleConfig) res" where
  "merge encLen lookup d i p =
     (case find_role d i of
        None \<Rightarrow> notFound
      | Some (cur, k) \<Rightarrow>
          let m = RolePatch_Apply p (r_Config cur) in
          (case ValidateRoleConfig encLen m (Some lookup) of
             Inl err \<Rightarrow> Inl err
           | Inr _ \<Rightarrow> Inr (cur, k, m)))"

definition set_role :: "(RoleConfig \<Rightarrow> nat) \<Rightarrow> AdapterLookup \<Rightarrow> mutationEnv \<Rightarrow> roleState \<Rightarrow> string \<Rightarrow> RolePatch
    \<Rightarrow> roleState \<times> RoleRecord res" where
  "set_role encLen lookup e s i p =
     (if (case p_Adapter p of None \<Rightarrow> False | Some a \<Rightarrow> lookup a = None) then (s, errInvalid)
      else case merge encLen lookup (rs_visible s) i p of
        Inl err \<Rightarrow> (s, Inl err)
      | Inr _ \<Rightarrow>
          (case begin_mutation e s of
             (s1, Inl err) \<Rightarrow> (s1, Inl err)
           | (s1, Inr _) \<Rightarrow>
               let d = rs_visible s1 in
               (case merge encLen lookup d i p of
                  Inl err \<Rightarrow> (s1, Inl err)
                | Inr (cur, k, m) \<Rightarrow>
                    if fenced d cur then (s1, removing)
                    else if \<not> e_known e (r_Node cur) then (s1, notFound)
                    else (case e_validate e of
                        Inl err \<Rightarrow> (s1, Inl err)
                      | Inr _ \<Rightarrow>
                          if SameRoleConfig m (r_Config cur) then
                            (case firstErr [live (fst (e_live e)), fst (e_target e)] of
                               Inl err \<Rightarrow> (s1, Inl err)
                             | Inr _ \<Rightarrow> (s1, Inr cur))
                          else if revision d \<ge> MaxSafeInteger then (s1, counterErr)
                          else let (nxt, r) = withReplaced d k m in
                            (case commit e s1 (revision d) (r_Node cur) True nxt (Inr (), Inr ()) of
                               (s2, Inl err) \<Rightarrow> (s2, Inl err)
                             | (s2, Inr _) \<Rightarrow> (s2, Inr r))))))"

text \<open>
  Removal without force. \<open>held\<close> gives \<open>removalCheck\<close>'s answer for an instance at the first check
  and at the two rechecks of the commit.
\<close>

definition remove_role :: "(instanceKey \<Rightarrow> unit res \<times> unit res \<times> unit res) \<Rightarrow> mutationEnv \<Rightarrow> roleState \<Rightarrow> string
    \<Rightarrow> roleState \<times> unit res" where
  "remove_role held e s i =
     (if find_role (rs_visible s) i = None then (s, notFound)
      else case begin_mutation e s of
        (s1, Inl err) \<Rightarrow> (s1, Inl err)
      | (s1, Inr _) \<Rightarrow>
          let d = rs_visible s1 in
          (case find_role d i of
             None \<Rightarrow> (s1, notFound)
           | Some (cur, k) \<Rightarrow>
               if fenced d cur then (s1, removing)
               else if revision d \<ge> MaxSafeInteger then (s1, counterErr)
               else let (h0, h1, h2) = held (keyOf cur);
                        guard = (\<lambda>h. firstErr [if fenced d cur then removing else Inr (), h]) in
                 (case guard h0 of
                    Inl err \<Rightarrow> (s1, Inl err)
                  | Inr _ \<Rightarrow> commit e s1 (revision d) (r_Node cur) False (withRemoved d k) (guard h1, guard h2))))"

subsection \<open>Lookup facts\<close>

lemma find_from_Some:
  "find_from n rs i = Some (r, k) \<Longrightarrow> n \<le> k \<and> k - n < length rs \<and> rs ! (k - n) = r \<and> r_ID r = i"
proof (induction n rs i rule: find_from.induct)
  case (2 n a rs i)
  then show ?case by (auto split: if_splits simp: Suc_diff_Suc [symmetric] Suc_le_eq)
qed simp

lemma find_from_None: "find_from n rs i = None \<longleftrightarrow> i \<notin> r_ID ` set rs"
  by (induction n rs i rule: find_from.induct) auto

lemma find_role_Some: "find_role d i = Some (r, k) \<Longrightarrow> k < length (doc_roles d) \<and> doc_roles d ! k = r \<and> r_ID r = i"
  unfolding find_role_def by (drule find_from_Some) simp

lemma find_role_None: "find_role d i = None \<longleftrightarrow> i \<notin> r_ID ` set (doc_roles d)"
  by (simp add: find_role_def find_from_None)

lemma fenceOf_Some: "fenceOf d i n = Some f \<Longrightarrow> f \<in> set (removals d) \<and> rm_key f = (i, n)"
  by (auto simp: fenceOf_def rm_key_def find_Some_iff)

lemma find_not_None: "List.find P xs \<noteq> None \<longleftrightarrow> (\<exists>x \<in> set xs. P x)"
  by (auto simp: find_None_iff)

lemma fenced_iff: "fenced d r \<longleftrightarrow> keyOf r \<in> rm_key ` set (removals d)"
  unfolding fenced_def fenceOf_def find_not_None by (force simp: keyOf_def rm_key_def image_iff)

lemma keepRemovals_alt: "keepRemovals fs roles = filter (\<lambda>f. rm_key f \<in> keyOf ` set roles) fs"
  unfolding keepRemovals_def by (rule filter_cong) (simp_all add: list_ex_iff rm_key_def keyOf_def image_iff eq_commute)

subsection \<open>The document invariant\<close>

definition doc_ok :: "(RoleConfig \<Rightarrow> nat) \<Rightarrow> AdapterLookup \<Rightarrow> (string \<Rightarrow> bool) \<Rightarrow> roleDoc \<Rightarrow> bool" where
  "doc_ok encLen lookup nodes d \<longleftrightarrow>
     (\<not> exists_doc d \<longrightarrow> d = emptyRoleDoc)
     \<and> (exists_doc d \<longrightarrow> 1 \<le> revision d) \<and> revision d \<le> MaxSafeInteger
     \<and> 1 \<le> nextOrder d \<and> nextOrder d \<le> MaxSafeInteger \<and> length (doc_roles d) \<le> MaxRoles
     \<and> sorted_wrt (<) (map RegistrationOrder (doc_roles d)) \<and> distinct (map r_ID (doc_roles d))
     \<and> (\<forall>r \<in> set (doc_roles d). RegistrationOrder r < nextOrder d \<and> nodes (r_Node r)
          \<and> parseRoleRecordObject encLen lookup r = Inr ())
     \<and> distinct (map rm_OperationID (removals d)) \<and> distinct (map rm_key (removals d))
     \<and> (\<forall>f \<in> set (removals d). parseRemoval f = Inr () \<and> rm_key f \<in> keyOf ` set (doc_roles d))"

lemma doc_ok_empty: "doc_ok encLen lookup nodes emptyRoleDoc"
  by (simp add: doc_ok_def emptyRoleDoc_def MaxSafeInteger_def)

text \<open>The loader accepts exactly the documents of the invariant, and returns them unchanged.\<close>

lemma parse_roles_ok:
  assumes "\<forall>r \<in> set rs. parse r = Inr () \<and> RegistrationOrder r < nxt \<and> nodes (r_Node r)"
    and "sorted_wrt (<) (map RegistrationOrder (acc @ rs))" "distinct (map r_ID (acc @ rs))"
  shows "parse_roles parse nxt nodes acc rs = Inr (acc @ rs)"
  using assms
proof (induction rs arbitrary: acc)
  case (Cons r rs)
  have "RegistrationOrder (last acc) < RegistrationOrder r" if "acc \<noteq> []"
    using Cons.prems(2) that by (auto simp: sorted_wrt_append dest: last_in_set)
  then show ?case using Cons.IH [of "acc @ [r]"] Cons.prems by (auto simp: image_iff)
qed simp

lemma parse_removals_ok:
  assumes "\<forall>f \<in> set fs. parseRemoval f = Inr () \<and> rm_key f \<in> keyOf ` set roles" "distinct (map r_ID roles)"
    and "distinct (map rm_OperationID (acc @ fs))" "distinct (map rm_key (acc @ fs))"
  shows "parse_removals roles acc fs = Inr (acc @ fs)"
  using assms
proof (induction fs arbitrary: acc)
  case (Cons f fs)
  obtain r where r: "r \<in> set roles" "keyOf r = rm_key f" using Cons.prems(1) by auto
  have "filter (\<lambda>x. r_ID x = rm_ID f \<and> RegistrationOrder x = rm_RegistrationOrder f) roles
      = filter (\<lambda>x. x = r) roles"
    using r Cons.prems(2) by (intro filter_cong) (auto simp: keyOf_def rm_key_def distinct_map inj_on_def)
  moreover have "length (filter (\<lambda>x. x = r) roles) = 1"
    using r(1) Cons.prems(2) distinct_map [of r_ID roles] by (simp add: distinct_length_filter Int_absorb2 Collect_conv_if)
  ultimately show ?case using Cons.IH [of "acc @ [f]"] Cons.prems by auto
qed simp

lemma parseRoleDoc_encode:
  assumes "doc_ok encLen lookup nodes d" "exists_doc d"
  shows "parseRoleDoc encLen lookup nodes (encodeRoleDoc d) = Inr d"
proof -
  have "parse_roles (parseRoleRecordObject encLen lookup) (nextOrder d) nodes [] (doc_roles d) = Inr ([] @ doc_roles d)"
    using assms by (intro parse_roles_ok) (auto simp: doc_ok_def)
  moreover have "parse_removals (doc_roles d) [] (removals d) = Inr ([] @ removals d)"
    using assms by (intro parse_removals_ok) (auto simp: doc_ok_def)
  ultimately show ?thesis using assms by (simp add: parseRoleDoc_def encodeRoleDoc_def doc_ok_def)
qed

subsection \<open>The transformations keep the invariant\<close>

lemma doc_ok_nonneg: "doc_ok encLen lookup nodes d \<Longrightarrow> 0 \<le> revision d"
  by (cases "exists_doc d") (auto simp: doc_ok_def emptyRoleDoc_def)

lemma parseRoleRecordObject_Resolved:
  "ValidateRoleConfig encLen c (Some lookup) = Inr () \<Longrightarrow> 1 \<le> n \<Longrightarrow> n \<le> MaxSafeInteger \<Longrightarrow>
     parseRoleRecordObject encLen lookup \<lparr>r_Config = Resolved c, RegistrationOrder = n\<rparr> = Inr ()"
  by (simp add: parseRoleRecordObject_def ValidateRoleConfig_Resolved)

lemma doc_ok_withAdded:
  assumes ok: "doc_ok encLen lookup nodes d" and free: "addConflict d c = Inr ()"
    and v: "ValidateRoleConfig encLen c (Some lookup) = Inr ()" and n: "nodes (c_Node c)"
  shows "doc_ok encLen lookup nodes (fst (withAdded d c))"
proof -
  have g: "c_ID c \<notin> r_ID ` set (doc_roles d)" "length (doc_roles d) < MaxRoles" "revision d < MaxSafeInteger"
    "nextOrder d < MaxSafeInteger"
    using free by (auto simp: addConflict_def find_role_None counterErr_def split: if_splits)
  have "parseRoleRecordObject encLen lookup \<lparr>r_Config = Resolved c, RegistrationOrder = nextOrder d\<rparr> = Inr ()"
    using ok g by (intro parseRoleRecordObject_Resolved [OF v]) (auto simp: doc_ok_def)
  then show ?thesis using ok g n doc_ok_nonneg [OF ok]
    by (auto simp: doc_ok_def withAdded_def Let_def sorted_wrt_append)
qed

lemma keyOf_update:
  "i < length rs \<Longrightarrow> keyOf r = keyOf (rs ! i) \<Longrightarrow> map keyOf (rs[i := r]) = map keyOf rs"
  by (metis list_update_id map_update nth_map)

lemma keys_map: "map fst (map keyOf rs) = map r_ID rs" "map snd (map keyOf rs) = map RegistrationOrder rs"
  by (simp_all add: keyOf_def)

lemma doc_ok_withReplaced:
  assumes ok: "doc_ok encLen lookup nodes d" and i: "i < length (doc_roles d)"
    and same: "c_ID c = r_ID (doc_roles d ! i)" "c_Node c = r_Node (doc_roles d ! i)"
    and v: "ValidateRoleConfig encLen c (Some lookup) = Inr ()" and rv: "revision d < MaxSafeInteger"
  shows "doc_ok encLen lookup nodes (fst (withReplaced d i c))
     \<and> map keyOf (doc_roles (fst (withReplaced d i c))) = map keyOf (doc_roles d)
     \<and> removals (fst (withReplaced d i c)) = removals d"
proof -
  let ?n = "RegistrationOrder (doc_roles d ! i)"
  let ?r = "\<lparr>r_Config = Resolved c, RegistrationOrder = ?n\<rparr>"
  let ?rs = "(doc_roles d)[i := ?r]"
  have mem: "doc_roles d ! i \<in> set (doc_roles d)" using i by simp
  have keys: "map keyOf ?rs = map keyOf (doc_roles d)"
    using i same by (intro keyOf_update) (simp_all add: keyOf_def)
  then have ids: "map r_ID ?rs = map r_ID (doc_roles d)"
    and orders: "map RegistrationOrder ?rs = map RegistrationOrder (doc_roles d)"
    by (simp_all flip: keys_map)
  have ks: "keyOf ` set ?rs = keyOf ` set (doc_roles d)" using keys by (metis set_map)
  have rms: "keepRemovals (removals d) ?rs = removals d"
    using ok by (simp add: keepRemovals_alt ks doc_ok_def)
  have nb: "1 \<le> ?n \<and> ?n \<le> MaxSafeInteger"
    using ok mem by (auto simp: doc_ok_def parseRoleRecordObject_def firstErr_ok_iff split: if_splits)
  have rec: "?n < nextOrder d \<and> nodes (c_Node c) \<and> parseRoleRecordObject encLen lookup ?r = Inr ()"
    using ok mem same nb by (auto simp: doc_ok_def intro: parseRoleRecordObject_Resolved [OF v])
  have each: "\<forall>x \<in> set ?rs. RegistrationOrder x < nextOrder d \<and> nodes (r_Node x)
      \<and> parseRoleRecordObject encLen lookup x = Inr ()"
    using set_update_subset_insert [of "doc_roles d" i ?r] rec ok by (auto simp: doc_ok_def)
  show ?thesis using ok doc_ok_nonneg [OF ok] rv each
    by (auto simp: doc_ok_def withReplaced_def Let_def rms ids orders ks keys)
qed

lemma roles_removed:
  "i < length rs \<Longrightarrow> set (take i rs @ drop (Suc i) rs) \<subseteq> set rs"
  using set_take_subset [of i rs] set_drop_subset [of "Suc i" rs] by auto

lemma sublist_removed:
  "i < length rs \<Longrightarrow> rs = take i rs @ (rs ! i) # drop (Suc i) rs"
  by (simp add: id_take_nth_drop)

lemma doc_ok_withRemoved:
  assumes ok: "doc_ok encLen lookup nodes d" and i: "i < length (doc_roles d)" and rv: "revision d < MaxSafeInteger"
  shows "doc_ok encLen lookup nodes (withRemoved d i)"
proof -
  let ?rs = "take i (doc_roles d) @ drop (Suc i) (doc_roles d)"
  define x ys zs where "x = doc_roles d ! i" and "ys = take i (doc_roles d)" and "zs = drop (Suc i) (doc_roles d)"
  have eq: "doc_roles d = ys @ x # zs" using sublist_removed [OF i] by (simp add: x_def ys_def zs_def)
  have srt: "sorted_wrt (<) (map RegistrationOrder (ys @ zs))" and dst: "distinct (map r_ID (ys @ zs))"
    and len: "length (ys @ zs) \<le> MaxRoles"
    and each: "\<forall>r \<in> set (ys @ zs). RegistrationOrder r < nextOrder d \<and> nodes (r_Node r)
        \<and> parseRoleRecordObject encLen lookup r = Inr ()"
    using ok unfolding doc_ok_def eq by (auto simp: sorted_wrt_append)
  have rms: "distinct (map rm_OperationID (keepRemovals (removals d) (ys @ zs)))"
    "distinct (map rm_key (keepRemovals (removals d) (ys @ zs)))"
    "\<forall>f \<in> set (keepRemovals (removals d) (ys @ zs)). parseRemoval f = Inr () \<and> rm_key f \<in> keyOf ` set (ys @ zs)"
    using ok unfolding keepRemovals_alt doc_ok_def by (auto simp: distinct_map_filter)
  have eq': "withRemoved d i = \<lparr>exists_doc = True, revision = revision d + 1, nextOrder = nextOrder d,
      doc_roles = ys @ zs, removals = keepRemovals (removals d) (ys @ zs)\<rparr>"
    by (simp add: withRemoved_def Let_def ys_def zs_def)
  have "1 \<le> nextOrder d" "nextOrder d \<le> MaxSafeInteger" using ok by (simp_all add: doc_ok_def)
  with srt dst len each rms rv doc_ok_nonneg [OF ok] show ?thesis
    unfolding eq' doc_ok_def by simp
qed

lemma doc_ok_withFence:
  assumes ok: "doc_ok encLen lookup nodes d" and i: "i < length (doc_roles d)" and rv: "revision d < MaxSafeInteger"
    and nf: "\<not> fenced d (doc_roles d ! i)" and op: "ValidOperationID op" "op \<notin> rm_OperationID ` set (removals d)"
  shows "doc_ok encLen lookup nodes (withFence d i op)"
proof -
  let ?r = "doc_roles d ! i"
  let ?f = "\<lparr>rm_ID = r_ID ?r, rm_RegistrationOrder = RegistrationOrder ?r, rm_OperationID = op\<rparr>"
  have mem: "?r \<in> set (doc_roles d)" using i by simp
  have key: "rm_key ?f = keyOf ?r" by (simp add: rm_key_def keyOf_def)
  have "parseRoleRecordObject encLen lookup ?r = Inr ()" using ok mem by (simp add: doc_ok_def)
  then have "ValidSlug (r_ID ?r) \<and> 1 \<le> RegistrationOrder ?r \<and> RegistrationOrder ?r \<le> MaxSafeInteger"
    by (auto simp: parseRoleRecordObject_def ValidateRoleConfig_def firstErr_ok_iff roleFields_def checkField_def
        split: if_splits)
  then have pr: "parseRemoval ?f = Inr ()" using op by (simp add: parseRemoval_def)
  have nk: "rm_key ?f \<notin> rm_key ` set (removals d)" using nf by (simp add: fenced_iff key)
  have eq: "withFence d i op = \<lparr>exists_doc = True, revision = revision d + 1, nextOrder = nextOrder d,
      doc_roles = doc_roles d, removals = removals d @ [?f]\<rparr>"
    by (simp add: withFence_def Let_def)
  show ?thesis using ok rv doc_ok_nonneg [OF ok] pr nk op mem key
    unfolding eq doc_ok_def by (auto simp: image_iff)
qed

subsection \<open>The loader establishes the invariant\<close>

lemma parse_roles_sound:
  assumes "parse_roles parse nxt nodes acc rs = Inr out"
    and "sorted_wrt (<) (map RegistrationOrder acc)" "distinct (map r_ID acc)"
    and "\<forall>r \<in> set acc. parse r = Inr () \<and> RegistrationOrder r < nxt \<and> nodes (r_Node r)"
  shows "out = acc @ rs \<and> sorted_wrt (<) (map RegistrationOrder out) \<and> distinct (map r_ID out)
    \<and> (\<forall>r \<in> set out. parse r = Inr () \<and> RegistrationOrder r < nxt \<and> nodes (r_Node r))"
  using assms
proof (induction rs arbitrary: acc)
  case (Cons r rs)
  have g: "parse r = Inr ()" "r_ID r \<notin> set (map r_ID acc)" "acc \<noteq> [] \<Longrightarrow> RegistrationOrder (last acc) < RegistrationOrder r"
    "RegistrationOrder r < nxt" "nodes (r_Node r)" "parse_roles parse nxt nodes (acc @ [r]) rs = Inr out"
    using Cons.prems(1) by (auto split: sum.splits if_splits)
  have "RegistrationOrder x < RegistrationOrder r" if "x \<in> set acc" for x
  proof -
    have "acc = butlast acc @ [last acc]" using that by (cases acc rule: rev_cases) auto
    then have "x = last acc \<or> RegistrationOrder x < RegistrationOrder (last acc)"
      using Cons.prems(2) that by (cases acc rule: rev_cases) (auto simp: sorted_wrt_append)
    then show ?thesis using g(3) that by (cases acc) fastforce+
  qed
  then have srt: "sorted_wrt (<) (map RegistrationOrder (acc @ [r]))"
    using Cons.prems(2) by (auto simp: sorted_wrt_append)
  have dst: "distinct (map r_ID (acc @ [r]))" using g(2) Cons.prems(3) by simp
  have each: "\<forall>x \<in> set (acc @ [r]). parse x = Inr () \<and> RegistrationOrder x < nxt \<and> nodes (r_Node x)"
    using g Cons.prems(4) by simp
  from Cons.IH [OF g(6) srt dst each] show ?case unfolding append_assoc append_Cons append_Nil by blast
qed simp

lemma parse_removals_sound:
  assumes "parse_removals roles acc fs = Inr out"
    and "distinct (map rm_OperationID acc)" "distinct (map rm_key acc)"
    and "\<forall>f \<in> set acc. parseRemoval f = Inr () \<and> rm_key f \<in> keyOf ` set roles"
  shows "out = acc @ fs \<and> distinct (map rm_OperationID out) \<and> distinct (map rm_key out)
    \<and> (\<forall>f \<in> set out. parseRemoval f = Inr () \<and> rm_key f \<in> keyOf ` set roles)"
  using assms
proof (induction fs arbitrary: acc)
  case (Cons f fs)
  have g: "parseRemoval f = Inr ()" "rm_OperationID f \<notin> set (map rm_OperationID acc)" "rm_key f \<notin> set (map rm_key acc)"
    "length (filter (\<lambda>r. r_ID r = rm_ID f \<and> RegistrationOrder r = rm_RegistrationOrder f) roles) = 1"
    "parse_removals roles (acc @ [f]) fs = Inr out"
    using Cons.prems(1) by (auto split: sum.splits if_splits)
  then obtain r where "r \<in> set roles" "r_ID r = rm_ID f" "RegistrationOrder r = rm_RegistrationOrder f"
    by (metis (mono_tags, lifting) filter_False list.size(3) zero_neq_one)
  then have "rm_key f \<in> keyOf ` set roles" by (force simp: rm_key_def keyOf_def image_iff)
  then have each: "\<forall>x \<in> set (acc @ [f]). parseRemoval x = Inr () \<and> rm_key x \<in> keyOf ` set roles"
    using g(1) Cons.prems(4) by simp
  have dst: "distinct (map rm_OperationID (acc @ [f]))" "distinct (map rm_key (acc @ [f]))"
    using g(2,3) Cons.prems(2,3) by simp_all
  from Cons.IH [OF g(5) dst each] show ?case unfolding append_assoc append_Cons append_Nil by blast
qed simp

lemma parseRoleDoc_sound:
  assumes "parseRoleDoc encLen lookup nodes f = Inr d"
  shows "doc_ok encLen lookup nodes d"
proof -
  let ?parse = "parseRoleRecordObject encLen lookup"
  obtain roles where r: "parse_roles ?parse (f_NextRegistrationOrder f) nodes [] (f_Roles f) = Inr roles"
    and b: "1 \<le> f_Revision f" "f_Revision f \<le> MaxSafeInteger" "1 \<le> f_NextRegistrationOrder f"
      "f_NextRegistrationOrder f \<le> MaxSafeInteger" "length (f_Roles f) \<le> MaxRoles"
    using assms by (auto simp: parseRoleDoc_def split: if_splits sum.splits)
  note R = parse_roles_sound [OF r, simplified]
  show ?thesis
  proof (cases "f_Removals f")
    case None
    with assms r have "d = \<lparr>exists_doc = True, revision = f_Revision f, nextOrder = f_NextRegistrationOrder f,
        doc_roles = roles, removals = []\<rparr>"
      by (auto simp: parseRoleDoc_def split: if_splits)
    with R b show ?thesis by (auto simp: doc_ok_def)
  next
    case (Some fs)
    with assms r obtain rms where m: "parse_removals roles [] fs = Inr rms"
      and d: "d = \<lparr>exists_doc = True, revision = f_Revision f, nextOrder = f_NextRegistrationOrder f,
        doc_roles = roles, removals = rms\<rparr>"
      by (auto simp: parseRoleDoc_def split: if_splits sum.splits)
    from parse_removals_sound [OF m, simplified] R b show ?thesis by (auto simp: doc_ok_def d)
  qed
qed

lemma loadRoleDoc_sound: "loadRoleDoc encLen lookup nodes big file = Inr d \<Longrightarrow> doc_ok encLen lookup nodes d"
  by (auto simp: loadRoleDoc_def doc_ok_empty parseRoleDoc_sound split: option.splits sum.splits if_splits)

subsection \<open>Steps of the registry\<close>

text \<open>
  The document changes the mutations publish, with the guards they check, and the state changes
  around them: a retried sync of a blocked registry, or a publication from an unblocked one.
\<close>

inductive doc_step :: "(RoleConfig \<Rightarrow> nat) \<Rightarrow> AdapterLookup \<Rightarrow> (string \<Rightarrow> bool) \<Rightarrow> roleDoc \<Rightarrow> roleDoc \<Rightarrow> bool"
  for encLen lookup nodes where
  added: "addConflict d c = Inr () \<Longrightarrow> ValidateRoleConfig encLen c (Some lookup) = Inr () \<Longrightarrow> nodes (c_Node c)
    \<Longrightarrow> doc_step encLen lookup nodes d (fst (withAdded d c))"
| replaced: "find_role d i = Some (cur, k) \<Longrightarrow> \<not> fenced d cur \<Longrightarrow> c_ID c = r_ID cur \<Longrightarrow> c_Node c = r_Node cur
    \<Longrightarrow> ValidateRoleConfig encLen c (Some lookup) = Inr () \<Longrightarrow> revision d < MaxSafeInteger
    \<Longrightarrow> doc_step encLen lookup nodes d (fst (withReplaced d k c))"
| removed: "find_role d i = Some (cur, k) \<Longrightarrow> revision d < MaxSafeInteger
    \<Longrightarrow> doc_step encLen lookup nodes d (withRemoved d k)"
| fencedBy: "find_role d i = Some (cur, k) \<Longrightarrow> \<not> fenced d cur \<Longrightarrow> ValidOperationID op
    \<Longrightarrow> op \<notin> rm_OperationID ` set (removals d) \<Longrightarrow> revision d < MaxSafeInteger
    \<Longrightarrow> doc_step encLen lookup nodes d (withFence d k op)"

inductive reg_step :: "(RoleConfig \<Rightarrow> nat) \<Rightarrow> AdapterLookup \<Rightarrow> (string \<Rightarrow> bool) \<Rightarrow> roleState \<Rightarrow> roleState \<Rightarrow> bool"
  for encLen lookup nodes where
  resynced: "reg_step encLen lookup nodes s (fst (resync ok s))"
| published: "\<not> rs_blocked s \<Longrightarrow> doc_step encLen lookup nodes (rs_visible s) nxt
    \<Longrightarrow> reg_step encLen lookup nodes s (fst (publish out s nxt node))"

lemma doc_step_ok: "doc_step encLen lookup nodes d d' \<Longrightarrow> doc_ok encLen lookup nodes d \<Longrightarrow> doc_ok encLen lookup nodes d'"
  by (induction rule: doc_step.induct)
     (auto dest!: find_role_Some intro!: doc_ok_withAdded doc_ok_withRemoved doc_ok_withFence
        doc_ok_withReplaced [THEN conjunct1])

definition doc_keys :: "roleDoc \<Rightarrow> instanceKey set" where
  "doc_keys d = keyOf ` set (doc_roles d)"

lemma doc_keys_below: "doc_ok encLen lookup nodes d \<Longrightarrow> key \<in> doc_keys d \<Longrightarrow> snd key < nextOrder d"
  by (auto simp: doc_ok_def doc_keys_def keyOf_def)

lemma doc_step_counters: "doc_step encLen lookup nodes d d' \<Longrightarrow> revision d' = revision d + 1 \<and> nextOrder d \<le> nextOrder d'"
  by (induction rule: doc_step.induct) (auto simp: withAdded_def withReplaced_def withRemoved_def withFence_def Let_def)

lemma doc_step_keys:
  "doc_step encLen lookup nodes d d' \<Longrightarrow> doc_ok encLen lookup nodes d \<Longrightarrow> key \<in> doc_keys d' \<Longrightarrow>
     key \<in> doc_keys d \<or> nextOrder d \<le> snd key"
proof (induction rule: doc_step.induct)
  case (added d c)
  then show ?case by (auto simp: withAdded_def doc_keys_def keyOf_def Let_def)
next
  case (replaced d i cur k c)
  then have "map keyOf (doc_roles (fst (withReplaced d k c))) = map keyOf (doc_roles d)"
    by (intro doc_ok_withReplaced [THEN conjunct2, THEN conjunct1]) (auto dest: find_role_Some)
  then have "doc_keys (fst (withReplaced d k c)) = doc_keys d" unfolding doc_keys_def by (metis set_map)
  with replaced show ?case by simp
next
  case (removed d i cur k)
  then show ?case
    by (auto simp: withRemoved_def doc_keys_def Let_def dest: in_set_takeD in_set_dropD)
next
  case (fencedBy d i cur k op)
  then show ?case by (simp add: withFence_def doc_keys_def Let_def)
qed

subsection \<open>Instances are never reused\<close>

text \<open>
  What reservations, fences and candidates rely on: an instance key, once gone, never comes back,
  because every store state hands out keys at or above its own counter.
\<close>

locale instance_store =
  fixes inv :: "'d \<Rightarrow> bool"
    and keys :: "'d \<Rightarrow> 'k set"
    and fresh :: "'d \<Rightarrow> 'n::linorder"
    and order :: "'k \<Rightarrow> 'n"
    and step :: "'d \<Rightarrow> 'd \<Rightarrow> bool"
  assumes inv_step: "inv d \<Longrightarrow> step d d' \<Longrightarrow> inv d'"
    and below: "inv d \<Longrightarrow> k \<in> keys d \<Longrightarrow> order k < fresh d"
    and fresh_mono: "inv d \<Longrightarrow> step d d' \<Longrightarrow> fresh d \<le> fresh d'"
    and keys_step: "inv d \<Longrightarrow> step d d' \<Longrightarrow> k \<in> keys d' \<Longrightarrow> k \<in> keys d \<or> fresh d \<le> order k"
begin

lemma steps_inv: "step\<^sup>*\<^sup>* d d' \<Longrightarrow> inv d \<Longrightarrow> inv d' \<and> fresh d \<le> fresh d'"
  by (induction rule: rtranclp_induct) (auto intro: inv_step order_trans dest: fresh_mono)

lemma steps_keys: "step\<^sup>*\<^sup>* d d' \<Longrightarrow> inv d \<Longrightarrow> k \<in> keys d' \<Longrightarrow> k \<in> keys d \<or> fresh d \<le> order k"
proof (induction arbitrary: k rule: rtranclp_induct)
  case (step y z)
  then show ?case using keys_step [of y z k] steps_inv [of d y] by (meson order_trans)
qed simp

lemma gone_forever:
  assumes "inv d" "k \<in> keys d" "step\<^sup>*\<^sup>* d d'" "k \<notin> keys d'" "step\<^sup>*\<^sup>* d' d''"
  shows "k \<notin> keys d''"
proof
  assume "k \<in> keys d''"
  with steps_keys [OF assms(5)] steps_inv [OF assms(3,1)] assms(4) have "fresh d' \<le> order k" by blast
  moreover have "order k < fresh d'" using below [OF assms(1,2)] steps_inv [OF assms(3,1)] by (meson less_le_trans)
  ultimately show False by simp
qed

end

interpretation docs: instance_store "doc_ok encLen lookup nodes" doc_keys nextOrder snd "doc_step encLen lookup nodes"
  for encLen lookup nodes
  by unfold_locales (auto simp: doc_keys_below doc_step_counters doc_step_keys intro: doc_step_ok)

subsection \<open>The mutations are registry steps\<close>

definition reg_ok :: "(RoleConfig \<Rightarrow> nat) \<Rightarrow> AdapterLookup \<Rightarrow> (string \<Rightarrow> bool) \<Rightarrow> roleState \<Rightarrow> bool" where
  "reg_ok encLen lookup nodes s \<longleftrightarrow> doc_ok encLen lookup nodes (rs_visible s) \<and> doc_ok encLen lookup nodes (rs_confirmed s)
     \<and> (\<not> rs_blocked s \<longrightarrow> rs_visible s = rs_confirmed s)
     \<and> (rs_blocked s \<longrightarrow> doc_step encLen lookup nodes (rs_confirmed s) (rs_visible s))"

lemma reg_ok_new: "doc_ok encLen lookup nodes d \<Longrightarrow> reg_ok encLen lookup nodes (newRoleRegistry d)"
  by (simp add: reg_ok_def newRoleRegistry_def)

lemma reg_step_ok: "reg_step encLen lookup nodes s s' \<Longrightarrow> reg_ok encLen lookup nodes s \<Longrightarrow> reg_ok encLen lookup nodes s'"
proof (induction rule: reg_step.induct)
  case (resynced s ok)
  then show ?case by (auto simp: resync_def reg_ok_def)
next
  case (published s nxt out node)
  then show ?case by (cases out) (auto simp: publish_def reg_ok_def intro: doc_step_ok)
qed

lemma reg_steps_ok: "(reg_step encLen lookup nodes)\<^sup>*\<^sup>* s s' \<Longrightarrow> reg_ok encLen lookup nodes s \<Longrightarrow> reg_ok encLen lookup nodes s'"
  by (induction rule: rtranclp_induct) (auto intro: reg_step_ok)

lemma resync_visible [simp]: "rs_visible (fst (resync ok s)) = rs_visible s"
  by (simp add: resync_def)

lemma begin_mutation_spec:
  assumes "begin_mutation e s = (s1, r)"
  shows "(reg_step encLen lookup nodes)\<^sup>*\<^sup>* s s1 \<and> rs_visible s1 = rs_visible s \<and> (r = Inr () \<longrightarrow> \<not> rs_blocked s1)"
proof (cases "e_gateBusy e")
  case True
  with assms show ?thesis by (auto simp: begin_mutation_def)
next
  case False
  with assms have "s1 = fst (resync (e_syncOk e) s)" "r = Inr () \<longrightarrow> \<not> rs_blocked s1"
    by (auto simp: begin_mutation_def resync_def split: if_splits)
  then show ?thesis using reg_step.resynced [of encLen lookup nodes s "e_syncOk e"] by auto
qed

lemma commit_steps:
  assumes "\<not> rs_blocked s" "doc_step encLen lookup nodes (rs_visible s) nxt"
  shows "(reg_step encLen lookup nodes)\<^sup>*\<^sup>* s (fst (commit e s base node validated nxt guards))"
  using reg_step.published [OF assms, of "e_disk e" node] by (auto simp: commit_def split: sum.splits)

lemma commit_result:
  "commit e s base node validated nxt guards = (s', r) \<Longrightarrow>
     (r = Inr () \<longrightarrow> rs_visible s' = nxt \<and> rs_confirmed s' = nxt \<and> \<not> rs_blocked s' \<and> fst guards = Inr () \<and> snd guards = Inr ())
     \<and> (r \<noteq> Inr () \<longrightarrow> s' = s \<or> (rs_visible s' = nxt \<and> rs_blocked s' \<and> r = Inl (Error CodeInternal ''unconfirmed'')))"
  by (cases "e_disk e")
     (auto simp: commit_def publish_def recheck_def firstErr_ok_iff split: sum.splits)

lemma addConflict_Resolved [simp]: "addConflict d (Resolved c) = addConflict d c"
  by (simp add: addConflict_def)

lemma withAdded_Resolved [simp]: "withAdded d (Resolved c) = withAdded d c"
  by (simp add: withAdded_def)

lemma add_role_steps:
  assumes v: "\<And>c. parsed = Inr c \<Longrightarrow> ValidateRoleConfig encLen c (Some lookup) = Inr ()"
    and n: "\<And>k. e_known e k \<Longrightarrow> nodes k"
  shows "(reg_step encLen lookup nodes)\<^sup>*\<^sup>* s (fst (add_role e s parsed))"
proof (cases parsed)
  case (Inl err)
  then show ?thesis by (simp add: add_role_def)
next
  case (Inr c0)
  obtain s1 r where b: "begin_mutation e s = (s1, r)" by fastforce
  note B = begin_mutation_spec [OF b, of encLen lookup nodes]
  have C: "(reg_step encLen lookup nodes)\<^sup>*\<^sup>* s1 (fst (commit e s1 base node True (fst (withAdded (rs_visible s1) c0)) gs))"
    if "addConflict (rs_visible s1) c0 = Inr ()" "e_known e (c_Node c0)" "r = Inr ()" for base node gs
    using that B v [OF Inr] n by (intro commit_steps doc_step.added) auto
  show ?thesis
  proof (cases "addConflict (rs_visible s1) c0 = Inr () \<and> e_known e (c_Node c0) \<and> r = Inr ()")
    case True
    show ?thesis
      using B rtranclp_trans [of "reg_step encLen lookup nodes" s s1] C True
      by (auto simp: add_role_def Inr b Let_def split_def split: sum.splits prod.splits)
  next
    case False
    have N: "nodeKnown e (c_Node c0) = Inr () \<longleftrightarrow> e_known e (c_Node c0)" by (simp add: nodeKnown_def notFound_def)
    have F: "firstErr [addConflict (rs_visible s) c0, nodeKnown e (c_Node c0)] \<noteq> Inr () \<or> r \<noteq> Inr ()"
      using False B by (auto simp: firstErr_ok_iff N)
    show ?thesis using F B
      by (cases r) (auto simp: add_role_def Inr b Let_def split: sum.splits prod.splits)
  qed
qed

lemma merge_Inr:
  "merge encLen lookup d i p = Inr (cur, k, m) \<Longrightarrow> find_role d i = Some (cur, k) \<and> m = RolePatch_Apply p (r_Config cur)
     \<and> ValidateRoleConfig encLen m (Some lookup) = Inr ()"
  by (auto simp: merge_def notFound_def Let_def split: option.splits sum.splits)

lemma set_role_steps: "(reg_step encLen lookup nodes)\<^sup>*\<^sup>* s (fst (set_role encLen lookup e s i p))"
proof -
  obtain s1 r where b: "begin_mutation e s = (s1, r)" by fastforce
  note B = begin_mutation_spec [OF b, of encLen lookup nodes]
  have C: "(reg_step encLen lookup nodes)\<^sup>*\<^sup>* s (fst (commit e s1 base node True (fst (withReplaced (rs_visible s1) k m)) gs))"
    if "merge encLen lookup (rs_visible s1) i p = Inr (cur, k, m)" "\<not> fenced (rs_visible s1) cur"
      "revision (rs_visible s1) < MaxSafeInteger" "r = Inr ()" for cur k m base node gs
  proof -
    have "doc_step encLen lookup nodes (rs_visible s1) (fst (withReplaced (rs_visible s1) k m))"
      using merge_Inr [OF that(1)] that(2,3) by (intro doc_step.replaced [of _ i cur]) auto
    from commit_steps [OF _ this] B that(4) show ?thesis by (meson rtranclp_trans)
  qed
  have V: "rs_visible s1 = rs_visible s" using B by simp
  show ?thesis
  proof (cases "merge encLen lookup (rs_visible s1) i p")
    case (Inl err)
    then show ?thesis using B by (auto simp: set_role_def b V split: sum.splits)
  next
    case (Inr t)
    obtain cur k m where t: "t = (cur, k, m)" by (cases t) auto
    have C': "(reg_step encLen lookup nodes)\<^sup>*\<^sup>* s
        (fst (commit e s1 base node True (fst (withReplaced (rs_visible s) k m)) gs))"
      if "\<not> fenced (rs_visible s) cur" "revision (rs_visible s) < MaxSafeInteger" "r = Inr ()" for base node gs
      using C [of cur k m base node gs] that Inr by (simp add: t V)
    show ?thesis using Inr B C'
      by (cases r) (auto simp: set_role_def b t V Let_def split_def not_le split: sum.splits prod.splits option.splits)
  qed
qed

lemma remove_role_steps: "(reg_step encLen lookup nodes)\<^sup>*\<^sup>* s (fst (remove_role held e s i))"
proof -
  obtain s1 r where b: "begin_mutation e s = (s1, r)" by fastforce
  note B = begin_mutation_spec [OF b, of encLen lookup nodes]
  have C: "(reg_step encLen lookup nodes)\<^sup>*\<^sup>* s (fst (commit e s1 base node False (withRemoved (rs_visible s1) k) gs))"
    if "find_role (rs_visible s1) i = Some (cur, k)" "revision (rs_visible s1) < MaxSafeInteger" "r = Inr ()"
    for cur k base node gs
    using commit_steps [OF _ doc_step.removed [OF that(1,2)]] B that(3) by (meson rtranclp_trans)
  show ?thesis
    using B C by (auto simp: remove_role_def b Let_def split_def not_le split: sum.splits prod.splits option.splits)
qed

subsection \<open>Documents of a reachable registry load back\<close>

lemma registry_reload:
  assumes "loadRoleDoc encLen lookup nodes False file = Inr d0"
    and "(reg_step encLen lookup nodes)\<^sup>*\<^sup>* (newRoleRegistry d0) s"
    and "d = rs_visible s \<or> d = rs_confirmed s" and "exists_doc d"
  shows "loadRoleDoc encLen lookup nodes False (Some (encodeRoleDoc d)) = Inr d"
proof -
  have "reg_ok encLen lookup nodes s"
    using reg_steps_ok [OF assms(2) reg_ok_new [OF loadRoleDoc_sound [OF assms(1)]]] .
  then have "doc_ok encLen lookup nodes d" using assms(3) by (auto simp: reg_ok_def)
  from parseRoleDoc_encode [OF this assms(4)] show ?thesis by (simp add: loadRoleDoc_def)
qed

end
