(* ===== verification/Task_Entry.thy ===== *)
theory Task_Entry
  imports Plane_Log Contract_Task Role_Registry
begin

section \<open>One task's plane state\<close>

text \<open>
  The data of \<open>internal/plane/tasks.go\<close> (\<open>taskEntry\<close>, \<open>terminalCand\<close>, \<open>lateCand\<close>), the frozen
  outcome of \<open>task_writer.go\<close> (\<open>terminalOutcome\<close>) and the predicates and candidate
  constructions that read and write one entry only. The operations of the service compose them
  under the task lock.

  Instants Go initialises to the zero time are optional; wake channels are numbers; the
  start's transport token is the number \<open>te_res\<close>, whose release is recorded by the service.
\<close>

datatype sendState = sendNone | sendQueued | sendSending | sendReplied | sendUnsent

datatype candKind = candNatural | candLost | candRefusal | candControl

record terminalOutcome =
  to_state :: task_state
  to_started :: "instant option"
  to_finished :: instant
  to_exit :: "int option"
  to_signal :: "string option"
  to_final :: "bytes option"
  to_truncated :: bool
  to_reason :: "TaskReason option"
  to_log :: TaskLog

definition apply_outcome :: "terminalOutcome \<Rightarrow> TaskRecord \<Rightarrow> TaskRecord" where
  "apply_outcome o' r = r\<lparr>State := to_state o', StartedAt := to_started o', FinishedAt := Some (to_finished o'),
     ExitCode := to_exit o', Signal := to_signal o', FinalMessage := to_final o', FinalMessageTruncated := to_truncated o',
     Reason := to_reason o', Log := to_log o', Candidates := []\<rparr>"

record terminalCand =
  cd_kind :: candKind
  cd_outcome :: terminalOutcome
  cd_at :: instant
  cd_digest :: string
  cd_pub :: "TaskPublication option"
  cd_workspace :: "TaskWorkspaceResult option"

record lateCand =
  lc_result :: TaskResultBody
  lc_at :: instant
  lc_log :: TaskLog

record taskEntry =
  te_rec :: TaskRecord
  te_retained :: nat
  te_lateRetained :: nat
  te_key :: instanceKey
  te_confirmed :: bool
  te_released :: bool
  te_fault :: bool
  te_retryAt :: "instant option"
  te_loaded :: bool
  te_reconciling :: bool
  te_gen :: nat
  te_rgen :: nat
  te_seq :: nat
  te_lateOK :: bool
  te_lateBound :: string
  te_seen :: nat
  te_send :: sendState
  te_started :: bool
  te_startedAt :: instant
  te_visible :: instant
  te_deadline :: instant
  te_res :: "nat option"
  te_ring :: "planeLog option"
  te_logDirty :: bool
  te_lastCheckpoint :: "instant option"
  te_cand :: "terminalCand option"
  te_late :: "lateCand option"
  te_lateRing :: "planeLog option"
  te_watchdog :: bool
  te_commitFailed :: bool
  te_needRunning :: bool
  te_writer :: bool
  te_contribHeld :: bool
  te_contribRec :: bool
  te_pendingIntent :: "StopIntent option"
  te_intentDurable :: bool
  te_ctlDue :: "instant option"
  te_ctlInflight :: bool
  te_waiters :: "nat list"
  te_waitRegs :: "nat list"
  te_preparing :: bool
  te_prepDeadline :: "instant option"
  te_pendingPub :: "TaskPublication option"

text \<open>\<open>time.Before\<close> on an optional instant: the zero time is before every instant.\<close>

definition before :: "instant \<Rightarrow> instant option \<Rightarrow> bool" where
  "before now t = (case t of None \<Rightarrow> False | Some x \<Rightarrow> now < x)"

definition after_opt :: "instant option \<Rightarrow> duration \<Rightarrow> instant option" where
  "after_opt t d = map_option (\<lambda>x. x + d) t"

definition second :: duration where "second = 1000000000"
definition admissionTimeout :: duration where "admissionTimeout = 6 * second"
definition startControl :: duration where "startControl = 15 * second"
definition maxQueuedStarts :: nat where "maxQueuedStarts = 100"
definition commitWatchdog :: duration where "commitWatchdog = 30 * second"
definition checkpointEvery :: duration where "checkpointEvery = second"
definition storageRetry :: duration where "storageRetry = second"
definition WorkspacePrepareTimeout :: duration where "WorkspacePrepareTimeout = 300 * second"

subsection \<open>Predicates\<close>

definition pubLocked :: "taskEntry \<Rightarrow> TaskPublication option" where
  "pubLocked e = (case te_pendingPub e of Some p \<Rightarrow> Some p | None \<Rightarrow> Publication (te_rec e))"

definition terminal :: "taskEntry \<Rightarrow> bool" where
  "terminal e = TaskTerminal (State (te_rec e))"

definition publishingLocked :: "taskEntry \<Rightarrow> bool" where
  "publishingLocked e =
     (case pubLocked e of None \<Rightarrow> False | Some p \<Rightarrow> p_Phase p = PubPhaseAuthorized \<and> \<not> terminal e)"

definition intentLocked :: "taskEntry \<Rightarrow> StopIntent option" where
  "intentLocked e = (case te_pendingIntent e of Some i \<Rightarrow> Some i | None \<Rightarrow> rec_StopIntent (te_rec e))"

definition held :: "taskEntry \<Rightarrow> bool" where
  "held e \<longleftrightarrow> \<not> terminal e \<or> \<not> te_released e"

definition isReconciling :: "taskEntry \<Rightarrow> bool" where
  "isReconciling e \<longleftrightarrow> \<not> terminal e \<and> te_cand e = None \<and> \<not> publishingLocked e \<and> te_reconciling e"

definition entry_blocked :: "taskEntry \<Rightarrow> bool" where
  "entry_blocked e \<longleftrightarrow> \<not> te_confirmed e \<or> te_fault e \<or> te_watchdog e"

definition definitelyUnsentLocked :: "taskEntry \<Rightarrow> bool" where
  "definitelyUnsentLocked e \<longleftrightarrow> \<not> te_loaded e \<and> State (te_rec e) = TaskPending
     \<and> (te_send e = sendNone \<or> te_send e = sendQueued \<or> te_send e = sendUnsent)"

definition deliverableLocked :: "taskEntry \<Rightarrow> nat \<Rightarrow> bool" where
  "deliverableLocked e gen \<longleftrightarrow> te_intentDurable e \<and> \<not> terminal e \<and> te_cand e = None \<and> te_rgen e \<noteq> 0 \<and> te_rgen e = gen"

text \<open>The outcome with digest \<open>d\<close> is durable: the confirmed terminal result, or confirmed late evidence.\<close>

definition committedLocked :: "taskEntry \<Rightarrow> string \<Rightarrow> bool" where
  "committedLocked e d \<longleftrightarrow> terminal e \<and> te_released e
     \<and> (ResultDigest (te_rec e) = Some d
        \<or> (case Late (te_rec e) of None \<Rightarrow> False | Some l \<Rightarrow> l_Digest l = d \<and> te_confirmed e \<and> te_late e = None))"

text \<open>\<open>sanitizeReason\<close>'s loop drops bytes from the end until the text is valid UTF-8; it ends because the empty text is.\<close>

function trim_valid :: "bytes \<Rightarrow> bytes" where
  "trim_valid s = (if ValidString s then s else trim_valid (butlast s))"
  by pat_completeness auto
termination
proof (relation "measure length")
  fix s :: bytes assume "\<not> ValidString s"
  then have "s \<noteq> []" by auto
  then show "(butlast s, s) \<in> measure length" by simp
qed simp

declare trim_valid.simps [simp del]

definition sanitizeReason :: "bytes \<Rightarrow> bytes" where
  "sanitizeReason s0 =
     (let s = ToValidUTF8 s0 ''?'' in
      if length s > MaxReasonMessageBytes then trim_valid (take MaxReasonMessageBytes s) else s)"

subsection \<open>Candidates\<close>

text \<open>The start instant an outcome carries: this run's observed start, else the record's.\<close>

definition started_of :: "taskEntry \<Rightarrow> instant option" where
  "started_of e = (if te_started e then Some (te_startedAt e) else StartedAt (te_rec e))"

text \<open>The tail a plane decision freezes: the live ring's, else the record's.\<close>

definition frozen_log :: "taskEntry \<Rightarrow> TaskLog" where
  "frozen_log e = (case te_ring e of Some l \<Rightarrow> snapshot_log l | None \<Rightarrow> Log (te_rec e))"

definition emptyOutcome :: "task_state \<Rightarrow> instant \<Rightarrow> terminalOutcome" where
  "emptyOutcome st now = \<lparr>to_state = st, to_started = None, to_finished = now, to_exit = None, to_signal = None,
     to_final = None, to_truncated = False, to_reason = None, to_log = emptyLog\<rparr>"

definition plane_cand :: "candKind \<Rightarrow> terminalOutcome \<Rightarrow> instant \<Rightarrow> terminalCand" where
  "plane_cand k o' now = \<lparr>cd_kind = k, cd_outcome = o', cd_at = now, cd_digest = '''', cd_pub = None, cd_workspace = None\<rparr>"

definition beforeStartReason :: TaskReason where
  "beforeStartReason = \<lparr>tr_Code = ''cancelled_before_start'',
     tr_Message = ''the task was cancelled before any adapter started''\<rparr>"

definition workerLostReason :: TaskReason where
  "workerLostReason = \<lparr>tr_Code = ''worker_lost'', tr_Message =
     ''the worker could not confirm the execution's outcome (it restarted or stopped while the execution was active)''\<rparr>"

definition latch_cancelled :: "instant \<Rightarrow> taskEntry \<Rightarrow> taskEntry" where
  "latch_cancelled now e =
     e\<lparr>te_cand := Some (plane_cand candControl
          ((emptyOutcome TaskCancelled now)\<lparr>to_reason := Some beforeStartReason, to_log := frozen_log e\<rparr>) now),
       te_needRunning := False, te_reconciling := False\<rparr>"

definition latch_refusal :: "instant \<Rightarrow> TaskReason \<Rightarrow> taskEntry \<Rightarrow> taskEntry" where
  "latch_refusal now reason e =
     (if terminal e \<or> te_cand e \<noteq> None \<or> publishingLocked e then e
      else if intentLocked e \<noteq> None then latch_cancelled now e
      else e\<lparr>te_cand := Some (plane_cand candRefusal ((emptyOutcome TaskRejected now)\<lparr>to_reason := Some reason\<rparr>) now),
             te_needRunning := False\<rparr>)"

definition latch_lost :: "instant \<Rightarrow> string \<Rightarrow> string \<Rightarrow> taskEntry \<Rightarrow> taskEntry" where
  "latch_lost now reason msg e =
     (if terminal e \<or> te_cand e \<noteq> None \<or> publishingLocked e then e
      else e\<lparr>te_cand := Some (plane_cand candLost
              ((emptyOutcome TaskLost now)\<lparr>to_started := started_of e,
                 to_reason := Some \<lparr>tr_Code = reason, tr_Message = msg\<rparr>, to_log := frozen_log e\<rparr>) now),
             te_reconciling := False\<rparr>)"

text \<open>
  \<open>resultOutcome\<close>: the terminal outcome and candidate kind of a worker result, and the entry whose
  ring the finalization updated.
\<close>

definition ring_of :: "taskEntry \<Rightarrow> planeLog" where
  "ring_of e = (case te_ring e of Some l \<Rightarrow> l | None \<Rightarrow> newPlaneLogFrom (Log (te_rec e)))"

definition resultOutcome :: "taskEntry \<Rightarrow> TaskResultBody \<Rightarrow> instant \<Rightarrow> taskEntry \<times> terminalOutcome \<times> candKind" where
  "resultOutcome e b now =
     (let ring = ring_of e;
          (ring', lg) = finalize_log ring (r_OutputBytes b) (r_LogIncomplete b \<or> r_OutputBytes b < pl_next ring) (r_CounterOverflow b);
          e' = e\<lparr>te_ring := Some ring'\<rparr>;
          base = \<lparr>to_state = TaskFailed, to_started = started_of e, to_finished = now, to_exit = r_ExitCode b, to_signal = r_Signal b,
             to_final = r_FinalMessage b, to_truncated = r_FinalMessageTruncated b, to_reason = None, to_log = lg\<rparr>
      in if r_Outcome b = OutcomeLost
         then (e', base\<lparr>to_state := TaskLost, to_reason := Some workerLostReason\<rparr>, candLost)
         else if intentLocked e \<noteq> None \<or> r_Outcome b = OutcomeCancelled
         then (e', base\<lparr>to_state := TaskCancelled, to_reason := (if started_of e = None then Some beforeStartReason else None)\<rparr>, candControl)
         else if r_Outcome b = OutcomeTimedOut then (e', base\<lparr>to_state := TaskTimedOut\<rparr>, candControl)
         else (e', base\<lparr>to_state := (if r_ExitCode b = Some 0 then TaskSucceeded else TaskFailed)\<rparr>, candNatural))"

subsection \<open>Workspace results\<close>

definition workspaceTerminal :: "TaskRecord \<Rightarrow> WorkspaceBinding \<Rightarrow> terminalCand \<Rightarrow> TaskPublication option \<times> TaskWorkspaceResult option" where
  "workspaceTerminal r b c =
     (if cd_pub c \<noteq> None then (cd_pub c, cd_workspace c)
      else (Publication r, Some
        (if State r = TaskLost \<or> State r = TaskRejected then NewNotApplicable b
         else if State r = TaskCancelled
                 \<and> (StartedAt r = None \<or> (case cd_workspace c of None \<Rightarrow> False | Some w \<Rightarrow> w_Publication w = PublicationNotStarted))
         then NewNotStarted b
         else (case cd_workspace c of
             Some w \<Rightarrow> if w_Publication w = PublicationFailed then w else NewPublicationFailed b ''publication_transport_failed''
           | None \<Rightarrow> NewPublicationFailed b ''publication_transport_failed''))))"

end
