(* ===== verification/Text_Display.thy ===== *)
theory Text_Display
  imports Task_Entry "HOL-Library.Sublist"
begin

section \<open>Displayed text\<close>

text \<open>
  The text the plane derives from untrusted bytes: the display tail and the last line of retained output
  (\<open>LogTail\<close> of \<open>internal/contract/task_view.go\<close>, \<open>LastLogLine\<close> of \<open>controls.go\<close>), terminal
  escaping (\<open>EscapeTerminal\<close>) and the reason messages of \<open>internal/plane/tasks.go\<close> (\<open>sanitizeReason\<close>).
  The lemmas about UTF-8 say that decoding is local: a well-formed prefix decodes on its own.
\<close>

definition LF :: char where "LF = CHR 0x0A"
definition MaxTailBytes :: nat where "MaxTailBytes = 65536"
definition MaxLastLogLineBytes :: nat where "MaxLastLogLineBytes = 96"

definition LastIndexByte :: "bytes \<Rightarrow> char \<Rightarrow> nat option" where
  "LastIndexByte s c = (if c \<in> set s then Some (length s - 1 - length (takeWhile (\<lambda>x. x \<noteq> c) (List.rev s))) else None)"

definition LastLogLine :: "bytes \<Rightarrow> bytes \<times> bool" where
  "LastLogLine tail =
     (let e = (if tail \<noteq> [] \<and> last tail = LF then length tail - 1 else length tail);
          start = (case LastIndexByte (take e tail) LF of None \<Rightarrow> 0 | Some i \<Rightarrow> i + 1);
          s = ToValidUTF8 (drop start (take e tail)) replacement
      in if length s \<le> MaxLastLogLineBytes then (s, False)
         else (dropWhile cont (drop (length s - MaxLastLogLineBytes) s), True))"

lemma LastIndexByte_Some:
  assumes "LastIndexByte s c = Some i"
  obtains u v where "s = u @ c # v" "c \<notin> set v" "i = length u"
proof -
  have c: "c \<in> set s" and i: "i = length s - 1 - length (takeWhile (\<lambda>x. x \<noteq> c) (List.rev s))"
    using assms by (auto simp: LastIndexByte_def split: if_splits)
  obtain u v where s: "s = u @ c # v" "c \<notin> set v" using split_list_last [OF c] by blast
  have "takeWhile (\<lambda>x. x \<noteq> c) (List.rev v @ c # List.rev u) = List.rev v @ takeWhile (\<lambda>x. x \<noteq> c) (c # List.rev u)"
    using s(2) by (intro takeWhile_append2) auto
  then have "takeWhile (\<lambda>x. x \<noteq> c) (List.rev s) = List.rev v" using s(1) by simp
  then show ?thesis using that s i by simp
qed

lemma LastIndexByte_None: "LastIndexByte s c = None \<longleftrightarrow> c \<notin> set s"
  by (simp add: LastIndexByte_def)

text \<open>The walk back over line terminators, with the number of lines counted so far.\<close>

function tail_start :: "bytes \<Rightarrow> nat \<Rightarrow> nat \<Rightarrow> nat \<Rightarrow> nat" where
  "tail_start w lns n start =
     (case LastIndexByte (take start w) LF of
        None \<Rightarrow> 0
      | Some i \<Rightarrow> if n + 1 = lns then i + 1 else tail_start w lns (n + 1) i)"
  by pat_completeness auto
termination
proof (relation "measure (\<lambda>(w, lns, n, start). start)")
  fix w lns n start i assume "LastIndexByte (take start w) LF = Some i"
  then obtain u v where "take start w = u @ LF # v" "i = length u" by (rule LastIndexByte_Some)
  then have "i < length (take start w)" by simp
  then show "((w, lns, n + 1, i), (w, lns, n, start)) \<in> measure (\<lambda>(w, lns, n, start). start)" by simp
qed simp

declare tail_start.simps [simp del]

definition LogTail :: "bytes \<Rightarrow> int \<Rightarrow> bytes \<times> bool" where
  "LogTail data lns =
     (let cut = (length data > MaxTailBytes);
          w = (if cut then drop (length data - MaxTailBytes) data else data)
      in if lns \<le> 0 \<or> w = [] then ([], data \<noteq> [])
         else let start = tail_start w (nat lns) 0 (if last w = LF then length w - 1 else length w)
              in (ToValidUTF8 (drop start w) replacement, cut \<or> start > 0))"

definition hex_digit :: "nat \<Rightarrow> char" where
  "hex_digit d = (if d < 10 then char_of (0x30 + d) else char_of (0x57 + d))"

definition hex2 :: "nat \<Rightarrow> bytes" where
  "hex2 r = [hex_digit (r div 16 mod 16), hex_digit (r mod 16)]"

definition escape_rune :: "nat \<times> bytes \<Rightarrow> bytes" where
  "escape_rune p =
     (let r = fst p in
      if r = 0x5C then [CHR 0x5C, CHR 0x5C]
      else if r < 0x20 \<or> r = 0x7F then [CHR 0x5C, CHR ''x''] @ hex2 r
      else if 0x80 \<le> r \<and> r \<le> 0x9F then [CHR 0x5C, CHR ''u'', CHR ''0'', CHR ''0''] @ hex2 r
      else if r = 0xFFFD then replacement else snd p)"

definition EscapeTerminal :: "bytes \<Rightarrow> bytes" where
  "EscapeTerminal s = concat (map escape_rune (runes s))"

subsection \<open>Decoding is local\<close>

lemma bytes4_cases:
  obtains "s = []" | a where "s = [a]" | a b where "s = [a, b]" | a b c where "s = [a, b, c]" | a b c d r where "s = a # b # c # d # (r :: bytes)"
  by (metis list.exhaust)

lemma rune_width_append: "rune_width s \<noteq> 0 \<Longrightarrow> rune_width (s @ t) = rune_width s"
  by (cases s rule: bytes4_cases) (simp_all split: if_split_asm)

lemma rune_width_take: "rune_width (take (rune_width s) s) = rune_width s"
  by (cases s rule: bytes4_cases) (simp_all add: numeral_2_eq_2 numeral_3_eq_3 take_Suc_Cons numeral_eq_Suc [of "num.Bit0 (num.Bit0 num.One)"])

lemma rune_width_front: "rune_width s \<noteq> 0 \<Longrightarrow> rune_width (take (rune_width s) s @ t) = rune_width s"
  using rune_width_append [of "take (rune_width s) s" t] rune_width_take [of s] by simp

lemma ValidString_unfold: "ValidString s \<longleftrightarrow> s = [] \<or> (rune_width s \<noteq> 0 \<and> ValidString (drop (rune_width s) s))"
  by (cases s) (simp_all add: Let_def del: rune_width.simps)

lemma ValidString_append: "ValidString s \<Longrightarrow> ValidString (s @ t) = ValidString t"
proof (induction "length s" arbitrary: s rule: less_induct)
  case less
  show ?case
  proof (cases "s = []")
    case False
    then have w: "rune_width s \<noteq> 0" "ValidString (drop (rune_width s) s)" using less.prems ValidString_unfold [of s] by auto
    have "length (drop (rune_width s) s) < length s" using w(1) False by simp
    then have "ValidString (drop (rune_width s) s @ t) = ValidString t" using less.hyps w(2) by blast
    moreover have "drop (rune_width s) (s @ t) = drop (rune_width s) s @ t" using rune_width_le [of s] by simp
    ultimately show ?thesis using ValidString_unfold [of "s @ t"] rune_width_append [OF w(1)] w(1) False by simp
  qed simp
qed

lemma ValidString_front: "rune_width s \<noteq> 0 \<Longrightarrow> ValidString (take (rune_width s) s)"
  using rune_width_take [of s] rune_width_le [of s] by (subst ValidString_unfold) simp

lemma ToValidUTF8_valid: "ValidString rep \<Longrightarrow> ValidString (ToValidUTF8 s rep)"
proof -
  have "ValidString rep \<Longrightarrow> ValidString (toValidUTF8 rep b s)" for b
    by (induction rep b s rule: toValidUTF8.induct)
       (simp_all add: Let_def ValidString_append ValidString_front del: rune_width.simps take_Cons' drop_Cons')
  then show "ValidString rep \<Longrightarrow> ValidString (ToValidUTF8 s rep)" by (simp add: ToValidUTF8_def)
qed

lemma ToValidUTF8_same: "ValidString s \<Longrightarrow> ToValidUTF8 s rep = s"
proof -
  have "ValidString s \<Longrightarrow> toValidUTF8 rep b s = s" for b
    by (induction rep b s rule: toValidUTF8.induct) (auto simp: Let_def simp del: rune_width.simps take_Cons' drop_Cons')
  then show "ValidString s \<Longrightarrow> ToValidUTF8 s rep = s" by (simp add: ToValidUTF8_def)
qed


subsection \<open>Reason messages\<close>

lemma trim_valid_spec: "prefix (trim_valid s) s \<and> ValidString (trim_valid s) \<and> (\<forall>t. prefix t s \<and> ValidString t \<longrightarrow> prefix t (trim_valid s))"
proof (induction s rule: trim_valid.induct)
  case (1 s)
  show ?case
  proof (cases "ValidString s")
    case True
    then show ?thesis by (simp add: trim_valid.simps [of s])
  next
    case False
    then have e: "trim_valid s = trim_valid (butlast s)" by (simp add: trim_valid.simps [of s])
    have "prefix t (butlast s)" if "prefix t s" "ValidString t" for t
      using that False by (metis append_butlast_last_id butlast.simps(1) prefix_snoc)
    then show ?thesis using 1 [OF False] e prefixeq_butlast prefix_order.trans by metis
  qed
qed

text \<open>
  C38. A worker's refusal message is recorded as bounded, valid UTF-8: the recorded text is the longest valid
  prefix of at most 256 bytes of the message with its invalid bytes replaced, and a valid short message is kept as it is.
\<close>

theorem sanitized_reason:
  "ValidString (sanitizeReason s) \<and> length (sanitizeReason s) \<le> MaxReasonMessageBytes \<and> prefix (sanitizeReason s) (ToValidUTF8 s ''?'')
   \<and> (\<forall>t. prefix t (ToValidUTF8 s ''?'') \<and> ValidString t \<and> length t \<le> MaxReasonMessageBytes \<longrightarrow> prefix t (sanitizeReason s))
   \<and> (ValidString s \<and> length s \<le> MaxReasonMessageBytes \<longrightarrow> sanitizeReason s = s)"
proof -
  let ?v = "ToValidUTF8 s ''?''" and ?n = MaxReasonMessageBytes
  have v: "ValidString ?v" by (rule ToValidUTF8_valid) simp
  have short: "ValidString s \<and> length s \<le> ?n \<longrightarrow> sanitizeReason s = s"
    by (simp add: sanitizeReason_def ToValidUTF8_same)
  show ?thesis
  proof (cases "length ?v > ?n")
    case False
    then show ?thesis using v short by (simp add: sanitizeReason_def)
  next
    case True
    then have e: "sanitizeReason s = trim_valid (take ?n ?v)" by (simp add: sanitizeReason_def)
    note t = trim_valid_spec [of "take ?n ?v"]
    have "prefix t (take ?n ?v)" if "prefix t ?v" "length t \<le> ?n" for t
      using that by (metis append_eq_conv_conj prefix_def take_append take_all_iff prefix_order.refl take_is_prefix prefix_length_prefix length_take min.absorb2 True less_imp_le)
    moreover have "length (trim_valid (take ?n ?v)) \<le> ?n" using t prefix_length_le [of "trim_valid (take ?n ?v)" "take ?n ?v"] by simp
    moreover have "prefix (trim_valid (take ?n ?v)) ?v" using t take_is_prefix prefix_order.trans by blast
    ultimately show ?thesis using t e short by auto
  qed
qed

theorem sanitized_reason_witness: "sanitizeReason ''role gone'' = ''role gone''"
  using sanitized_reason [of "''role gone''"] by (simp add: MaxReasonMessageBytes_def)

subsection \<open>The last line\<close>

lemma cont_not_start: "rune_width s \<noteq> 0 \<Longrightarrow> s \<noteq> [] \<Longrightarrow> \<not> cont (hd s)"
  by (cases s) (auto simp: cont_def in_range_def split: if_splits)

text \<open>A suffix of a valid text is valid after its leading continuation bytes.\<close>

lemma range_cont: "in_range lo hi b \<Longrightarrow> 0x80 \<le> lo \<Longrightarrow> hi \<le> 0xBF \<Longrightarrow> cont b"
  by (simp add: cont_def in_range_def)

lemma rune_cont1: "1 < rune_width (a # s) \<Longrightarrow> cont (s ! 0)"
  by (cases s rule: bytes4_cases) (auto elim: range_cont split: if_split_asm)

lemma rune_cont2: "2 < rune_width (a # s) \<Longrightarrow> cont (s ! 1)"
  by (cases s rule: bytes4_cases) (auto split: if_split_asm)

lemma rune_cont3: "3 < rune_width (a # s) \<Longrightarrow> cont (s ! 2)"
  by (cases s rule: bytes4_cases) (auto split: if_split_asm)

lemmas rune_conts = rune_cont1 rune_cont2 rune_cont3

lemma rune_tail_cont: "0 < k \<Longrightarrow> k < rune_width s \<Longrightarrow> cont (s ! k)"
proof -
  assume k: "0 < k" "k < rune_width s"
  then obtain a r where s: "s = a # r" by (cases s) auto
  have "k = 1 \<or> k = 2 \<or> k = 3" using k rune_width_le4 [of s] by linarith
  then show ?thesis using rune_conts [of a r] k s by (auto simp del: rune_width.simps simp: nth_Cons')
qed

lemma dropWhile_valid: "ValidString s \<Longrightarrow> ValidString (dropWhile cont (drop k s))"
proof (induction "length s" arbitrary: s k rule: less_induct)
  case less
  show ?case
  proof (cases "s = []")
    case False
    define w where "w = rune_width s"
    have w: "0 < w" "w \<le> length s" "ValidString (drop w s)" using less.prems False ValidString_unfold [of s] rune_width_le [of s] by (auto simp: w_def)
    show ?thesis
    proof (cases "w \<le> k")
      case True
      then have "drop k s = drop (k - w) (drop w s)" by simp
      moreover have "length (drop w s) < length s" using w False by simp
      ultimately show ?thesis using less.hyps [of "drop w s" "k - w"] w(3) by simp
    next
      case False
      show ?thesis
      proof (cases "k = 0")
        case True
        then have "dropWhile cont (drop k s) = s" using cont_not_start [of s] w(1) \<open>s \<noteq> []\<close> by (cases s) (auto simp: w_def simp del: rune_width.simps)
        then show ?thesis using less.prems by simp
      next
        case k: False
        have "drop k s = take (w - k) (drop k s) @ drop w s" using False by (metis append_take_drop_id drop_drop le_add_diff_inverse2 less_imp_le not_le)
        moreover have "cont x" if "x \<in> set (take (w - k) (drop k s))" for x
          using that k rune_tail_cont [of _ s] w(2) by (auto simp: in_set_conv_nth w_def)
        ultimately have "dropWhile cont (drop k s) = dropWhile cont (drop w s)" by (metis dropWhile_append2)
        moreover have "length (drop w s) < length s" using w \<open>s \<noteq> []\<close> by simp
        ultimately show ?thesis using less.hyps [of "drop w s" 0] w(3) by simp
      qed
    qed
  qed simp
qed


text \<open>
  The last line shown for a running task is bounded, valid UTF-8 and taken from the end: it is the final
  line of the tail (a trailing newline ends it) with invalid bytes replaced, or a suffix of it of at most 96 bytes
  cut on a rune boundary; \<open>cut\<close> is set exactly when the line was longer, and fewer than four bytes beyond the bound are dropped.
\<close>

definition final_line :: "bytes \<Rightarrow> bytes" where
  "final_line t = List.rev (takeWhile (\<lambda>c. c \<noteq> LF) (if t \<noteq> [] \<and> last t = LF then tl (List.rev t) else List.rev t))"

lemma after_last: "drop (case LastIndexByte s c of None \<Rightarrow> 0 | Some i \<Rightarrow> i + 1) s = List.rev (takeWhile (\<lambda>x. x \<noteq> c) (List.rev s))"
proof (cases "LastIndexByte s c")
  case None
  then have "takeWhile (\<lambda>x. x \<noteq> c) (List.rev s) = List.rev s" by (auto simp: LastIndexByte_None takeWhile_eq_all_conv)
  then show ?thesis unfolding None by (simp only: rev_rev_ident option.case drop_0)
next
  case (Some i)
  then obtain u v where s: "s = u @ c # v" "c \<notin> set v" "i = length u" by (rule LastIndexByte_Some)
  have "takeWhile (\<lambda>x. x \<noteq> c) (List.rev v @ c # List.rev u) = List.rev v @ takeWhile (\<lambda>x. x \<noteq> c) (c # List.rev u)"
    using s(2) by (intro takeWhile_append2) auto
  then show ?thesis using s Some by simp
qed

lemma suffix_kept: "dropWhile P ys = ys \<Longrightarrow> length ys \<le> length (dropWhile P (xs @ ys))"
  by (simp add: dropWhile_append)

lemma dropWhile_cont_short: "ValidString s \<Longrightarrow> length (drop k s) \<le> length (dropWhile cont (drop k s)) + 3"
proof (induction "length s" arbitrary: s k rule: less_induct)
  case less
  define w where "w = rune_width s"
  show ?case
  proof (cases "s = [] \<or> drop k s = []")
    case False
    then have w: "0 < w" "w \<le> length s" "w \<le> 4" "ValidString (drop w s)"
      using less.prems ValidString_unfold [of s] rune_width_le [of s] rune_width_le4 [of s] by (auto simp: w_def)
    show ?thesis
    proof (cases "w \<le> k")
      case True
      then have "drop k s = drop (k - w) (drop w s)" by simp
      moreover have "length (drop w s) < length s" using w False by simp
      ultimately show ?thesis using less.hyps [of "drop w s" "k - w"] w(4) by simp
    next
      case k: False
      have "drop w s = [] \<or> \<not> cont (hd (drop w s))" using w(4) ValidString_unfold [of "drop w s"] cont_not_start by blast
      then have d: "dropWhile cont (drop w s) = drop w s" by (cases "drop w s") auto
      have "drop k s = take (w - k) (drop k s) @ drop w s" using k by (metis append_take_drop_id drop_drop le_add_diff_inverse2 less_imp_le not_le)
      then have "length (drop w s) \<le> length (dropWhile cont (drop k s))"
        using suffix_kept [OF d, of "take (w - k) (drop k s)"] by simp
      moreover have "k = 0 \<Longrightarrow> dropWhile cont (drop k s) = s" using cont_not_start [of s] w(1) False by (cases s) (auto simp: w_def simp del: rune_width.simps)
      ultimately show ?thesis using w(2,3) k by (cases "k = 0") simp_all
    qed
  qed auto
qed

theorem last_line_bounded:
  "ValidString (fst (LastLogLine t)) \<and> length (fst (LastLogLine t)) \<le> MaxLastLogLineBytes
   \<and> suffix (fst (LastLogLine t)) (ToValidUTF8 (final_line t) replacement)
   \<and> snd (LastLogLine t) = (length (ToValidUTF8 (final_line t) replacement) > MaxLastLogLineBytes)
   \<and> (if snd (LastLogLine t) then MaxLastLogLineBytes \<le> length (fst (LastLogLine t)) + 3
      else fst (LastLogLine t) = ToValidUTF8 (final_line t) replacement)"
proof -
  let ?s = "ToValidUTF8 (final_line t) replacement"
  let ?e = "if t \<noteq> [] \<and> last t = LF then length t - 1 else length t"
  have rv: "List.rev (take ?e t) = (if t \<noteq> [] \<and> last t = LF then tl (List.rev t) else List.rev t)"
    by (cases t rule: rev_cases) simp_all
  have l: "LastLogLine t = (if length ?s \<le> MaxLastLogLineBytes then (?s, False) else (dropWhile cont (drop (length ?s - MaxLastLogLineBytes) ?s), True))"
    unfolding LastLogLine_def Let_def after_last rv final_line_def ..
  have v: "ValidString ?s" by (rule ToValidUTF8_valid) code_simp
  have "length (dropWhile cont (drop (length ?s - MaxLastLogLineBytes) ?s)) \<le> MaxLastLogLineBytes"
    using length_dropWhile_le [of cont "drop (length ?s - MaxLastLogLineBytes) ?s"] by simp
  moreover have "suffix (dropWhile cont (drop k ?s)) ?s" for k using suffix_dropWhile suffix_drop suffix_order.trans by blast
  moreover have "MaxLastLogLineBytes \<le> length (dropWhile cont (drop (length ?s - MaxLastLogLineBytes) ?s)) + 3" if "length ?s > MaxLastLogLineBytes"
    using dropWhile_cont_short [OF v, of "length ?s - MaxLastLogLineBytes"] that by simp
  ultimately show ?thesis using v dropWhile_valid [OF v] unfolding l by auto
qed


subsection \<open>The display tail\<close>

text \<open>The reference: the lines of a text, each with its terminator; an unterminated last line counts.\<close>

fun split_lines :: "bytes \<Rightarrow> bytes list" where
  "split_lines [] = []"
| "split_lines (c # s) = (if c = LF then [c] # split_lines s
     else (case split_lines s of [] \<Rightarrow> [[c]] | l # ls \<Rightarrow> (c # l) # ls))"

lemma concat_split_lines [simp]: "concat (split_lines s) = s"
  by (induction s) (auto split: list.splits)

lemma split_lines_Nil [simp]: "split_lines s = [] \<longleftrightarrow> s = []"
  by (cases s) (auto split: list.splits)

lemma split_lines_append: "split_lines (u @ LF # v) = split_lines (u @ [LF]) @ split_lines v"
  by (induction u) (auto split: list.splits)

lemma split_lines_single: "v \<noteq> [] \<Longrightarrow> LF \<notin> set (butlast v) \<Longrightarrow> split_lines v = [v]"
proof (induction v)
  case (Cons c v)
  show ?case
  proof (cases "v = []")
    case False
    then have "c \<noteq> LF" "split_lines v = [v]" using Cons by auto
    then show ?thesis by simp
  qed simp
qed simp

lemma lastn_snoc: "0 < m \<Longrightarrow> lastn m (xs @ [x]) = lastn (m - 1) xs @ [x]"
  by (simp add: lastn_append)

text \<open>\<open>t\<close> closes the last line of the searched prefix: its terminator, or nothing.\<close>

lemma tail_start_spec:
  assumes "n < lns" and "take start w = u" and "t = [LF] \<or> (t = [] \<and> u \<noteq> [] \<and> last u \<noteq> LF)"
  shows "tail_start w lns n start + length (concat (lastn (lns - n) (split_lines (u @ t)))) = length (u @ t)"
  using assms
proof (induction "length u" arbitrary: u t n start rule: less_induct)
  case less
  show ?case
  proof (cases "LastIndexByte u LF")
    case None
    then have "LF \<notin> set u" "u @ t \<noteq> []" using less.prems(3) by (auto simp: LastIndexByte_None)
    then have "split_lines (u @ t) = [u @ t]" using less.prems(3) by (intro split_lines_single) (auto simp: butlast_append dest: in_set_butlastD)
    then show ?thesis using None less.prems by (simp add: tail_start.simps [of w lns n start])
  next
    case (Some i)
    then obtain a b where u: "u = a @ LF # b" "LF \<notin> set b" "i = length a" by (rule LastIndexByte_Some)
    have "b @ t \<noteq> []" using less.prems(3) u(1) by auto
    moreover have "LF \<notin> set (butlast (b @ t))" using u(2) less.prems(3) by (auto simp: butlast_append dest: in_set_butlastD)
    ultimately have "split_lines (b @ t) = [b @ t]" by (rule split_lines_single)
    then have s: "split_lines (u @ t) = split_lines (a @ [LF]) @ [b @ t]" using split_lines_append [of a "b @ t"] u(1) by simp
    have m: "0 < lns - n" using less.prems(1) by simp
    have ls: "lastn (lns - n) (split_lines (u @ t)) = lastn (lns - n - 1) (split_lines (a @ [LF])) @ [b @ t]"
      unfolding s by (rule lastn_snoc [OF m])
    have step: "tail_start w lns n start = (if n + 1 = lns then i + 1 else tail_start w lns (n + 1) i)"
      using Some less.prems(2) by (simp add: tail_start.simps [of w lns n start])
    show ?thesis
    proof (cases "n + 1 = lns")
      case True
      then show ?thesis using step ls u by auto
    next
      case False
      have "i \<le> start" using less.prems(2) u by (metis append_take_drop_id length_append length_take le_add1 min.bounded_iff)
      then have "take i w = take i (take start w)" by simp
      then have "take i w = a" using less.prems(2) u by simp
      then have "tail_start w lns (n + 1) i + length (concat (lastn (lns - (n + 1)) (split_lines (a @ [LF])))) = length (a @ [LF])"
        using less.hyps [of a "n + 1" i "[LF]"] False less.prems(1) u by simp
      then show ?thesis using step False ls u(1) by simp
    qed
  qed
qed

text \<open>
  C39. The display tail is the reference selection: the last \<open>lines\<close> lines of the final 64 KiB, with invalid
  bytes replaced, and \<open>truncated\<close> exactly when retained bytes were omitted.
\<close>

theorem log_tail_lines:
  assumes "0 < lns"
  shows "LogTail data lns =
    (let sel = concat (lastn (nat lns) (split_lines (lastn MaxTailBytes data)))
     in (ToValidUTF8 sel replacement, length sel < length data))"
proof -
  define w where "w = (if length data > MaxTailBytes then drop (length data - MaxTailBytes) data else data)"
  have w: "lastn MaxTailBytes data = w" by (auto simp: w_def lastn_def)
  show ?thesis
  proof (cases "w = []")
    case True
    then have "data = []" by (auto simp: w_def MaxTailBytes_def split: if_splits)
    then show ?thesis by (simp add: LogTail_def Let_def ToValidUTF8_def)
  next
    case False
    define u where "u = (if last w = LF then butlast w else w)"
    define t where "t = (if last w = LF then [LF] else [])"
    have ut: "u @ t = w" using False by (auto simp: u_def t_def) (metis append_butlast_last_id)
    let ?sel = "concat (lastn (nat lns) (split_lines w))"
    let ?st = "if last w = LF then length w - 1 else length w"
    have "take ?st w = u" by (simp add: u_def butlast_conv_take)
    moreover have "t = [LF] \<or> (t = [] \<and> u \<noteq> [] \<and> last u \<noteq> LF)" using False by (simp add: t_def u_def)
    ultimately have s: "tail_start w (nat lns) 0 ?st + length ?sel = length w"
      using tail_start_spec [of 0 "nat lns" ?st w u t] assms ut by simp
    have "\<exists>p. split_lines w = p @ lastn (nat lns) (split_lines w)" by (rule lastn_suffix)
    then obtain p where p: "split_lines w = p @ lastn (nat lns) (split_lines w)" by blast
    have "concat (split_lines w) = concat p @ ?sel" by (subst p) simp
    then have cp: "w = concat p @ ?sel" by simp
    then have "length (concat p) = tail_start w (nat lns) 0 ?st" using s by (metis add_right_cancel length_append)
    then have "drop (tail_start w (nat lns) 0 ?st) w = ?sel" using cp by (metis append_eq_conv_conj)
    moreover have "(length data > MaxTailBytes \<or> tail_start w (nat lns) 0 ?st > 0) = (length ?sel < length data)"
      using s by (auto simp: w_def split: if_splits)
    moreover have "LogTail data lns = (ToValidUTF8 (drop (tail_start w (nat lns) 0 ?st) w) replacement,
        length data > MaxTailBytes \<or> tail_start w (nat lns) 0 ?st > 0)"
      using assms False unfolding LogTail_def Let_def w_def [symmetric] by simp
    ultimately show ?thesis unfolding w Let_def by (simp only:)
  qed
qed

theorem log_tail_lines_witness: "LogTail [CHR ''a'', LF, CHR ''b'', LF, CHR ''c''] 2 = ([CHR ''b'', LF, CHR ''c''], True)"
  by (subst log_tail_lines) (simp_all add: LF_def MaxTailBytes_def lastn_def ToValidUTF8_def)

subsection \<open>Terminal escaping\<close>

lemma runes_unfold: "rune_width x \<noteq> 0 \<Longrightarrow> runes x = (rune_value x, take (rune_width x) x) # runes (drop (rune_width x) x)"
  by (cases x) (simp, simp add: Let_def del: rune_width.simps rune_value.simps)

lemma runes_append: "ValidString s \<Longrightarrow> runes (s @ t) = runes s @ runes t"
proof (induction "length s" arbitrary: s rule: less_induct)
  case less
  show ?case
  proof (cases s)
    case (Cons a r)
    then have w: "rune_width s \<noteq> 0" "ValidString (drop (rune_width s) s)" using less.prems ValidString_unfold [of s] by auto
    have "length (drop (rune_width s) s) < length s" using w(1) Cons by simp
    then have ih: "runes (drop (rune_width s) s @ t) = runes (drop (rune_width s) s) @ runes t" using less.hyps w(2) by blast
    have l: "rune_width s \<le> length s" by (rule rune_width_le)
    have wa: "rune_width (s @ t) = rune_width s" by (rule rune_width_append [OF w(1)])
    have v: "rune_value (s @ t) = rune_value s" using l wa
      by (auto simp: nth_append simp del: rune_width.simps split: nat.split)
    show ?thesis using runes_unfold [of s] runes_unfold [of "s @ t"] w(1) wa v l ih by (simp del: rune_width.simps rune_value.simps)
  qed simp
qed

lemma runes_concat: "list_all ValidString xs \<Longrightarrow> runes (concat xs) = concat (map runes xs)"
  by (induction xs) (simp_all add: runes_append)

text \<open>What ranging over a text yields is well formed: a rune with its own encoding, or the replacement rune for one bad byte.\<close>

lemma runes_ok: "(r, b) \<in> set (runes s) \<Longrightarrow> r = 0xFFFD \<or> (ValidString b \<and> runes b = [(r, b)])"
proof (induction s rule: runes.induct)
  case (2 a s)
  let ?s = "a # s" and ?w = "rune_width (a # s)"
  show ?case
  proof (cases "?w = 0")
    case True
    then show ?thesis using 2 by (auto simp: Let_def simp del: rune_width.simps rune_value.simps)
  next
    case False
    have v: "ValidString (take ?w ?s)" by (rule ValidString_front [OF False])
    have "runes (take ?w ?s) = [(rune_value (take ?w ?s), take ?w ?s)]"
      using False rune_width_take [of ?s] rune_width_le [of ?s] runes_unfold [of "take ?w ?s"] by (simp del: rune_width.simps rune_value.simps take_Cons')
    moreover have "rune_value (take ?w ?s) = rune_value ?s" using rune_width_take [of ?s] rune_width_le [of ?s]
      by (simp del: rune_width.simps take_Cons' split: nat.split)
    ultimately show ?thesis using 2 False v by (auto simp: Let_def simp del: rune_width.simps rune_value.simps take_Cons')
  qed
qed simp

lemma ascii_plain:
  "list_all (\<lambda>c. 0x20 \<le> code_of c \<and> code_of c < 0x7F) cs \<Longrightarrow> ValidString cs \<and> list_all (\<lambda>r. \<not> IsControl (fst r)) (runes cs)"
  by (induction cs) (auto simp: Let_def IsControl_def)

lemma hex_digit_ascii: "d < 16 \<Longrightarrow> 0x20 \<le> code_of (hex_digit d) \<and> code_of (hex_digit d) < 0x7F"
  by (simp add: hex_digit_def)

lemma hex2_ascii: "list_all (\<lambda>c. 0x20 \<le> code_of c \<and> code_of c < 0x7F) (hex2 r)"
  using hex_digit_ascii [of "r div 16 mod 16"] hex_digit_ascii [of "r mod 16"] by (simp add: hex2_def)

lemma escape_rune_plain:
  assumes "p \<in> set (runes s)"
  shows "ValidString (escape_rune p) \<and> list_all (\<lambda>r. \<not> IsControl (fst r)) (runes (escape_rune p))"
proof -
  let ?special = "fst p = 0x5C \<or> fst p < 0x20 \<or> fst p = 0x7F \<or> (0x80 \<le> fst p \<and> fst p \<le> 0x9F)"
  have plain: "escape_rune p = snd p \<and> \<not> IsControl (fst p)" if "\<not> ?special" "fst p \<noteq> 0xFFFD"
    using that unfolding escape_rune_def IsControl_def Let_def by auto
  consider ?special | "fst p = 0xFFFD" | "\<not> ?special" "fst p \<noteq> 0xFFFD" by blast
  then show ?thesis
  proof cases
    case 1
    then have "list_all (\<lambda>c. 0x20 \<le> code_of c \<and> code_of c < 0x7F) (escape_rune p)"
      using hex2_ascii [of "fst p"] by (auto simp: escape_rune_def Let_def)
    then show ?thesis by (rule ascii_plain)
  next
    case 2
    then show ?thesis by (simp add: escape_rune_def replacement_def cont_def in_range_def IsControl_def)
  next
    case 3
    then show ?thesis using plain runes_ok [of "fst p" "snd p" s] assms by simp
  qed
qed

text \<open>
  C40. Escaped text cannot drive a terminal: whatever bytes it is given, the escaped text is valid UTF-8 and
  decodes to runes none of which is a control character (C0, DEL or C1), newline, tab and escape included.
\<close>

theorem escaped_has_no_controls:
  "ValidString (EscapeTerminal s) \<and> list_all (\<lambda>r. \<not> IsControl (fst r)) (runes (EscapeTerminal s))"
proof -
  have "ValidString (escape_rune p) \<and> list_all (\<lambda>r. \<not> IsControl (fst r)) (runes (escape_rune p))" if "p \<in> set (runes s)" for p
    by (rule escape_rune_plain [OF that])
  then have "list_all ValidString (map escape_rune (runes s))" "list_all (list_all (\<lambda>r. \<not> IsControl (fst r))) (map runes (map escape_rune (runes s)))"
    by (simp_all add: list_all_iff)
  moreover have "list_all ValidString xs \<Longrightarrow> ValidString (concat xs)" for xs by (induction xs) (simp_all add: ValidString_append)
  ultimately show ?thesis unfolding EscapeTerminal_def by (simp add: runes_concat list_all_iff)
qed

end
