(* ===== verification/Node_Registry.thy ===== *)
theory Node_Registry
  imports Role_Registry Contract_Task
begin

section \<open>The node registry\<close>

text \<open>
  \<open>internal/plane/node_registry.go\<close>: leases, attachments and their generations, the startup grace,
  role acknowledgement and readiness. Every operation samples the clock once, so the instant is an
  argument \<open>now\<close>; \<open>seq\<close> is the task service's admission counter. The loss queue of the task
  service (\<open>enqueueLoss\<close>, innermost lock) is the field \<open>losses\<close>; the map of nodes is visited in the
  order of \<open>node_ids\<close>, Go's own order being arbitrary, and the facts of different nodes name
  different nodes. A stream is its presence.
\<close>

definition leaseDuration :: duration where
  "leaseDuration = 15000 * 1000000"

definition firstHeartbeatWindow :: duration where
  "firstHeartbeatWindow = 5 * 1000000000"

definition startupGrace :: duration where
  "startupGrace = 60 * 1000000000"

record lossFact =
  lf_node :: string
  lf_reason :: string
  lf_loadedOnly :: bool
  lf_maxSeq :: nat

record attachment =
  a_gen :: nat
  a_firstDeadline :: instant
  a_heartbeated :: bool
  a_sw :: string
  a_pv :: int
  a_stream :: bool
  a_desired :: roleSnap
  a_acked :: roleSnap
  a_status :: "bool list option"
  a_reconciled :: bool
  a_graceWin :: bool
  a_unknown :: bool

record nodeState =
  n_enrolledAt :: instant
  n_synced :: bool
  n_lastSeen :: "instant option"
  n_protocolVersion :: "int option"
  n_softwareVersion :: "string option"
  n_online :: bool
  n_deadline :: instant
  n_att :: "attachment option"
  n_graceArmed :: bool
  n_graceDone :: bool
  n_graceDeadline :: instant

record nodeRegistry =
  nodes :: "string \<Rightarrow> nodeState option"
  node_ids :: "string list"
  gen_counter :: nat
  closed :: bool
  losses :: "lossFact list"

definition newNodeState :: "instant \<Rightarrow> bool \<Rightarrow> nodeState" where
  "newNodeState at sy = \<lparr>n_enrolledAt = at, n_synced = sy, n_lastSeen = None, n_protocolVersion = None,
     n_softwareVersion = None, n_online = False, n_deadline = 0, n_att = None, n_graceArmed = False,
     n_graceDone = False, n_graceDeadline = 0\<rparr>"

definition emptySnap :: roleSnap where
  "emptySnap = \<lparr>rev = 0, snap_roles = []\<rparr>"

definition loadNodeRegistry :: "(string \<times> instant) list \<Rightarrow> nodeRegistry" where
  "loadNodeRegistry recs =
     \<lparr>nodes = map_of (map (\<lambda>(i, at). (i, newNodeState at True)) recs), node_ids = map fst recs,
      gen_counter = 0, closed = False, losses = []\<rparr>"

definition upd_node :: "nodeRegistry \<Rightarrow> string \<Rightarrow> nodeState \<Rightarrow> nodeRegistry" where
  "upd_node r i st = r\<lparr>nodes := (nodes r)(i \<mapsto> st)\<rparr>"

subsection \<open>Expiry\<close>

text \<open>One node's part of \<open>expireLocked\<close>: its new state, its loss facts and the generations closed.\<close>

definition expire_lease :: "instant \<Rightarrow> nat \<Rightarrow> string \<Rightarrow> nodeState \<Rightarrow> nodeState \<times> lossFact list" where
  "expire_lease now seq i st =
     (if n_online st \<and> \<not> now < n_deadline st
      then (st\<lparr>n_online := False\<rparr>,
            [\<lparr>lf_node = i, lf_reason = ''lease_expired'', lf_loadedOnly = False, lf_maxSeq = seq\<rparr>])
      else (st, []))"

definition expire_grace :: "instant \<Rightarrow> nat \<Rightarrow> string \<Rightarrow> nodeState \<Rightarrow> nodeState \<times> lossFact list" where
  "expire_grace now seq i st =
     (if n_graceArmed st \<and> \<not> n_graceDone st \<and> \<not> now < n_graceDeadline st
      then (st\<lparr>n_graceDone := True\<rparr>,
            [\<lparr>lf_node = i, lf_reason = ''startup_grace_expired'', lf_loadedOnly = True, lf_maxSeq = seq\<rparr>])
      else (st, []))"

definition expire_att :: "instant \<Rightarrow> nat \<Rightarrow> nat \<Rightarrow> string \<Rightarrow> nodeState \<Rightarrow> nodeState \<times> lossFact list \<times> nat list" where
  "expire_att now keep seq i st =
     (case n_att st of
        None \<Rightarrow> (st, [], [])
      | Some a \<Rightarrow>
          let window = (\<not> a_heartbeated a \<and> \<not> now < a_firstDeadline a \<and> a_gen a \<noteq> keep) in
          if window \<or> (a_heartbeated a \<and> \<not> now < n_deadline st)
          then (st\<lparr>n_att := None\<rparr>,
                if window \<and> a_graceWin a \<and> \<not> n_online st
                then [\<lparr>lf_node = i, lf_reason = ''startup_grace_expired'', lf_loadedOnly = True, lf_maxSeq = seq\<rparr>]
                else [], [a_gen a])
          else (st, [], []))"

definition expire_node :: "instant \<Rightarrow> nat \<Rightarrow> nat \<Rightarrow> string \<Rightarrow> nodeState \<Rightarrow> nodeState \<times> lossFact list \<times> nat list" where
  "expire_node now keep seq i st =
     (let (st1, f1) = expire_lease now seq i st;
          (st2, f2) = expire_grace now seq i st1;
          (st3, f3, c) = expire_att now keep seq i st2
      in (st3, f1 @ f2 @ f3, c))"

fun expire_ids :: "instant \<Rightarrow> nat \<Rightarrow> nat \<Rightarrow> string list \<Rightarrow> nodeRegistry \<Rightarrow> nodeRegistry \<times> nat list" where
  "expire_ids now keep seq [] r = (r, [])"
| "expire_ids now keep seq (i # is) r =
     (case nodes r i of
        None \<Rightarrow> expire_ids now keep seq is r
      | Some st \<Rightarrow>
          let (st', fs, c) = expire_node now keep seq i st;
              (r', cs) = expire_ids now keep seq is ((upd_node r i st')\<lparr>losses := losses r @ fs\<rparr>)
          in (r', c @ cs))"

definition expireLocked :: "instant \<Rightarrow> nat \<Rightarrow> nat \<Rightarrow> nodeRegistry \<Rightarrow> nodeRegistry \<times> nat list" where
  "expireLocked now keep seq r = expire_ids now keep seq (node_ids r) r"

definition Expire :: "instant \<Rightarrow> nat \<Rightarrow> nodeRegistry \<Rightarrow> nodeRegistry" where
  "Expire now seq r = fst (expireLocked now 0 seq r)"

subsection \<open>Enrollment\<close>

text \<open>
  \<open>Enroll\<close>: \<open>readOk\<close> is the revalidation of a known record, \<open>dirOk\<close> the durable \<open>nodes/\<close>
  directory, \<open>disk\<close> the publication of a new record and its directory sync (of a known record:
  the sync alone). The returned flag says the node was created.
\<close>

definition Enroll :: "bool \<Rightarrow> unit res \<Rightarrow> unit res \<Rightarrow> disk_outcome \<Rightarrow> instant \<Rightarrow> nat \<Rightarrow> string \<Rightarrow> nodeRegistry
    \<Rightarrow> nodeRegistry \<times> bool res" where
  "Enroll canceled readOk dirOk disk now seq i r =
     (if \<not> ValidNodeID i then (r, errInvalid)
      else if canceled then (r, Inl (Error CodeUnavailable ''''))
      else if closed r then (r, Inl (Error CodeUnavailable ''''))
      else case nodes r i of
        Some st \<Rightarrow>
          (case readOk of
             Inl e \<Rightarrow> (r, Inl e)
           | Inr _ \<Rightarrow>
               if \<not> n_synced st \<and> disk \<noteq> DiskOk then (r, Inl (Error CodeInternal ''''))
               else (Expire now seq (if n_synced st then r else upd_node r i (st\<lparr>n_synced := True\<rparr>)), Inr False))
      | None \<Rightarrow>
          (case dirOk of
             Inl e \<Rightarrow> (r, Inl e)
           | Inr _ \<Rightarrow>
               let reg = (\<lambda>sy. (upd_node r i (newNodeState now sy))\<lparr>node_ids := node_ids r @ [i]\<rparr>) in
               (case disk of
                  DiskFailed \<Rightarrow> (r, Inl (Error CodeInternal ''''))
                | DiskUnconfirmed \<Rightarrow> (reg False, Inl (Error CodeInternal ''''))
                | DiskOk \<Rightarrow> (Expire now seq (reg True), Inr True))))"

subsection \<open>Attachments\<close>

definition armGrace :: "instant \<Rightarrow> string list \<Rightarrow> nodeRegistry \<Rightarrow> nodeRegistry" where
  "armGrace now ns r = foldl (\<lambda>r i. case nodes r i of
       None \<Rightarrow> r
     | Some st \<Rightarrow> upd_node r i (st\<lparr>n_graceArmed := True, n_graceDone := False, n_graceDeadline := now + startupGrace\<rparr>)) r ns"

text \<open>Updates of the current attachment of generation \<open>g\<close>; any other generation is ignored.\<close>

definition with_att :: "nodeRegistry \<Rightarrow> string \<Rightarrow> nat \<Rightarrow> (attachment \<Rightarrow> attachment) \<Rightarrow> nodeRegistry" where
  "with_att r i g f =
     (case nodes r i of
        None \<Rightarrow> r
      | Some st \<Rightarrow>
          (case n_att st of
             None \<Rightarrow> r
           | Some a \<Rightarrow> if a_gen a = g then upd_node r i (st\<lparr>n_att := Some (f a)\<rparr>) else r))"

definition markUnknown :: "string \<Rightarrow> nat \<Rightarrow> nodeRegistry \<Rightarrow> nodeRegistry" where
  "markUnknown i g r = with_att r i g (\<lambda>a. a\<lparr>a_unknown := True\<rparr>)"

definition markReconciled :: "string \<Rightarrow> nat \<Rightarrow> nodeRegistry \<Rightarrow> nodeRegistry" where
  "markReconciled i g r = with_att r i g (\<lambda>a. a\<lparr>a_reconciled := True\<rparr>)"

definition ackSnapshot :: "string \<Rightarrow> nat \<Rightarrow> roleSnap \<Rightarrow> nodeRegistry \<Rightarrow> nodeRegistry" where
  "ackSnapshot i g snap r = with_att r i g (\<lambda>a. a\<lparr>a_acked := snap, a_status := None\<rparr>)"

definition desiredFor :: "nodeRegistry \<Rightarrow> string \<Rightarrow> nat \<Rightarrow> roleSnap option" where
  "desiredFor r i g =
     (case nodes r i of
        None \<Rightarrow> None
      | Some st \<Rightarrow> (case n_att st of None \<Rightarrow> None | Some a \<Rightarrow> if a_gen a = g then Some (a_desired a) else None))"

definition attachLocked :: "instant \<Rightarrow> string \<Rightarrow> string \<Rightarrow> int \<Rightarrow> nodeRegistry \<Rightarrow> nodeRegistry \<times> nat res" where
  "attachLocked now i sw pv r =
     (if closed r then (r, Inl (Error CodeUnavailable ''''))
      else case nodes r i of
        None \<Rightarrow> (r, Inl (Error CodeNotFound ''''))
      | Some st \<Rightarrow>
          if n_att st \<noteq> None then (r, Inl (Error CodeConflict ''''))
          else let g = gen_counter r + 1;
                   a = \<lparr>a_gen = g, a_firstDeadline = now + firstHeartbeatWindow, a_heartbeated = False, a_sw = sw,
                        a_pv = pv, a_stream = False, a_desired = emptySnap, a_acked = emptySnap, a_status = None,
                        a_reconciled = False, a_graceWin = False, a_unknown = False\<rparr>
               in ((upd_node r i (st\<lparr>n_att := Some a\<rparr>))\<lparr>gen_counter := g\<rparr>, Inr g))"

definition attach :: "roleState \<Rightarrow> instant \<Rightarrow> nat \<Rightarrow> string \<Rightarrow> string \<Rightarrow> int \<Rightarrow> bool \<Rightarrow> nodeRegistry
    \<Rightarrow> nodeRegistry \<times> nat res" where
  "attach rs now seq i sw pv stream r0 =
     (let r = fst (expireLocked now 0 seq r0) in
      case attachLocked now i sw pv r of
        (r1, Inl e) \<Rightarrow> (r1, Inl e)
      | (r1, Inr g) \<Rightarrow>
          (case nodes r1 i of
             None \<Rightarrow> (r1, Inr g)
           | Some st \<Rightarrow>
               (case n_att st of
                  None \<Rightarrow> (r1, Inr g)
                | Some a \<Rightarrow>
                    let won = (n_graceArmed st \<and> \<not> n_graceDone st \<and> now < n_graceDeadline st);
                        a' = a\<lparr>a_stream := stream, a_desired := snapshotFor (rs_confirmed rs) i,
                               a_graceWin := a_graceWin a \<or> won\<rparr>
                    in (upd_node r1 i (st\<lparr>n_att := Some a', n_graceDone := n_graceDone st \<or> won\<rparr>), Inr g))))"

record RoleStatus =
  st_RoleID :: string
  st_Inflight :: int
  st_Concurrency :: int
  st_CanAccept :: bool

record HeartbeatBody =
  hb_RolesRevision :: int
  hb_Roles :: "RoleStatus list"

fun check_statuses :: "RoleStatus list \<Rightarrow> RoleRecord list \<Rightarrow> unit res" where
  "check_statuses (s # ss) (w # ws) =
     (if st_RoleID s \<noteq> r_ID w then errInvalid
      else if st_Concurrency s \<noteq> r_Concurrency w then errInvalid
      else check_statuses ss ws)"
| "check_statuses _ _ = Inr ()"

definition checkHeartbeat :: "roleSnap \<Rightarrow> HeartbeatBody \<Rightarrow> unit res" where
  "checkHeartbeat acked hb =
     (if hb_RolesRevision hb \<noteq> rev acked then errInvalid
      else if length (hb_Roles hb) \<noteq> length (snap_roles acked) then errInvalid
      else check_statuses (hb_Roles hb) (snap_roles acked))"

definition heartbeat :: "instant \<Rightarrow> nat \<Rightarrow> string \<Rightarrow> nat \<Rightarrow> HeartbeatBody \<Rightarrow> nodeRegistry \<Rightarrow> nodeRegistry \<times> unit res" where
  "heartbeat now seq i g hb r0 =
     (let r = fst (expireLocked now g seq r0);
          stale = (r, Inl (Error CodeUnavailable '''')) in
      case nodes r i of
        None \<Rightarrow> stale
      | Some st \<Rightarrow>
          (case n_att st of
             None \<Rightarrow> stale
           | Some a \<Rightarrow>
               if a_gen a \<noteq> g then stale
               else (case checkHeartbeat (a_acked a) hb of
                  Inl e \<Rightarrow> (r, Inl e)
                | Inr _ \<Rightarrow>
                    (upd_node r i (st\<lparr>n_deadline := now + leaseDuration, n_lastSeen := Some now,
                        n_protocolVersion := Some (a_pv a), n_softwareVersion := Some (a_sw a), n_online := True,
                        n_att := Some (a\<lparr>a_heartbeated := True, a_status := Some (map st_CanAccept (hb_Roles hb))\<rparr>)\<rparr>),
                     Inr ()))))"

definition adoptRoles :: "roleState \<Rightarrow> string \<Rightarrow> nodeRegistry \<Rightarrow> nodeRegistry" where
  "adoptRoles nxt node r =
     (if \<not> rs_blocked nxt \<and> node \<noteq> [] then
        (case nodes r node of
           None \<Rightarrow> r
         | Some st \<Rightarrow>
             (case n_att st of
                None \<Rightarrow> r
              | Some a \<Rightarrow> upd_node r node (st\<lparr>n_att := Some (a\<lparr>a_desired := snapshotFor (rs_confirmed nxt) node\<rparr>)\<rparr>)))
      else r)"

definition Detach :: "string \<Rightarrow> nat \<Rightarrow> nodeRegistry \<Rightarrow> nodeRegistry" where
  "Detach i g r =
     (case nodes r i of
        None \<Rightarrow> r
      | Some st \<Rightarrow>
          (case n_att st of None \<Rightarrow> r | Some a \<Rightarrow> if a_gen a = g then upd_node r i (st\<lparr>n_att := None\<rparr>) else r))"

definition Close :: "nodeRegistry \<Rightarrow> nodeRegistry" where
  "Close r = r\<lparr>closed := True, nodes := (\<lambda>i. map_option (\<lambda>st. st\<lparr>n_att := None\<rparr>) (nodes r i))\<rparr>"

subsection \<open>Targets, readiness and candidates\<close>

definition target :: "instant \<Rightarrow> nat \<Rightarrow> string \<Rightarrow> nodeRegistry \<Rightarrow> nodeRegistry \<times> nat res" where
  "target now seq i r0 =
     (let r = fst (expireLocked now 0 seq r0) in
      (r, case nodes r i of
            None \<Rightarrow> Inl (Error CodeNotFound '''')
          | Some st \<Rightarrow>
              if \<not> n_online st then Inl (Error CodeUnavailable ''node_offline'')
              else (case n_att st of
                  None \<Rightarrow> Inl (Error CodeUnavailable ''node_disconnected'')
                | Some a \<Rightarrow> if \<not> a_stream a then Inl (Error CodeUnavailable ''node_disconnected'') else Inr (a_gen a))))"

definition stillTarget :: "instant \<Rightarrow> nat \<Rightarrow> string \<Rightarrow> nat \<Rightarrow> nodeRegistry \<Rightarrow> nodeRegistry \<times> unit res" where
  "stillTarget now seq i g r0 =
     (let r = fst (expireLocked now 0 seq r0) in
      (r, case nodes r i of
            None \<Rightarrow> Inl (Error CodeUnavailable ''node_disconnected'')
          | Some st \<Rightarrow>
              if \<not> n_online st then Inl (Error CodeUnavailable ''node_offline'')
              else (case n_att st of
                  None \<Rightarrow> Inl (Error CodeUnavailable ''node_disconnected'')
                | Some a \<Rightarrow> if a_gen a \<noteq> g then Inl (Error CodeUnavailable ''node_disconnected'') else Inr ())))"

definition known :: "nodeRegistry \<Rightarrow> string \<Rightarrow> bool" where
  "known r i \<longleftrightarrow> nodes r i \<noteq> None"

fun acked_reason :: "bool list option \<Rightarrow> nat \<Rightarrow> RoleRecord list \<Rightarrow> RoleRecord \<Rightarrow> string" where
  "acked_reason status k [] r = ''role_unsynced''"
| "acked_reason status k (ar # ars) r =
     (if r_ID ar = r_ID r then
        (if RegistrationOrder ar \<noteq> RegistrationOrder r \<or> \<not> SameRoleConfig (r_Config ar) (r_Config r) then ''role_unsynced''
         else (case status of
             None \<Rightarrow> ''worker_unready''
           | Some bs \<Rightarrow> if k \<ge> length bs \<or> \<not> bs ! k then ''worker_unready'' else ''available''))
      else acked_reason status (Suc k) ars r)"

definition readinessLocked :: "nodeRegistry \<Rightarrow> roleState \<Rightarrow> RoleRecord \<Rightarrow> string" where
  "readinessLocked nr rs r =
     (if rs_blocked rs then ''storage_unconfirmed''
      else if fenced (rs_visible rs) r then ''role_removing''
      else case nodes nr (r_Node r) of
        None \<Rightarrow> ''node_offline''
      | Some st \<Rightarrow>
          if \<not> n_online st then ''node_offline''
          else (case n_att st of
              None \<Rightarrow> ''node_detached''
            | Some a \<Rightarrow>
                if rev (a_acked a) \<noteq> rev (a_desired a) \<or> \<not> a_reconciled a then ''role_unsynced''
                else if a_unknown a then ''worker_unready''
                else acked_reason (a_status a) 0 (snap_roles (a_acked a)) r))"

definition canAcceptLocked :: "nodeRegistry \<Rightarrow> roleState \<Rightarrow> RoleRecord \<Rightarrow> bool" where
  "canAcceptLocked nr rs r \<longleftrightarrow> readinessLocked nr rs r = ''available''"

definition online_at :: "nodeRegistry \<Rightarrow> string \<Rightarrow> bool" where
  "online_at nr i = (case nodes nr i of None \<Rightarrow> False | Some st \<Rightarrow> n_online st)"

definition current_gen :: "nodeRegistry \<Rightarrow> string \<Rightarrow> nat option" where
  "current_gen nr i = (case nodes nr i of None \<Rightarrow> None | Some st \<Rightarrow> map_option a_gen (n_att st))"

definition candidateLocked :: "nodeRegistry \<Rightarrow> roleState \<Rightarrow> RoleRecord \<Rightarrow> int \<times> int \<Rightarrow> bool
    \<Rightarrow> TaskCandidate \<times> nat option" where
  "candidateLocked nr rs r held storageBlocked =
     (let rdy = readinessLocked nr rs r;
          reason = (if storageBlocked then ''storage_unconfirmed''
                    else if rdy = ''available'' \<and> fst held \<ge> r_Concurrency r then ''full'' else rdy);
          ok = (reason = ''available'')
      in (\<lparr>tc_RoleID = r_ID r, tc_NodeID = r_Node r, tc_RegistrationOrder = RegistrationOrder r,
           tc_NodeLiveness = (if online_at nr (r_Node r) then ''online'' else ''offline''),
           tc_Inflight = fst held, tc_ReconcilingInflight = snd held, tc_Concurrency = r_Concurrency r,
           tc_CanAccept = ok, tc_Reason = reason\<rparr>,
          if ok then current_gen nr (r_Node r) else None))"

definition currentAttachment :: "instant \<Rightarrow> nat \<Rightarrow> string \<Rightarrow> nat \<Rightarrow> nodeRegistry \<Rightarrow> nodeRegistry \<times> bool" where
  "currentAttachment now seq i g r0 =
     (let r = fst (expireLocked now 0 seq r0) in
      (r, case nodes r i of
            None \<Rightarrow> False
          | Some st \<Rightarrow> (case n_att st of None \<Rightarrow> False | Some a \<Rightarrow> a_gen a = g \<and> a_stream a)))"

text \<open>\<open>enqueueStart\<close>'s routing: whether the attachment's stream is reached at all.\<close>

definition startRoutable :: "nodeRegistry \<Rightarrow> string \<Rightarrow> nat \<Rightarrow> bool" where
  "startRoutable r i g =
     (case nodes r i of
        None \<Rightarrow> False
      | Some st \<Rightarrow> (case n_att st of None \<Rightarrow> False | Some a \<Rightarrow> a_gen a = g \<and> a_stream a))"

definition roleStatusesLocked :: "nodeRegistry \<Rightarrow> roleState \<Rightarrow> (instanceKey \<Rightarrow> int) \<Rightarrow> string \<Rightarrow> RoleStatus list" where
  "roleStatusesLocked nr rs held i =
     map (\<lambda>r. let k = held (keyOf r) in
           \<lparr>st_RoleID = r_ID r, st_Inflight = min k MaxConcurrency, st_Concurrency = r_Concurrency r,
            st_CanAccept = (canAcceptLocked nr rs r \<and> k < r_Concurrency r)\<rparr>)
       (forNode (rs_visible rs) i)"

record RoleView =
  v_Record :: RoleRecord
  v_Inflight :: int
  v_CanAccept :: bool
  v_NodeLiveness :: string
  v_AdapterTestOnly :: bool
  v_Removing :: bool
  v_Removal :: "(string \<times> int) option"

definition roleView :: "nodeRegistry \<Rightarrow> roleState \<Rightarrow> (instanceKey \<Rightarrow> int) \<Rightarrow> AdapterLookup \<Rightarrow> RoleRecord \<Rightarrow> RoleView" where
  "roleView nr rs held lookup r =
     (let k = held (keyOf r); f = fenceOf (rs_visible rs) (r_ID r) (RegistrationOrder r) in
      \<lparr>v_Record = r, v_Inflight = k, v_CanAccept = (canAcceptLocked nr rs r \<and> k < r_Concurrency r),
       v_NodeLiveness = (if online_at nr (r_Node r) then ''online'' else ''offline''),
       v_AdapterTestOnly = (case lookup (c_Adapter (r_Config r)) of None \<Rightarrow> False | Some info \<Rightarrow> TestOnly info),
       v_Removing = (f \<noteq> None),
       v_Removal = map_option (\<lambda>x. (rm_OperationID x, rm_RegistrationOrder x)) f\<rparr>)"

definition roleViews :: "instant \<Rightarrow> nat \<Rightarrow> roleState \<Rightarrow> (instanceKey \<Rightarrow> int) \<Rightarrow> AdapterLookup
    \<Rightarrow> (roleState \<Rightarrow> RoleRecord list) \<Rightarrow> nodeRegistry \<Rightarrow> nodeRegistry \<times> RoleView list" where
  "roleViews now seq rs held lookup sel r0 =
     (let r = fst (expireLocked now 0 seq r0) in (r, map (roleView r rs held lookup) (sel rs)))"

record Node =
  nd_ID :: string
  nd_Liveness :: string
  nd_LastSeen :: "instant option"
  nd_ProtocolVersion :: "int option"
  nd_SoftwareVersion :: "string option"
  nd_Roles :: "RoleStatus list"

definition node_snapshot :: "string \<Rightarrow> nodeState \<Rightarrow> RoleStatus list \<Rightarrow> Node" where
  "node_snapshot i st roles =
     \<lparr>nd_ID = i, nd_Liveness = (if n_online st then ''online'' else ''offline''), nd_LastSeen = n_lastSeen st,
      nd_ProtocolVersion = n_protocolVersion st, nd_SoftwareVersion = n_softwareVersion st, nd_Roles = roles\<rparr>"

definition Show :: "instant \<Rightarrow> nat \<Rightarrow> roleState \<Rightarrow> (instanceKey \<Rightarrow> int) \<Rightarrow> string \<Rightarrow> nodeRegistry
    \<Rightarrow> nodeRegistry \<times> Node res" where
  "Show now seq rs held i r0 =
     (let r = fst (expireLocked now 0 seq r0) in
      (r, case nodes r i of
            None \<Rightarrow> Inl (Error CodeNotFound '''')
          | Some st \<Rightarrow> Inr (node_snapshot i st (roleStatusesLocked r rs held i))))"

subsection \<open>What expiry does to each node\<close>

definition node_facts :: "instant \<Rightarrow> nat \<Rightarrow> nat \<Rightarrow> nodeRegistry \<Rightarrow> string \<Rightarrow> lossFact list" where
  "node_facts now keep seq r i =
     (case nodes r i of None \<Rightarrow> [] | Some st \<Rightarrow> fst (snd (expire_node now keep seq i st)))"

lemma upd_node_sel [simp]:
  "nodes (upd_node r i st) j = (if j = i then Some st else nodes r j)" "node_ids (upd_node r i st) = node_ids r"
  "gen_counter (upd_node r i st) = gen_counter r" "closed (upd_node r i st) = closed r" "losses (upd_node r i st) = losses r"
  by (simp_all add: upd_node_def)

lemma expire_ids_spec:
  assumes "distinct ids"
  shows "nodes (fst (expire_ids now keep seq ids r)) i
      = (if i \<in> set ids then map_option (\<lambda>st. fst (expire_node now keep seq i st)) (nodes r i) else nodes r i)
    \<and> losses (fst (expire_ids now keep seq ids r)) = losses r @ concat (map (node_facts now keep seq r) ids)
    \<and> node_ids (fst (expire_ids now keep seq ids r)) = node_ids r
    \<and> gen_counter (fst (expire_ids now keep seq ids r)) = gen_counter r
    \<and> closed (fst (expire_ids now keep seq ids r)) = closed r"
  using assms
proof (induction now keep seq ids r rule: expire_ids.induct)
  case (2 now keep seq j js r)
  show ?case
  proof (cases "nodes r j")
    case None
    with 2 show ?thesis by (auto simp: node_facts_def)
  next
    case (Some st)
    obtain st' fs c where e: "expire_node now keep seq j st = (st', fs, c)" by (metis prod_cases3)
    let ?r = "(upd_node r j st')\<lparr>losses := losses r @ fs\<rparr>"
    have "map (node_facts now keep seq ?r) js = map (node_facts now keep seq r) js"
      using 2(3) by (auto simp: node_facts_def)
    then have "concat (map (node_facts now keep seq ?r) js) = concat (map (node_facts now keep seq r) js)" by (rule arg_cong)
    moreover have "node_facts now keep seq r j = fs" by (simp add: node_facts_def Some e)
    ultimately show ?thesis
      using 2(2) [OF Some e [symmetric] refl refl] 2(3) by (auto simp: Some e split_def Let_def)
  qed
qed simp

definition ids_ok :: "nodeRegistry \<Rightarrow> bool" where
  "ids_ok r \<longleftrightarrow> distinct (node_ids r) \<and> set (node_ids r) = dom (nodes r)"

lemma expireLocked_spec:
  assumes "ids_ok r"
  shows "nodes (fst (expireLocked now keep seq r)) i = map_option (\<lambda>st. fst (expire_node now keep seq i st)) (nodes r i)"
    and "losses (fst (expireLocked now keep seq r)) = losses r @ concat (map (node_facts now keep seq r) (node_ids r))"
    and "node_ids (fst (expireLocked now keep seq r)) = node_ids r"
    and "gen_counter (fst (expireLocked now keep seq r)) = gen_counter r"
    and "closed (fst (expireLocked now keep seq r)) = closed r"
  using expire_ids_spec [of "node_ids r" now keep seq r i] assms unfolding expireLocked_def ids_ok_def by (auto split: if_splits)

lemma expire_node_fields:
  "n_deadline (fst (expire_node now keep seq i st)) = n_deadline st"
  "n_online (fst (expire_node now keep seq i st)) = (n_online st \<and> now < n_deadline st)"
  "n_att (fst (expire_node now keep seq i st)) = (case n_att st of None \<Rightarrow> None | Some a \<Rightarrow>
      if (\<not> a_heartbeated a \<and> \<not> now < a_firstDeadline a \<and> a_gen a \<noteq> keep) \<or> (a_heartbeated a \<and> \<not> now < n_deadline st)
      then None else Some a)"
  "n_graceArmed (fst (expire_node now keep seq i st)) = n_graceArmed st"
  "n_graceDeadline (fst (expire_node now keep seq i st)) = n_graceDeadline st"
  "n_graceDone (fst (expire_node now keep seq i st))
     = (n_graceDone st \<or> (n_graceArmed st \<and> \<not> now < n_graceDeadline st))"
  by (auto simp: expire_node_def expire_lease_def expire_grace_def expire_att_def Let_def split: option.splits)

subsection \<open>The invariant\<close>

text \<open>
  An attachment's generation was drawn from the counter, a generation belongs to one node at
  most, and an attachment that has heartbeated belongs to a node that is online.
\<close>

definition att_ok :: "nat \<Rightarrow> nodeState \<Rightarrow> bool" where
  "att_ok c st \<longleftrightarrow> (\<forall>a. n_att st = Some a \<longrightarrow> 1 \<le> a_gen a \<and> a_gen a \<le> c \<and> (a_heartbeated a \<longrightarrow> n_online st))"

definition node_inv :: "nodeRegistry \<Rightarrow> bool" where
  "node_inv r \<longleftrightarrow> ids_ok r \<and> (\<forall>i st. nodes r i = Some st \<longrightarrow> att_ok (gen_counter r) st)
     \<and> (\<forall>i j g. current_gen r i = Some g \<longrightarrow> current_gen r j = Some g \<longrightarrow> i = j)"

definition att_keys :: "nodeRegistry \<Rightarrow> (string \<times> nat) set" where
  "att_keys r = {(i, g). current_gen r i = Some g}"

text \<open>What every operation but an attachment does: no node acquires a generation.\<close>

definition evolves :: "nodeRegistry \<Rightarrow> nodeRegistry \<Rightarrow> bool" where
  "evolves r r' \<longleftrightarrow> gen_counter r' = gen_counter r \<and> ids_ok r'
     \<and> (\<forall>i st. nodes r' i = Some st \<longrightarrow> att_ok (gen_counter r) st)
     \<and> (\<forall>i g. current_gen r' i = Some g \<longrightarrow> current_gen r i = Some g)"

lemma evolves_inv: "node_inv r \<Longrightarrow> evolves r r' \<Longrightarrow> node_inv r'"
  unfolding node_inv_def evolves_def by auto

lemma evolves_refl: "node_inv r \<Longrightarrow> evolves r r"
  by (auto simp: evolves_def node_inv_def)

lemma evolves_trans: "evolves r r1 \<Longrightarrow> evolves r1 r2 \<Longrightarrow> evolves r r2"
  by (auto simp: evolves_def)

lemma evolves_upd:
  assumes "node_inv r" "nodes r i = Some st" "att_ok (gen_counter r) st'"
    and "n_att st' = None \<or> map_option a_gen (n_att st') = map_option a_gen (n_att st)"
  shows "evolves r (upd_node r i st')"
proof -
  have "dom (nodes (upd_node r i st')) = dom (nodes r)" using assms(2) by (auto simp: dom_def)
  then have "ids_ok (upd_node r i st')" using assms(1) by (simp add: node_inv_def ids_ok_def)
  moreover have "current_gen r j = Some g" if "current_gen (upd_node r i st') j = Some g" for j g
    using that assms(2,4) by (cases "j = i"; cases "n_att st") (auto simp: current_gen_def)
  ultimately show ?thesis using assms(1,3) by (auto simp: evolves_def node_inv_def)
qed

lemma evolves_expire: "node_inv r \<Longrightarrow> evolves r (fst (expireLocked now keep seq r))"
proof -
  assume inv: "node_inv r"
  then have ids: "ids_ok r" by (simp add: node_inv_def)
  note E = expireLocked_spec [OF ids, of now keep seq]
  have "ids_ok (fst (expireLocked now keep seq r))"
    using ids E(1,3) by (auto simp: ids_ok_def dom_def)
  moreover have "att_ok (gen_counter r) (fst (expire_node now keep seq i st))" if "nodes r i = Some st" for i st
    using inv that by (auto simp: node_inv_def att_ok_def expire_node_fields split: option.splits if_splits)
  moreover have "current_gen r i = Some g" if "current_gen (fst (expireLocked now keep seq r)) i = Some g" for i g
    using that by (auto simp: current_gen_def E(1) expire_node_fields split: option.splits if_splits)
  ultimately show ?thesis using E(1,4) by (auto simp: evolves_def)
qed

subsection \<open>Steps\<close>

inductive node_step :: "nodeRegistry \<Rightarrow> nodeRegistry \<Rightarrow> bool" where
  expired: "node_step r (fst (expireLocked now keep seq r))"
| enrolled: "node_step r (fst (Enroll canceled readOk dirOk disk now seq i r))"
| armed: "node_step r (armGrace now ns r)"
| unknown: "node_step r (markUnknown i g r)"
| reconciled: "node_step r (markReconciled i g r)"
| acked: "node_step r (ackSnapshot i g snap r)"
| attached: "node_step r (fst (attach rs now seq i sw pv stream r))"
| beat: "node_step r (fst (heartbeat now seq i g hb r))"
| adopted: "node_step r (adoptRoles rs i r)"
| detached: "node_step r (Detach i g r)"
| shut: "node_step r (Close r)"

lemma with_att_evolves:
  assumes "node_inv r" "\<And>a. a_gen (f a) = a_gen a" "\<And>a. a_heartbeated (f a) = a_heartbeated a"
  shows "evolves r (with_att r i g f)"
proof (cases "\<exists>st a. nodes r i = Some st \<and> n_att st = Some a \<and> a_gen a = g")
  case True
  then obtain st a where sa: "nodes r i = Some st" "n_att st = Some a" "a_gen a = g" by auto
  have "att_ok (gen_counter r) st" using assms(1) sa(1) by (simp add: node_inv_def)
  then show ?thesis using sa assms
    by (auto simp: with_att_def att_ok_def intro!: evolves_upd)
next
  case False
  then have "with_att r i g f = r" by (auto simp: with_att_def split: option.splits)
  then show ?thesis using evolves_refl [OF assms(1)] by simp
qed

lemma armGrace_evolves: "node_inv r \<Longrightarrow> evolves r (armGrace now ns r)"
  unfolding armGrace_def
proof (induction ns arbitrary: r)
  case (Cons i ns)
  let ?att = "case nodes r i of None \<Rightarrow> r
     | Some st \<Rightarrow> upd_node r i (st\<lparr>n_graceArmed := True, n_graceDone := False, n_graceDeadline := now + startupGrace\<rparr>)"
  have 1: "evolves r ?att"
    using Cons.prems evolves_refl [OF Cons.prems]
    by (auto simp: node_inv_def att_ok_def split: option.splits intro!: evolves_upd)
  show ?case using evolves_trans [OF 1 Cons.IH [OF evolves_inv [OF Cons.prems 1]]] by simp
qed (simp add: evolves_refl)

lemma Detach_evolves: "node_inv r \<Longrightarrow> evolves r (Detach i g r)"
  by (auto simp: Detach_def att_ok_def evolves_refl split: option.splits intro!: evolves_upd)

lemma adoptRoles_evolves: "node_inv r \<Longrightarrow> evolves r (adoptRoles rs i r)"
  by (auto simp: adoptRoles_def att_ok_def node_inv_def evolves_refl split: option.splits intro!: evolves_upd)

lemma Close_evolves: "node_inv r \<Longrightarrow> evolves r (Close r)"
  by (auto simp: Close_def evolves_def node_inv_def ids_ok_def att_ok_def current_gen_def dom_def split: option.splits)

lemma heartbeat_evolves: "node_inv r \<Longrightarrow> evolves r (fst (heartbeat now seq i g hb r))"
proof -
  assume inv: "node_inv r"
  let ?r = "fst (expireLocked now g seq r)"
  note E = evolves_expire [OF inv, of now g seq]
  note I = evolves_inv [OF inv E]
  have ok: "att_ok (gen_counter ?r) st" if "nodes ?r i = Some st" for st using I that by (simp add: node_inv_def)
  have "evolves ?r (fst (heartbeat now seq i g hb r))"
    unfolding heartbeat_def Let_def using I ok
    by (auto simp: evolves_refl split: option.splits sum.splits intro!: evolves_upd) (auto simp: att_ok_def)
  then show ?thesis using E by (rule evolves_trans [rotated])
qed

lemma evolves_enroll_new:
  assumes "node_inv r" "nodes r i = None"
  shows "evolves r ((upd_node r i (newNodeState now sy))\<lparr>node_ids := node_ids r @ [i]\<rparr>)"
  using assms by (auto simp: evolves_def node_inv_def ids_ok_def att_ok_def newNodeState_def current_gen_def
      split: option.splits if_splits)

lemma Enroll_evolves: "node_inv r \<Longrightarrow> evolves r (fst (Enroll canceled readOk dirOk disk now seq i r))"
proof -
  assume inv: "node_inv r"
  have x: "evolves r (Expire now seq r1)" if "evolves r r1" for r1
    unfolding Expire_def using evolves_trans [OF that evolves_expire [OF evolves_inv [OF inv that]]] .
  have sy: "evolves r (upd_node r i (st\<lparr>n_synced := True\<rparr>))" if "nodes r i = Some st" for st
    using inv that by (intro evolves_upd) (auto simp: node_inv_def att_ok_def)
  show ?thesis unfolding Enroll_def Let_def
    using inv x sy evolves_enroll_new [OF inv] evolves_refl [OF inv]
    by (auto split: option.splits sum.splits disk_outcome.splits)
qed

text \<open>An attachment draws the next generation; nothing else changes any node's generation.\<close>

lemma attach_spec:
  assumes inv: "node_inv r"
  shows "node_inv (fst (attach rs now seq i sw pv stream r))
    \<and> gen_counter r \<le> gen_counter (fst (attach rs now seq i sw pv stream r))
    \<and> (\<forall>j g. current_gen (fst (attach rs now seq i sw pv stream r)) j = Some g \<longrightarrow>
         current_gen r j = Some g \<or> gen_counter r < g)"
proof -
  let ?r = "fst (expireLocked now 0 seq r)"
  note E = evolves_expire [OF inv, of now 0 seq]
  note I = evolves_inv [OF inv E]
  show ?thesis
  proof (cases "\<exists>st. nodes ?r i = Some st \<and> n_att st = None \<and> \<not> closed ?r")
    case False
    then have "fst (attach rs now seq i sw pv stream r) = ?r"
      by (auto simp: attach_def attachLocked_def Let_def split: option.splits)
    then show ?thesis using I E by (auto simp: evolves_def)
  next
    case True
    then obtain st where st: "nodes ?r i = Some st" "n_att st = None" "\<not> closed ?r" by auto
    define r' where "r' = fst (attach rs now seq i sw pv stream r)"
    obtain st' a where r': "nodes r' i = Some st'" "n_att st' = Some a" "a_gen a = gen_counter ?r + 1" "\<not> a_heartbeated a"
      "\<And>j. j \<noteq> i \<Longrightarrow> nodes r' j = nodes ?r j" "gen_counter r' = gen_counter ?r + 1" "node_ids r' = node_ids ?r"
      unfolding r'_def attach_def attachLocked_def Let_def using st by auto
    have cg: "current_gen r' j = (if j = i then Some (gen_counter ?r + 1) else current_gen ?r j)" for j
      using r' by (auto simp: current_gen_def)
    have bound: "g \<le> gen_counter ?r" if "current_gen ?r j = Some g" for j g
      using that I by (auto simp: current_gen_def node_inv_def att_ok_def split: option.splits)
    have dom: "dom (nodes r') = dom (nodes ?r)"
    proof (rule set_eqI)
      fix j show "j \<in> dom (nodes r') \<longleftrightarrow> j \<in> dom (nodes ?r)" using r'(1,5) st(1) by (cases "j = i") auto
    qed
    have "att_ok (gen_counter r') s" if "nodes r' j = Some s" for j s
      using that I r' by (cases "j = i") (auto simp: node_inv_def att_ok_def le_SucI)
    then have "node_inv r'"
      using I r'(7) dom cg bound unfolding node_inv_def ids_ok_def by (auto split: if_splits) (metis not_less_eq_eq Suc_n_not_le_n)+
    moreover have "gen_counter ?r = gen_counter r" using E by (simp add: evolves_def)
    ultimately show ?thesis unfolding r'_def [symmetric] using r'(6) cg E
      by (auto simp: evolves_def split: if_splits)
  qed
qed

lemma node_step_spec:
  "node_step r r' \<Longrightarrow> node_inv r \<Longrightarrow> node_inv r' \<and> gen_counter r \<le> gen_counter r'
     \<and> (\<forall>j g. current_gen r' j = Some g \<longrightarrow> current_gen r j = Some g \<or> gen_counter r < g)"
proof (induction rule: node_step.induct)
  case (attached r rs now seq i sw pv stream)
  then show ?case by (rule attach_spec)
next
  case (expired r now keep seq)
  then show ?case using evolves_expire [of r now keep seq] evolves_inv by (auto simp: evolves_def)
next
  case (enrolled r canceled readOk dirOk disk now seq i)
  then show ?case using Enroll_evolves [of r canceled readOk dirOk disk now seq i] evolves_inv by (auto simp: evolves_def)
next
  case (armed r now ns)
  then show ?case using armGrace_evolves [of r now ns] evolves_inv by (auto simp: evolves_def)
next
  case (unknown r i g)
  then show ?case using with_att_evolves [of r "\<lambda>a. a\<lparr>a_unknown := True\<rparr>" i g] evolves_inv
    by (auto simp: evolves_def markUnknown_def)
next
  case (reconciled r i g)
  then show ?case using with_att_evolves [of r "\<lambda>a. a\<lparr>a_reconciled := True\<rparr>" i g] evolves_inv
    by (auto simp: evolves_def markReconciled_def)
next
  case (acked r i g snap)
  then show ?case using with_att_evolves [of r "\<lambda>a. a\<lparr>a_acked := snap, a_status := None\<rparr>" i g] evolves_inv
    by (auto simp: evolves_def ackSnapshot_def)
next
  case (beat r now seq i g hb)
  then show ?case using heartbeat_evolves [of r now seq i g hb] evolves_inv by (auto simp: evolves_def)
next
  case (adopted r rs i)
  then show ?case using adoptRoles_evolves [of r rs i] evolves_inv by (auto simp: evolves_def)
next
  case (detached r i g)
  then show ?case using Detach_evolves [of r i g] evolves_inv by (auto simp: evolves_def)
next
  case (shut r)
  then show ?case using Close_evolves [of r] evolves_inv by (auto simp: evolves_def)
qed

text \<open>Attachments are instances too: a generation that ended never returns.\<close>

interpretation atts: instance_store node_inv att_keys "\<lambda>r. gen_counter r + 1" snd node_step
proof unfold_locales
  fix d k assume "node_inv d" "k \<in> att_keys d"
  then show "snd k < gen_counter d + 1"
    by (auto simp: att_keys_def current_gen_def node_inv_def att_ok_def less_Suc_eq_le split: option.splits)
qed (use node_step_spec in \<open>fastforce simp: att_keys_def Suc_le_eq\<close>)+

lemma node_inv_load: "distinct (map fst recs) \<Longrightarrow> node_inv (loadNodeRegistry recs)"
proof -
  assume d: "distinct (map fst recs)"
  have att: "n_att st = None" if "map_of (map (\<lambda>(i, at). (i, newNodeState at True)) recs) i = Some st" for i st
    using map_of_SomeD [OF that] by (auto simp: newNodeState_def)
  have "dom (map_of (map (\<lambda>(i, at). (i, newNodeState at True)) recs)) = set (map fst recs)"
    by (force simp: dom_map_of_conv_image_fst image_iff)
  then have "ids_ok (loadNodeRegistry recs)"
    using d by (simp add: loadNodeRegistry_def ids_ok_def)
  then show ?thesis using att
    by (auto simp: node_inv_def loadNodeRegistry_def att_ok_def current_gen_def split: option.splits)
qed

lemma heartbeat_needs_current:
  assumes "node_inv r" "(i, g) \<notin> att_keys r"
  shows "snd (heartbeat now seq i g hb r) = Inl (Error CodeUnavailable '''')
     \<and> fst (heartbeat now seq i g hb r) = fst (expireLocked now g seq r)"
proof -
  have "current_gen (fst (expireLocked now g seq r)) i \<noteq> Some g"
    using evolves_expire [OF assms(1), of now g seq] assms(2) by (auto simp: evolves_def att_keys_def)
  then show ?thesis
    by (auto simp: heartbeat_def Let_def current_gen_def split: option.splits)
qed

subsection \<open>Readiness\<close>

definition acks :: "bool list option \<Rightarrow> nat \<Rightarrow> RoleRecord list \<Rightarrow> RoleRecord \<Rightarrow> nat \<Rightarrow> bool" where
  "acks status k ars r j \<longleftrightarrow> j < length ars \<and> r_ID (ars ! j) = r_ID r \<and> RegistrationOrder (ars ! j) = RegistrationOrder r
     \<and> SameRoleConfig (r_Config (ars ! j)) (r_Config r) \<and> (\<exists>bs. status = Some bs \<and> k + j < length bs \<and> bs ! (k + j))"

lemma acks_Cons: "acks status k (ar # ars) r (Suc j) \<longleftrightarrow> acks status (Suc k) ars r j"
  by (simp add: acks_def)

lemma acked_reason_imp: "acked_reason status k ars r = ''available'' \<Longrightarrow> \<exists>j. acks status k ars r j"
proof (induction status k ars r rule: acked_reason.induct)
  case (2 status k ar ars r)
  show ?case
  proof (cases "r_ID ar = r_ID r")
    case True
    with 2 have "acks status k (ar # ars) r 0" by (auto simp: acks_def split: if_splits option.splits)
    then show ?thesis ..
  next
    case False
    with 2 show ?thesis using acks_Cons by fastforce
  qed
qed simp

lemma acked_reason_if:
  "acks status k ars r j \<Longrightarrow> distinct (map r_ID ars) \<Longrightarrow> acked_reason status k ars r = ''available''"
proof (induction status k ars r arbitrary: j rule: acked_reason.induct)
  case (2 status k ar ars r)
  show ?case
  proof (cases j)
    case 0
    with 2 show ?thesis by (auto simp: acks_def)
  next
    case (Suc j')
    with 2 have a: "acks status (Suc k) ars r j'" by (simp add: acks_Cons)
    then have "r_ID r \<in> r_ID ` set ars" unfolding acks_def by (metis image_eqI nth_mem)
    with 2 have "r_ID ar \<noteq> r_ID r" by auto
    with 2 a show ?thesis by auto
  qed
qed (simp add: acks_def)

lemma readiness_available_iff:
  assumes "\<And>st a. nodes nr (r_Node r) = Some st \<Longrightarrow> n_att st = Some a \<Longrightarrow> distinct (map r_ID (snap_roles (a_acked a)))"
  shows "readinessLocked nr rs r = ''available'' \<longleftrightarrow>
     \<not> rs_blocked rs \<and> \<not> fenced (rs_visible rs) r
     \<and> (\<exists>st a. nodes nr (r_Node r) = Some st \<and> n_online st \<and> n_att st = Some a
          \<and> rev (a_acked a) = rev (a_desired a) \<and> a_reconciled a \<and> \<not> a_unknown a
          \<and> (\<exists>j. acks (a_status a) 0 (snap_roles (a_acked a)) r j))"
proof (cases "\<exists>st a. nodes nr (r_Node r) = Some st \<and> n_att st = Some a")
  case True
  then obtain st a where sa: "nodes nr (r_Node r) = Some st" "n_att st = Some a" by blast
  have "acked_reason (a_status a) 0 (snap_roles (a_acked a)) r = ''available''
      \<longleftrightarrow> (\<exists>j. acks (a_status a) 0 (snap_roles (a_acked a)) r j)"
    using acked_reason_imp acked_reason_if [OF _ assms [OF sa]] by blast
  with sa show ?thesis by (auto simp: readinessLocked_def)
next
  case False
  then show ?thesis by (auto simp: readinessLocked_def split: option.splits)
qed

subsection \<open>Loss facts\<close>

lemma expire_node_facts_node: "f \<in> set (fst (snd (expire_node now keep seq i st))) \<Longrightarrow> lf_node f = i"
  by (auto simp: expire_node_def expire_lease_def expire_grace_def expire_att_def Let_def split: option.splits if_splits)

lemma filter_concat_own:
  assumes "distinct is" "i \<in> set is" "\<And>j f. f \<in> set (F j) \<Longrightarrow> owner f = j"
  shows "filter (\<lambda>f. owner f = i) (concat (map F is)) = F i"
  using assms(1,2)
proof (induction "is")
  case (Cons j js)
  have own: "filter (\<lambda>f. owner f = i) (F k) = (if k = i then F k else [])" for k
    using assms(3) [of _ k] by (auto simp: filter_empty_conv intro: filter_True)
  have rest: "filter (\<lambda>f. owner f = i) (concat (map F js)) = []" if "i \<notin> set js"
    using that assms(3) by (fastforce simp: filter_empty_conv)
  show ?case using Cons own rest by (cases "j = i") auto
qed simp

definition new_facts :: "nodeRegistry \<Rightarrow> nodeRegistry \<Rightarrow> string \<Rightarrow> lossFact list" where
  "new_facts r r' i = filter (\<lambda>f. lf_node f = i) (drop (length (losses r)) (losses r'))"

lemma new_facts_expire:
  assumes "node_inv r" "nodes r i = Some st"
  shows "new_facts r (fst (expireLocked now keep seq r)) i = fst (snd (expire_node now keep seq i st))"
proof -
  have ids: "ids_ok r" using assms(1) by (simp add: node_inv_def)
  then have "distinct (node_ids r)" "i \<in> set (node_ids r)" using assms(2) by (auto simp: ids_ok_def)
  then have "filter (\<lambda>f. lf_node f = i) (concat (map (node_facts now keep seq r) (node_ids r))) = node_facts now keep seq r i"
    by (rule filter_concat_own) (auto simp: node_facts_def dest: expire_node_facts_node split: option.splits)
  then show ?thesis unfolding new_facts_def expireLocked_spec(2) [OF ids] by (simp add: node_facts_def assms(2))
qed

definition is_lease_fact :: "lossFact \<Rightarrow> bool" where
  "is_lease_fact f \<longleftrightarrow> lf_reason f = ''lease_expired''"

lemma expire_node_lease_facts:
  "filter is_lease_fact (fst (snd (expire_node now keep seq i st))) =
     (if n_online st \<and> \<not> now < n_deadline st
      then [\<lparr>lf_node = i, lf_reason = ''lease_expired'', lf_loadedOnly = False, lf_maxSeq = seq\<rparr>] else [])"
  by (auto simp: expire_node_def expire_lease_def expire_grace_def expire_att_def is_lease_fact_def Let_def split: option.splits)

subsection \<open>Properties\<close>

text \<open>
  C34. Once the attachment of generation \<open>g\<close> on a node has ended (replaced, evicted, detached
  or closed), no later heartbeat of that generation is ever accepted, whatever happens in
  between: it is answered unavailable and changes nothing beyond the expiry of that instant. An
  expired lease generation is never revived.
\<close>

theorem expired_generation_never_revived:
  assumes "distinct (map fst recs)" "node_step\<^sup>*\<^sup>* (loadNodeRegistry recs) r"
    and "current_gen r i = Some g" "node_step\<^sup>*\<^sup>* r r'" "current_gen r' i \<noteq> Some g" "node_step\<^sup>*\<^sup>* r' r''"
  shows "heartbeat now seq i g hb r'' = (fst (expireLocked now g seq r''), Inl (Error CodeUnavailable ''''))"
proof -
  have inv: "node_inv r" using atts.steps_inv [OF assms(2) node_inv_load [OF assms(1)]] by simp
  have inv'': "node_inv r''" using atts.steps_inv [OF assms(4) inv] atts.steps_inv [OF assms(6)] by blast
  have "(i, g) \<notin> att_keys r''"
    using atts.gone_forever [OF inv _ assms(4) _ assms(6), of "(i, g)"] assms(3,5) by (simp add: att_keys_def)
  from heartbeat_needs_current [OF inv'' this, of now seq hb] show ?thesis by (simp add: prod_eq_iff)
qed

theorem expired_generation_never_revived_witness:
  "heartbeat 20 0 ''n1'' 1 \<lparr>hb_RolesRevision = 0, hb_Roles = []\<rparr>
     (Detach ''n1'' 1 (fst (attach (newRoleRegistry emptyRoleDoc) 10 0 ''n1'' ''v1'' 7 True (loadNodeRegistry [(''n1'', 1)]))))
   = (fst (expireLocked 20 1 0 (Detach ''n1'' 1 (fst (attach (newRoleRegistry emptyRoleDoc) 10 0 ''n1'' ''v1'' 7 True
        (loadNodeRegistry [(''n1'', 1)]))))), Inl (Error CodeUnavailable ''''))"
proof -
  let ?ini = "loadNodeRegistry [(''n1'', 1)]"
  let ?r = "fst (attach (newRoleRegistry emptyRoleDoc) 10 0 ''n1'' ''v1'' 7 True ?ini)"
  have s1: "node_step\<^sup>*\<^sup>* ?ini ?r" by (rule r_into_rtranclp, rule node_step.attached)
  have s2: "node_step\<^sup>*\<^sup>* ?r (Detach ''n1'' 1 ?r)" by (rule r_into_rtranclp, rule node_step.detached)
  have g: "current_gen ?r ''n1'' = Some 1" "current_gen (Detach ''n1'' 1 ?r) ''n1'' \<noteq> Some 1" by code_simp+
  show ?thesis
    by (rule expired_generation_never_revived [OF _ s1 g(1) s2 g(2)]) simp_all
qed

text \<open>
  C35. Lease expiry is exact: sampled at any instant, a node stays online exactly when it was
  online and the instant is before its deadline; each lease that ends yields exactly one
  \<open>lease_expired\<close> fact, carrying the admission counter of that instant, and sweeping again, at
  any later instant, yields no second one.
\<close>

theorem lease_expiry_exact:
  assumes "node_inv r" and "nodes r i = Some st"
  shows "online_at (fst (expireLocked now keep seq r)) i = (n_online st \<and> now < n_deadline st)
    \<and> filter is_lease_fact (new_facts r (fst (expireLocked now keep seq r)) i)
        = (if n_online st \<and> \<not> now < n_deadline st
           then [\<lparr>lf_node = i, lf_reason = ''lease_expired'', lf_loadedOnly = False, lf_maxSeq = seq\<rparr>] else [])
    \<and> (n_online st \<and> \<not> now < n_deadline st \<longrightarrow>
         filter is_lease_fact (new_facts (fst (expireLocked now keep seq r))
           (fst (expireLocked now' keep' seq' (fst (expireLocked now keep seq r)))) i) = [])"
proof -
  have ids: "ids_ok r" using assms(1) by (simp add: node_inv_def)
  let ?r = "fst (expireLocked now keep seq r)"
  have st': "nodes ?r i = Some (fst (expire_node now keep seq i st))"
    using expireLocked_spec(1) [OF ids] assms(2) by simp
  have inv': "node_inv ?r" by (rule evolves_inv [OF assms(1) evolves_expire [OF assms(1)]])
  show ?thesis
    using new_facts_expire [OF assms, of now keep seq] new_facts_expire [OF inv' st', of now' keep' seq']
    by (simp add: online_at_def st' expire_node_fields expire_node_lease_facts)
qed

theorem lease_expiry_exact_witness:
  "online_at (fst (expireLocked 30 0 4 (fst (heartbeat 12 0 ''n1'' 1 \<lparr>hb_RolesRevision = 0, hb_Roles = []\<rparr>
     (fst (attach (newRoleRegistry emptyRoleDoc) 10 0 ''n1'' ''v1'' 7 True (loadNodeRegistry [(''n1'', 1)]))))))) ''n1''"
proof -
  let ?ini = "loadNodeRegistry [(''n1'', 1)]"
  let ?att = "fst (attach (newRoleRegistry emptyRoleDoc) 10 0 ''n1'' ''v1'' 7 True ?ini)"
  let ?r = "fst (heartbeat 12 0 ''n1'' 1 \<lparr>hb_RolesRevision = 0, hb_Roles = []\<rparr> ?att)"
  have "node_inv ?r"
    using node_inv_load [of "[(''n1'', 1)]"] node_step_spec [OF node_step.attached] node_step_spec [OF node_step.beat] by auto
  moreover obtain st where "nodes ?r ''n1'' = Some st" "n_online st" "30 < n_deadline st"
  proof -
    have "(case nodes ?r ''n1'' of None \<Rightarrow> False | Some st \<Rightarrow> n_online st \<and> 30 < n_deadline st)" by code_simp
    then show ?thesis using that by (auto split: option.splits)
  qed
  ultimately show ?thesis using lease_expiry_exact [of ?r "''n1''" st 30 0 4] by simp
qed



end
