(* ===== verification/Task_Service.thy ===== *)
theory Task_Service
  imports Task_Entry Node_Registry "HOL-Library.List_Lexorder" "HOL-Library.Char_ord"
begin

section \<open>The task service: state, reservation ledger and dispatcher callbacks\<close>

text \<open>
  \<open>taskService\<close> of \<open>internal/plane/tasks.go\<close>: the task entries, the reservation counts and the
  storage-blocked set derived from them, the gate-protected admission and the callbacks of the
  start dispatcher. One function here is one critical section of the task lock, so the
  interleavings of the goroutines are the sequences of these functions.

  The task directory is part of the state: \<open>docs\<close> holds the visible documents and \<open>durable\<close> those a
  directory sync covers. A retry of the sync is three steps, as in \<open>resyncStore\<close>: the unconfirmed
  entries are captured with their revisions (\<open>captured\<close>), a successful sync covers what was captured
  (\<open>synced\<close>), and \<open>confirm\<close> runs for a covered pair. \<open>jobs\<close> are the documents whose write a task's
  single writer has begun. \<open>releases\<close> lists the calls of the \<open>onRelease\<close> hook, \<open>woken\<close> the closed
  response channels, \<open>tokens\<close> the start tokens not yet returned with their attachment.
\<close>

datatype jobKind = JobRunning | JobStopIntent | JobPublicationIntent | JobTerminal | JobLost | JobRejected | JobLate | JobCheckpoint

record publicationJob =
  pj_kind :: jobKind
  pj_rec :: TaskRecord
  pj_live :: nat

record waitReg =
  wr_ids :: "string list"
  wr_winner :: string
  wr_done :: bool

record admission =
  ad_req :: DispatchRequest
  ad_role :: RoleRecord
  ad_gen :: nat
  ad_rev :: int
  ad_rec :: TaskRecord
  ad_tok :: nat
  ad_attempt :: nat
  ad_checks :: nat

record taskService =
  tasks :: "string \<Rightarrow> taskEntry option"
  task_ids :: "string list"
  counts :: "instanceKey \<Rightarrow> (int \<times> int) option"
  blocked :: "string set"
  svc_closed :: bool
  reg :: nodeRegistry
  roles :: roleState
  epoch :: string
  admitted :: nat
  gate :: bool
  adm :: "admission option"
  releases :: "instanceKey list"
  docs :: "string \<Rightarrow> TaskRecord option"
  durable :: "string \<Rightarrow> TaskRecord option"
  captured :: "(string \<times> int) set"
  synced :: "(string \<times> int) set"
  jobs :: "string \<Rightarrow> publicationJob option"
  tokens :: "nat \<Rightarrow> nat option"
  nextToken :: nat
  woken :: "nat list"
  nextChan :: nat
  waits :: "nat set"
  regs :: "nat \<Rightarrow> waitReg option"
  nextReg :: nat
  waitReserve :: int
  reservations :: "nat \<Rightarrow> bool option"
  nextReservation :: nat
  maxWait :: duration
  ctlNodes :: "string \<Rightarrow> string set"

subsection \<open>Entries, counts and the blocked set\<close>

definition put :: "string \<Rightarrow> taskEntry \<Rightarrow> taskService \<Rightarrow> taskService" where
  "put i e s = s\<lparr>tasks := (tasks s)(i \<mapsto> e)\<rparr>"

definition modE :: "string \<Rightarrow> (taskEntry \<Rightarrow> taskEntry) \<Rightarrow> taskService \<Rightarrow> taskService" where
  "modE i f s = (case tasks s i of None \<Rightarrow> s | Some e \<Rightarrow> put i (f e) s)"

definition heldLocked :: "taskService \<Rightarrow> instanceKey \<Rightarrow> int \<times> int" where
  "heldLocked s k = (case counts s k of None \<Rightarrow> (0, 0) | Some c \<Rightarrow> c)"

definition storageBlockedLocked :: "taskService \<Rightarrow> bool" where
  "storageBlockedLocked s \<longleftrightarrow> blocked s \<noteq> {}"

definition refreshLocked :: "string \<Rightarrow> taskService \<Rightarrow> taskService" where
  "refreshLocked i s =
     (case tasks s i of
        None \<Rightarrow> s
      | Some e \<Rightarrow>
          let h = held e;
              r = (h \<and> isReconciling e);
              c0 = heldLocked s (te_key e);
              c = (fst c0 - of_bool (te_contribHeld e) + of_bool h, snd c0 - of_bool (te_contribRec e) + of_bool r)
          in s\<lparr>tasks := (tasks s)(i \<mapsto> e\<lparr>te_contribHeld := h, te_contribRec := r\<rparr>),
               counts := (counts s)(te_key e := (if c = (0, 0) then None else Some c)),
               releases := (if te_contribHeld e \<and> \<not> h then releases s @ [te_key e] else releases s),
               blocked := (if entry_blocked e then insert i (blocked s) else blocked s - {i})\<rparr>)"

definition wakeLocked :: "string \<Rightarrow> taskService \<Rightarrow> taskService" where
  "wakeLocked i s = modE i (\<lambda>e. if \<not> te_writer e \<and> \<not> svc_closed s then e\<lparr>te_writer := True\<rparr> else e) s"

definition notifyLocked :: "string \<Rightarrow> taskService \<Rightarrow> taskService" where
  "notifyLocked i s =
     (case tasks s i of
        None \<Rightarrow> s
      | Some e \<Rightarrow> (put i (e\<lparr>te_waiters := []\<rparr>) s)\<lparr>woken := woken s @ te_waiters e\<rparr>)"

definition waiterLocked :: "string \<Rightarrow> taskService \<Rightarrow> taskService \<times> nat" where
  "waiterLocked i s =
     ((modE i (\<lambda>e. e\<lparr>te_waiters := te_waiters e @ [nextChan s]\<rparr>) s)\<lparr>nextChan := nextChan s + 1\<rparr>, nextChan s)"

definition dropWaiterLocked :: "string \<Rightarrow> nat \<Rightarrow> taskService \<Rightarrow> taskService" where
  "dropWaiterLocked i c s = modE i (\<lambda>e. e\<lparr>te_waiters := remove1 c (te_waiters e)\<rparr>) s"

definition wantControlLocked :: "string \<Rightarrow> taskService \<Rightarrow> taskService" where
  "wantControlLocked i s =
     (case tasks s i of
        None \<Rightarrow> s
      | Some e \<Rightarrow>
          if deliverableLocked e (te_rgen e)
          then s\<lparr>ctlNodes := (ctlNodes s)(r_Node (Role (te_rec e)) := insert i (ctlNodes s (r_Node (Role (te_rec e)))))\<rparr>
          else s)"

definition dropControlLocked :: "string \<Rightarrow> taskService \<Rightarrow> taskService" where
  "dropControlLocked i s =
     (case tasks s i of
        None \<Rightarrow> s
      | Some e \<Rightarrow> (put i (e\<lparr>te_ctlInflight := False\<rparr>) s)
          \<lparr>ctlNodes := (ctlNodes s)(r_Node (Role (te_rec e)) := ctlNodes s (r_Node (Role (te_rec e))) - {i})\<rparr>)"

text \<open>The start token: at most \<open>maxQueuedStarts\<close> per attachment; a second release does nothing.\<close>

definition reserveStart :: "bool \<Rightarrow> nat \<Rightarrow> taskService \<Rightarrow> (taskService \<times> nat) option" where
  "reserveStart ended gen s =
     (if ended \<or> card {t. t < nextToken s \<and> tokens s t = Some gen} \<ge> maxQueuedStarts then None
      else Some (s\<lparr>tokens := (tokens s)(nextToken s \<mapsto> gen), nextToken := nextToken s + 1\<rparr>, nextToken s))"

definition release_token :: "nat option \<Rightarrow> taskService \<Rightarrow> taskService" where
  "release_token t s = (case t of None \<Rightarrow> s | Some n \<Rightarrow> s\<lparr>tokens := (tokens s)(n := None)\<rparr>)"

definition liveAttachment :: "instant \<Rightarrow> string \<Rightarrow> nat \<Rightarrow> taskService \<Rightarrow> taskService \<times> bool" where
  "liveAttachment now node gen s =
     (let (r, ok) = currentAttachment now (admitted s) node gen (reg s) in (s\<lparr>reg := r\<rparr>, ok))"

subsection \<open>Startup\<close>

text \<open>A validated document; \<open>lt_schema\<close> is the schema it was decoded from (\<open>rec.Schema\<close>).\<close>

record loadedTask =
  lt_schema :: int
  lt_rec :: TaskRecord
  lt_retained :: nat
  lt_lateRetained :: nat

definition blankEntry :: "TaskRecord \<Rightarrow> taskEntry" where
  "blankEntry r = \<lparr>te_rec = r, te_retained = 0, te_lateRetained = 0, te_key = keyOf (Role r), te_confirmed = False,
     te_released = False, te_fault = False, te_retryAt = None, te_loaded = False, te_reconciling = False, te_gen = 0,
     te_rgen = 0, te_seq = 0, te_lateOK = False, te_lateBound = '''', te_seen = 0, te_send = sendNone, te_started = False,
     te_startedAt = 0, te_visible = 0, te_deadline = 0, te_res = None, te_ring = None, te_logDirty = False,
     te_lastCheckpoint = None, te_cand = None, te_late = None, te_lateRing = None, te_watchdog = False,
     te_commitFailed = False, te_needRunning = False, te_writer = False, te_contribHeld = False, te_contribRec = False,
     te_pendingIntent = None, te_intentDurable = False, te_ctlDue = None, te_ctlInflight = False, te_waiters = [],
     te_waitRegs = [], te_preparing = False, te_prepDeadline = None, te_pendingPub = None\<rparr>"

definition loadedEntry :: "loadedTask \<Rightarrow> taskEntry" where
  "loadedEntry lt =
     (let r = lt_rec lt; t = TaskTerminal (State r) in
      (blankEntry r)\<lparr>te_retained := lt_retained lt, te_lateRetained := lt_lateRetained lt, te_confirmed := True, te_loaded := True,
        te_released := t, te_reconciling := \<not> t, te_intentDurable := (rec_StopIntent r \<noteq> None)\<rparr>)"

fun load_entries :: "loadedTask list \<Rightarrow> taskService \<Rightarrow> taskService res" where
  "load_entries [] s = Inr s"
| "load_entries (lt # lts) s =
     (let i = TaskID (lt_rec lt); e = loadedEntry lt in
      if held e \<and> fst (heldLocked s (te_key e)) \<ge> MaxSafeInteger then Inl (Error CodeConflict '''')
      else load_entries lts (refreshLocked i
        (s\<lparr>tasks := (tasks s)(i \<mapsto> e), task_ids := task_ids s @ [i]\<rparr>)))"

definition emptyService :: "nodeRegistry \<Rightarrow> roleState \<Rightarrow> string \<Rightarrow> duration \<Rightarrow> taskService" where
  "emptyService nr rs ep mw = \<lparr>tasks = (\<lambda>_. None), task_ids = [], counts = (\<lambda>_. None), blocked = {}, svc_closed = False, reg = nr,
     roles = rs, epoch = ep, admitted = 0, gate = False, adm = None, releases = [], docs = (\<lambda>_. None), durable = (\<lambda>_. None),
     captured = {}, synced = {}, jobs = (\<lambda>_. None), tokens = (\<lambda>_. None), nextToken = 0, woken = [], nextChan = 0, waits = {},
     regs = (\<lambda>_. None), nextReg = 0, waitReserve = 0, reservations = (\<lambda>_. None), nextReservation = 0, maxWait = mw,
     ctlNodes = (\<lambda>_. {})\<rparr>"

text \<open>
  \<open>newTaskService\<close>: a surviving document is the recovered authority, so it is visible and durable.
  \<open>doc_of\<close> gives each loaded task's complete document (the loader drops log tails from memory).
\<close>

definition newTaskService :: "nodeRegistry \<Rightarrow> roleState \<Rightarrow> string \<Rightarrow> duration \<Rightarrow> (string \<Rightarrow> TaskRecord option) \<Rightarrow> loadedTask list \<Rightarrow> taskService res" where
  "newTaskService nr rs ep mw doc_of lts =
     (case load_entries lts ((emptyService nr rs ep mw)\<lparr>docs := doc_of, durable := doc_of\<rparr>) of
        Inl e \<Rightarrow> Inl e
      | Inr s \<Rightarrow> Inr (s\<lparr>task_ids := sort (task_ids s)\<rparr>))"

subsection \<open>Wait registrations\<close>

definition maxWaitCalls :: nat where "maxWaitCalls = 1024"

definition dropWaitLocked :: "nat \<Rightarrow> taskService \<Rightarrow> taskService" where
  "dropWaitLocked r s =
     (case regs s r of
        None \<Rightarrow> s
      | Some w \<Rightarrow>
          if wr_done w then s
          else fold (\<lambda>j. modE j (\<lambda>e. e\<lparr>te_waitRegs := remove1 r (te_waitRegs e)\<rparr>)) (wr_ids w)
                 (s\<lparr>regs := (regs s)(r \<mapsto> w\<lparr>wr_done := True\<rparr>), waits := waits s - {r}\<rparr>))"

definition win_wait :: "string \<Rightarrow> nat \<Rightarrow> taskService \<Rightarrow> taskService" where
  "win_wait i r s =
     (case regs s r of
        None \<Rightarrow> s
      | Some w \<Rightarrow>
          if wr_winner w = '''' \<and> \<not> wr_done w
          then dropWaitLocked r (s\<lparr>regs := (regs s)(r \<mapsto> w\<lparr>wr_winner := i\<rparr>)\<rparr>)
          else s)"

definition wakeWaitsLocked :: "string \<Rightarrow> taskService \<Rightarrow> taskService" where
  "wakeWaitsLocked i s =
     (case tasks s i of None \<Rightarrow> s | Some e \<Rightarrow> fold (win_wait (TaskID (te_rec e))) (te_waitRegs e) s)"

subsection \<open>Confirmed publications and the store's sync\<close>

definition clear_log :: "TaskRecord \<Rightarrow> TaskRecord" where
  "clear_log r = r\<lparr>Log := (Log r)\<lparr>Data := []\<rparr>\<rparr>"

definition clear_late :: "TaskRecord \<Rightarrow> TaskRecord" where
  "clear_late r = r\<lparr>Late := map_option (\<lambda>l. l\<lparr>l_Log := (l_Log l)\<lparr>Data := []\<rparr>\<rparr>) (Late r)\<rparr>"

definition intent_committed :: "taskEntry \<Rightarrow> taskEntry" where
  "intent_committed e =
     (if (case te_cand e of None \<Rightarrow> True | Some c \<Rightarrow> cd_kind c \<noteq> candControl)
      then e\<lparr>te_intentDurable := True, te_commitFailed := False, te_watchdog := False\<rparr>
      else e\<lparr>te_intentDurable := True\<rparr>)"

definition terminal_committed :: "taskEntry \<Rightarrow> taskEntry" where
  "terminal_committed e =
     e\<lparr>te_released := True, te_ring := None, te_watchdog := False, te_commitFailed := False,
       te_rec := clear_late (clear_log (te_rec e))\<rparr>"

definition finish_intent :: "string \<Rightarrow> taskService \<Rightarrow> taskService" where
  "finish_intent i s =
     (case tasks s i of
        None \<Rightarrow> s
      | Some e \<Rightarrow>
          if rec_StopIntent (te_rec e) \<noteq> None \<and> \<not> te_intentDurable e
          then wantControlLocked i (put i (intent_committed e) s) else s)"

definition finishPublicationLocked :: "string \<Rightarrow> taskService \<Rightarrow> taskService" where
  "finishPublicationLocked i s0 =
     (let s = finish_intent i s0 in
      case tasks s i of
        None \<Rightarrow> s
      | Some e \<Rightarrow>
          notifyLocked i
            (if terminal e then
               (let s1 = put i (terminal_committed e) s in
                if \<not> te_released e then dropControlLocked i (wakeWaitsLocked i s1) else s1)
             else if te_ring e \<noteq> None then put i (e\<lparr>te_rec := clear_log (te_rec e)\<rparr>) s
             else s))"

text \<open>
  \<open>resyncStore\<close> in its three parts: \<open>captureSync\<close> (under the lock), \<open>syncStore\<close> (the directory sync)
  and \<open>confirm\<close> for a captured and synced pair.
\<close>

definition unconfirmed :: "taskService \<Rightarrow> string \<Rightarrow> bool" where
  "unconfirmed s i = (case tasks s i of None \<Rightarrow> False | Some e \<Rightarrow> \<not> te_confirmed e)"

definition captureSync :: "taskService \<Rightarrow> taskService" where
  "captureSync s = s\<lparr>captured := captured s \<union>
     (\<lambda>i. (i, Revision (te_rec (the (tasks s i))))) ` {i \<in> blocked s. unconfirmed s i}\<rparr>"

lemma captureSync_mem: "(i, k) \<in> captured (captureSync s) \<longleftrightarrow>
    (i, k) \<in> captured s \<or> (i \<in> blocked s \<and> (\<exists>e. tasks s i = Some e \<and> \<not> te_confirmed e \<and> k = Revision (te_rec e)))"
  by (auto simp: captureSync_def unconfirmed_def image_iff split: option.splits)

definition syncStore :: "taskService \<Rightarrow> taskService" where
  "syncStore s = s\<lparr>synced := synced s \<union> captured s, durable := docs s\<rparr>"

definition confirm :: "string \<Rightarrow> int \<Rightarrow> taskService \<Rightarrow> taskService" where
  "confirm i rv s =
     (case tasks s i of
        None \<Rightarrow> s
      | Some e \<Rightarrow>
          if te_confirmed e \<or> Revision (te_rec e) \<noteq> rv then s
          else wakeLocked i (refreshLocked i (finishPublicationLocked i
                 (put i (e\<lparr>te_confirmed := True, te_fault := False\<rparr>) s))))"

text \<open>Whether \<open>confirm\<close> goes on to submit the task's start.\<close>

definition confirm_submits :: "taskEntry \<Rightarrow> bool" where
  "confirm_submits e \<longleftrightarrow> State (te_rec e) = TaskPending \<and> te_send e = sendNone \<and> \<not> te_loaded e \<and> te_cand e = None"

subsection \<open>Latches\<close>

definition settle_entry :: "string \<Rightarrow> (taskEntry \<Rightarrow> taskEntry) \<Rightarrow> taskService \<Rightarrow> taskService" where
  "settle_entry i f s = wakeLocked i (refreshLocked i (modE i f s))"

definition latchCancelledBeforeStartLocked :: "instant \<Rightarrow> string \<Rightarrow> taskService \<Rightarrow> taskService" where
  "latchCancelledBeforeStartLocked now i s = settle_entry i (latch_cancelled now) s"

definition undecided :: "taskEntry \<Rightarrow> bool" where
  "undecided e \<longleftrightarrow> \<not> terminal e \<and> te_cand e = None"

definition latchRefusalLocked :: "instant \<Rightarrow> TaskReason \<Rightarrow> string \<Rightarrow> taskService \<Rightarrow> taskService" where
  "latchRefusalLocked now reason i s =
     (case tasks s i of
        None \<Rightarrow> s
      | Some e \<Rightarrow>
          if \<not> undecided e \<or> publishingLocked e then s else settle_entry i (latch_refusal now reason) s)"

definition latchLostLocked :: "instant \<Rightarrow> string \<Rightarrow> string \<Rightarrow> string \<Rightarrow> taskService \<Rightarrow> taskService" where
  "latchLostLocked now reason msg i s =
     (case tasks s i of
        None \<Rightarrow> s
      | Some e \<Rightarrow>
          if \<not> undecided e \<or> publishingLocked e then s else settle_entry i (latch_lost now reason msg) s)"

subsection \<open>Dispatcher callbacks\<close>

definition claimStart :: "string \<Rightarrow> taskService \<Rightarrow> taskService \<times> bool" where
  "claimStart i s =
     (case tasks s i of
        None \<Rightarrow> (s, False)
      | Some e \<Rightarrow>
          if te_send e \<noteq> sendQueued \<or> State (te_rec e) \<noteq> TaskPending \<or> te_cand e \<noteq> None \<or> intentLocked e \<noteq> None then (s, False)
          else (put i (e\<lparr>te_send := sendSending\<rparr>) s, True))"

definition startNotSent :: TaskReason where
  "startNotSent = \<lparr>tr_Code = ''start_not_sent'',
     tr_Message = ''the start was never sent to the worker (its stream ended or its start deadline passed first)''\<rparr>"

definition startUnsent :: "instant \<Rightarrow> string \<Rightarrow> taskService \<Rightarrow> taskService" where
  "startUnsent now i s =
     (case tasks s i of
        None \<Rightarrow> s
      | Some e \<Rightarrow>
          if te_loaded e \<or> State (te_rec e) \<noteq> TaskPending \<or> te_send e = sendSending \<or> te_send e = sendReplied \<or> te_cand e \<noteq> None
          then s
          else latchRefusalLocked now startNotSent i (put i (e\<lparr>te_send := sendUnsent\<rparr>) s))"

definition startUncertain :: "string \<Rightarrow> taskService \<Rightarrow> taskService" where
  "startUncertain i s =
     (case tasks s i of
        None \<Rightarrow> s
      | Some e \<Rightarrow> if terminal e then s else notifyLocked i (refreshLocked i (put i (e\<lparr>te_reconciling := True\<rparr>) s)))"

text \<open>\<open>submit\<close> marks the start queued under the lock; \<open>enqueueStart\<close> then routes it, or ends it unsent.\<close>

definition submit :: "string \<Rightarrow> taskService \<Rightarrow> taskService" where
  "submit i s =
     (case tasks s i of
        None \<Rightarrow> s
      | Some e \<Rightarrow>
          if te_send e \<noteq> sendNone \<or> State (te_rec e) \<noteq> TaskPending \<or> te_cand e \<noteq> None then s
          else put i (e\<lparr>te_send := sendQueued\<rparr>) s)"

definition enqueueStart :: "instant \<Rightarrow> bool \<Rightarrow> bool \<Rightarrow> string \<Rightarrow> taskService \<Rightarrow> taskService" where
  "enqueueStart now expired ended i s =
     (case tasks s i of
        None \<Rightarrow> s
      | Some e \<Rightarrow>
          if expired \<or> ended \<or> \<not> startRoutable (reg s) (r_Node (Role (te_rec e))) (te_gen e)
          then startUnsent now i (release_token (te_res e) s) else s)"

definition reply_preparing :: "instant \<Rightarrow> nat \<Rightarrow> taskEntry \<Rightarrow> taskEntry" where
  "reply_preparing now gen e = e\<lparr>te_preparing := True, te_prepDeadline := Some (now + WorkspacePrepareTimeout),
     te_rgen := gen, te_lateOK := False, te_reconciling := False\<rparr>"

definition reply_started :: "instant \<Rightarrow> nat \<Rightarrow> taskEntry \<Rightarrow> taskEntry" where
  "reply_started now gen e = e\<lparr>te_started := True, te_needRunning := True, te_startedAt := now,
     te_rgen := gen, te_lateOK := False, te_reconciling := False\<rparr>"

definition startReplied :: "instant \<Rightarrow> string \<Rightarrow> nat \<Rightarrow> TaskReason option \<Rightarrow> bool \<Rightarrow> taskService \<Rightarrow> taskService" where
  "startReplied now i gen refusal preparing s =
     (case tasks s i of
        None \<Rightarrow> s
      | Some e \<Rightarrow>
          if te_send e \<noteq> sendSending then s
          else let s1 = put i (e\<lparr>te_send := sendReplied\<rparr>) s in
            notifyLocked i
              (case refusal of
                 Some r \<Rightarrow> latchRefusalLocked now (r\<lparr>tr_Message := sanitizeReason (tr_Message r)\<rparr>) i s1
               | None \<Rightarrow>
                   if preparing
                   then (if undecided e then wantControlLocked i (refreshLocked i (modE i (reply_preparing now gen) s1)) else s1)
                   else wakeLocked i
                     (if undecided e then wantControlLocked i (refreshLocked i (modE i (reply_started now gen) s1)) else s1)))"

definition detach_task :: "string \<Rightarrow> nat \<Rightarrow> string \<Rightarrow> taskService \<Rightarrow> taskService" where
  "detach_task node gen i s =
     (case tasks s i of
        None \<Rightarrow> s
      | Some e \<Rightarrow>
          if r_Node (Role (te_rec e)) \<noteq> node \<or> \<not> undecided e then s
          else if te_rgen e = gen \<or> (te_gen e = gen \<and> te_send e = sendSending)
          then notifyLocked i (refreshLocked i (put i (e\<lparr>te_reconciling := True\<rparr>) s))
          else s)"

definition detached :: "string \<Rightarrow> nat \<Rightarrow> taskService \<Rightarrow> taskService" where
  "detached node gen s = fold (detach_task node gen) (task_ids s) s"

definition authorizedLocked :: "instant \<Rightarrow> string \<Rightarrow> nat \<Rightarrow> string \<Rightarrow> ExecutionToken \<Rightarrow> taskService \<Rightarrow> taskService \<times> taskEntry res" where
  "authorizedLocked now node gen i tok s0 =
     (let (s, ok) = liveAttachment now node gen s0 in
      if \<not> ok then (s, Inl (Error (if closed (reg s) then CodeUnavailable else CodeInvalidArgument) ''''))
      else (case tasks s i of
          None \<Rightarrow> (s, errInvalid)
        | Some e \<Rightarrow>
            if r_Node (Role (te_rec e)) \<noteq> node then (s, errInvalid)
            else if Execution (te_rec e) \<noteq> tok then (s, errInvalid)
            else if te_rgen e \<noteq> gen then (s, errInvalid)
            else (s, Inr e)))"

definition close_service :: "taskService \<Rightarrow> taskService" where
  "close_service s = s\<lparr>svc_closed := True\<rparr>"

definition removalCheck :: "taskService \<Rightarrow> instanceKey \<Rightarrow> unit res" where
  "removalCheck s k = (if fst (heldLocked s k) = 0 then Inr () else Inl (Error CodeConflict ''tasks_inflight''))"

definition heldIDs :: "taskService \<Rightarrow> instanceKey \<Rightarrow> string list" where
  "heldIDs s k = filter (\<lambda>i. case tasks s i of None \<Rightarrow> False | Some e \<Rightarrow> te_key e = k \<and> held e) (task_ids s)"

end
