(* ===== verification/Task_Admission.thy ===== *)
theory Task_Admission
  imports Task_Service
begin

section \<open>Dispatch admission\<close>

text \<open>
  \<open>dispatch\<close> and \<open>admit\<close> of \<open>internal/plane/tasks.go\<close>: candidates are observed at one instant, the
  first that can accept is taken, and the pending record is published after two rechecks. The code
  holds the plane's mutation gate but no lock between its critical sections, so admission is
  modelled as the sequence \<open>admit_begin\<close>, \<open>admit_attempt\<close>, \<open>admit_prepare\<close>, \<open>admit_publish\<close>, any other
  operation of the service interleaving; \<open>adm\<close> holds its local variables. An ID collision returns
  to \<open>admit_attempt\<close>.

  Arguments that stand for code outside the service: \<open>bind\<close> is \<open>resolveBinding\<close>'s answer, \<open>syncOk\<close>
  the registry directory sync, \<open>ended\<close> that the candidate's stream ended, \<open>idr\<close> the random task ID
  (or the reader's failure), \<open>digestOf\<close> the start digest, \<open>ctxOk\<close> that the caller is live and
  within its deadline.
\<close>

record TaskStartBody =
  sb_TaskID :: string
  sb_Execution :: ExecutionToken
  sb_RolesRevision :: int
  sb_Role :: RoleRecord
  sb_Request :: DispatchRequest
  sb_Effective :: TaskEffective
  sb_Workspace :: "WorkspaceBinding option"

definition startBody :: "TaskRecord \<Rightarrow> TaskStartBody" where
  "startBody r = \<lparr>sb_TaskID = TaskID r, sb_Execution = Execution r, sb_RolesRevision = RolesRevision r, sb_Role = Role r,
     sb_Request = Request r, sb_Effective = Effective r, sb_Workspace = Workspace r\<rparr>"

definition targets :: "roleDoc \<Rightarrow> TaskTarget \<Rightarrow> RoleRecord list" where
  "targets doc t = take MaxCandidates (sort_key RegistrationOrder
     (filter (\<lambda>r. case t of TargetID v \<Rightarrow> r_ID r = v | TargetName v \<Rightarrow> r_Name r = v) (doc_roles doc)))"

record observation =
  ob_roles :: roleState
  ob_recs :: "RoleRecord list"
  ob_cands :: "TaskCandidate list"
  ob_gens :: "nat option list"
  ob_snapRevs :: "int list"

definition desired_rev :: "nodeRegistry \<Rightarrow> string \<Rightarrow> int" where
  "desired_rev nr i =
     (case nodes nr i of None \<Rightarrow> 0 | Some st \<Rightarrow> (case n_att st of None \<Rightarrow> 0 | Some a \<Rightarrow> rev (a_desired a)))"

definition observeLocked :: "instant \<Rightarrow> TaskTarget \<Rightarrow> taskService \<Rightarrow> taskService \<times> observation" where
  "observeLocked now t s =
     (let rs = roles s;
          recs = targets (rs_visible rs) t;
          blk = (rs_blocked rs \<or> storageBlockedLocked s);
          nr = fst (expireLocked now 0 (admitted s) (reg s));
          cs = map (\<lambda>r. candidateLocked nr rs r (heldLocked s (keyOf r)) blk) recs
      in (s\<lparr>reg := nr\<rparr>,
          \<lparr>ob_roles = rs, ob_recs = recs, ob_cands = map fst cs, ob_gens = map snd cs,
           ob_snapRevs = map2 (\<lambda>r c. if tc_CanAccept (fst c) then desired_rev nr (r_Node r) else 0) recs cs\<rparr>))"

fun pick_from :: "nat \<Rightarrow> TaskCandidate list \<Rightarrow> nat option" where
  "pick_from k [] = None"
| "pick_from k (c # cs) = (if tc_CanAccept c then Some k else pick_from (Suc k) cs)"

definition busy :: "'a res" where "busy = Inl (Error CodeUnavailable ''busy'')"

definition pendingRecord :: "DispatchRequest \<Rightarrow> RoleRecord \<Rightarrow> int \<Rightarrow> TaskEffective \<Rightarrow> string \<Rightarrow> nat \<Rightarrow> instant \<Rightarrow> WorkspaceBinding option \<Rightarrow> TaskRecord" where
  "pendingRecord req role snapRev eff ep gen now bind = \<lparr>TaskID = '''', Request = req, Role = role, RolesRevision = snapRev,
     Effective = eff, Execution = \<lparr>Epoch = ep, Attachment = gen\<rparr>, State = TaskPending, CreatedAt = now, StartedAt = None,
     FinishedAt = None, ExitCode = None, Signal = None, FinalMessage = None, FinalMessageTruncated = False, Reason = None,
     Candidates = [], Log = emptyLog, Revision = 1, StartDigest = None, TimeoutPolicy = TimeoutPolicyEnforced,
     rec_StopIntent = None, ResultDigest = None, Late = None, Workspace = bind, Publication = None, WorkspaceResult = None\<rparr>"

text \<open>The part of \<open>admit\<close> before its publication loop, the gate just acquired.\<close>

definition admit_select :: "instant \<Rightarrow> AdapterLookup \<Rightarrow> bool \<Rightarrow> DispatchRequest \<Rightarrow> WorkspaceBinding option \<Rightarrow> taskService \<Rightarrow> taskService \<times> unit res" where
  "admit_select now lookup ended req bind s0 =
     (let (s, ob) = observeLocked now (q_Target req) s0 in
      if ob_recs ob = [] then (s\<lparr>gate := False\<rparr>, Inl (Error CodeNotFound ''''))
      else (case pick_from 0 (ob_cands ob) of
          None \<Rightarrow> (s\<lparr>gate := False\<rparr>, Inl (Error CodeUnavailable ''no_capacity''))
        | Some p \<Rightarrow>
            (case ResolveEffective (ob_recs ob ! p) (q_Override req) lookup of
               Inl err \<Rightarrow> (s\<lparr>gate := False\<rparr>, Inl err)
             | Inr eff \<Rightarrow>
                 (case ob_gens ob ! p of
                    None \<Rightarrow> (s\<lparr>gate := False\<rparr>, busy)
                  | Some g \<Rightarrow>
                      (case reserveStart ended g s of
                         None \<Rightarrow> (s\<lparr>gate := False\<rparr>, busy)
                       | Some (s', tok) \<Rightarrow>
                           (s'\<lparr>adm := Some \<lparr>ad_req = req, ad_role = ob_recs ob ! p, ad_gen = g, ad_rev = revision (rs_visible (ob_roles ob)),
                              ad_rec = pendingRecord req (ob_recs ob ! p) (ob_snapRevs ob ! p) eff (epoch s) g now bind,
                              ad_tok = tok, ad_attempt = 0, ad_checks = 0\<rparr>\<rparr>, Inr ()))))))"

definition admit_begin :: "instant \<Rightarrow> AdapterLookup \<Rightarrow> WorkspaceBinding option res \<Rightarrow> bool \<Rightarrow> bool \<Rightarrow> DispatchRequest \<Rightarrow> taskService \<Rightarrow> taskService \<times> unit res" where
  "admit_begin now lookup bind syncOk ended req s =
     (if gate s then (fst (observeLocked now (q_Target req) s), busy)
      else (case bind of
          Inl err \<Rightarrow> (s, Inl err)
        | Inr b \<Rightarrow>
            (case resync syncOk (roles s) of
               (rs, Inl err) \<Rightarrow> (s\<lparr>roles := rs\<rparr>, Inl err)
             | (rs, Inr _) \<Rightarrow> admit_select now lookup ended req b (s\<lparr>roles := rs, gate := True\<rparr>))))"

text \<open>A failed admission returns the token and releases the gate.\<close>

definition admit_abort :: "admission \<Rightarrow> taskService \<Rightarrow> taskService" where
  "admit_abort a s = release_token (Some (ad_tok a)) (s\<lparr>gate := False, adm := None\<rparr>)"

definition recheck_ok :: "admission \<Rightarrow> observation \<Rightarrow> bool" where
  "recheck_ok a again \<longleftrightarrow>
     revision (rs_visible (ob_roles again)) = ad_rev a \<and> length (ob_recs again) = 1
     \<and> RegistrationOrder (ob_recs again ! 0) = RegistrationOrder (ad_role a)
     \<and> tc_CanAccept (ob_cands again ! 0) \<and> ob_gens again ! 0 = Some (ad_gen a)"

definition admit_recheck :: "bool \<Rightarrow> instant \<Rightarrow> admission \<Rightarrow> taskService \<Rightarrow> taskService \<times> unit res" where
  "admit_recheck ctxOk now a s =
     (if \<not> ctxOk then (admit_abort a s, Inl (Error CodeUnavailable ''validation_timeout''))
      else let (s', again) = observeLocked now (TargetID (r_ID (ad_role a))) s in
        if recheck_ok a again then (s'\<lparr>adm := Some (a\<lparr>ad_checks := ad_checks a + 1\<rparr>)\<rparr>, Inr ())
        else (admit_abort a s', busy))"

definition admit_attempt :: "string res \<Rightarrow> (TaskStartBody \<Rightarrow> string) \<Rightarrow> bool \<Rightarrow> instant \<Rightarrow> taskService \<Rightarrow> taskService \<times> unit res" where
  "admit_attempt idr digestOf ctxOk now s =
     (case adm s of
        None \<Rightarrow> (s, busy)
      | Some a \<Rightarrow>
          if ad_checks a \<noteq> 0 then (s, busy)
          else (case idr of
              Inl _ \<Rightarrow> (admit_abort a s, Inl (Error CodeInternal ''''))
            | Inr i \<Rightarrow>
                let r = (ad_rec a)\<lparr>TaskID := i\<rparr>;
                    r' = r\<lparr>StartDigest := Some (digestOf (startBody r))\<rparr>
                in admit_recheck ctxOk now (a\<lparr>ad_rec := r'\<rparr>) s))"

definition admit_prepare :: "unit res \<Rightarrow> bool \<Rightarrow> instant \<Rightarrow> taskService \<Rightarrow> taskService \<times> unit res" where
  "admit_prepare prep ctxOk now s =
     (case adm s of
        None \<Rightarrow> (s, busy)
      | Some a \<Rightarrow>
          if ad_checks a \<noteq> 1 then (s, busy)
          else (case prep of
              Inl _ \<Rightarrow> (admit_abort a s, Inl (Error CodeInternal ''''))
            | Inr _ \<Rightarrow> admit_recheck ctxOk now a s))"

definition admittedEntry :: "admission \<Rightarrow> bool \<Rightarrow> instant \<Rightarrow> nat \<Rightarrow> taskEntry" where
  "admittedEntry a ok visible sq =
     (blankEntry (ad_rec a))\<lparr>te_key := keyOf (ad_role a), te_confirmed := ok, te_gen := ad_gen a, te_visible := visible,
       te_deadline := visible + startControl, te_ring := Some newPlaneLog, te_res := Some (ad_tok a),
       te_fault := \<not> ok, te_retryAt := (if ok then None else Some (visible + storageRetry)), te_seq := sq\<rparr>"

text \<open>\<open>publishFirst\<close> refuses to replace an existing document; the entry is inserted once it is visible.\<close>

definition admit_publish :: "disk_outcome \<Rightarrow> instant \<Rightarrow> taskService \<Rightarrow> taskService \<times> string res" where
  "admit_publish disk visible s =
     (case adm s of
        None \<Rightarrow> (s, busy)
      | Some a \<Rightarrow>
          let i = TaskID (ad_rec a) in
          if ad_checks a \<noteq> 2 then (s, busy)
          else if disk \<noteq> DiskFailed \<and> docs s i \<noteq> None \<and> ad_attempt a < 3
          then (s\<lparr>adm := Some (a\<lparr>ad_attempt := ad_attempt a + 1, ad_checks := 0\<rparr>)\<rparr>, busy)
          else if disk = DiskFailed \<or> docs s i \<noteq> None then (admit_abort a s, Inl (Error CodeInternal ''''))
          else let e = admittedEntry a (disk = DiskOk) visible (admitted s + 1);
                   s1 = s\<lparr>admitted := admitted s + 1, tasks := (tasks s)(i \<mapsto> e), task_ids := insort i (task_ids s),
                          docs := (docs s)(i \<mapsto> ad_rec a),
                          durable := (if disk = DiskOk then (durable s)(i \<mapsto> ad_rec a) else durable s),
                          gate := False, adm := None\<rparr>
               in (modE i (\<lambda>e. e\<lparr>te_writer := True\<rparr>) (refreshLocked i s1), Inr i))"

end
