(* ===== verification/Task_Writer.thy ===== *)
theory Task_Writer
  imports Task_Admission
begin

section \<open>The persistence writer\<close>

text \<open>
  \<open>internal/plane/task_writer.go\<close>: the choice of a task's next document (\<open>nextJobLocked\<close>), its
  composition, and the installation of the write's outcome (\<open>applyLocked\<close>). \<open>writer_take\<close> and
  \<open>writer_write\<close> are the two critical sections of \<open>writerLoop\<close> around the disk write; the job in
  between is \<open>jobs\<close>. The write's outcome is \<open>DiskOk\<close> (visible and synced), \<open>DiskUnconfirmed\<close> (visible,
  its directory sync failed) or \<open>DiskFailed\<close> (the old document stays).
\<close>

definition candKindName :: "candKind \<Rightarrow> jobKind" where
  "candKindName k = (case k of candLost \<Rightarrow> JobLost | candRefusal \<Rightarrow> JobRejected | _ \<Rightarrow> JobTerminal)"

definition job :: "jobKind \<Rightarrow> TaskRecord \<Rightarrow> publicationJob" where
  "job k r = \<lparr>pj_kind = k, pj_rec = r, pj_live = length (Data (Log r))\<rparr>"

definition with_live_log :: "taskEntry \<Rightarrow> TaskRecord \<Rightarrow> TaskRecord" where
  "with_live_log e r = (case te_ring e of None \<Rightarrow> r | Some l \<Rightarrow> r\<lparr>Log := snapshot_log l\<rparr>)"

definition checkpointed :: "instant \<Rightarrow> taskEntry \<Rightarrow> taskEntry" where
  "checkpointed now e = (if te_ring e = None then e else e\<lparr>te_logDirty := False, te_lastCheckpoint := Some now\<rparr>)"

definition terminal_record :: "terminalCand \<Rightarrow> TaskRecord \<Rightarrow> TaskCandidate list \<Rightarrow> TaskRecord" where
  "terminal_record c nxt cands =
     (let r1 = apply_outcome (cd_outcome c) nxt;
          r2 = (if cd_digest c \<noteq> '''' then r1\<lparr>ResultDigest := Some (cd_digest c)\<rparr> else r1);
          r3 = (if cd_kind c = candRefusal then r2\<lparr>Candidates := cands\<rparr> else r2)
      in case Workspace r3 of
           None \<Rightarrow> r3
         | Some b \<Rightarrow> (let (p, w) = workspaceTerminal r3 b c in r3\<lparr>Publication := p, WorkspaceResult := w\<rparr>))"

definition checkpoint_due :: "instant \<Rightarrow> taskEntry \<Rightarrow> bool" where
  "checkpoint_due now e \<longleftrightarrow> \<not> before now (after_opt (te_lastCheckpoint e) checkpointEvery)"

definition nextJobLocked :: "instant \<Rightarrow> string \<Rightarrow> taskService \<Rightarrow> taskService \<times> publicationJob option \<times> bool" where
  "nextJobLocked now i s =
     (case tasks s i of
        None \<Rightarrow> (s, None, False)
      | Some e \<Rightarrow>
          let nxt = (te_rec e)\<lparr>Revision := Revision (te_rec e) + 1\<rparr> in
          if terminal e \<and> te_released e \<and> te_confirmed e \<and> te_late e = None then (s, None, True)
          else if \<not> te_confirmed e \<or> (te_fault e \<and> before now (te_retryAt e)) then (s, None, False)
          else if Revision (te_rec e) \<ge> MaxSafeInteger then
            (if te_fault e then s
             else refreshLocked i (put i (e\<lparr>te_fault := True, te_commitFailed := (te_cand e \<noteq> None \<or> te_late e \<noteq> None)\<rparr>) s), None, False)
          else if te_needRunning e \<and> \<not> terminal e then
            (s, Some (job JobRunning (with_live_log e (nxt\<lparr>State := TaskRunning, StartedAt := Some (te_startedAt e)\<rparr>))), False)
          else if te_pendingIntent e \<noteq> None \<and> \<not> terminal e then
            (put i (checkpointed now e) s, Some (job JobStopIntent (with_live_log e (nxt\<lparr>rec_StopIntent := te_pendingIntent e\<rparr>))), False)
          else if te_pendingPub e \<noteq> None \<and> \<not> terminal e then
            (put i (checkpointed now e) s, Some (job JobPublicationIntent (with_live_log e (nxt\<lparr>Publication := te_pendingPub e\<rparr>))), False)
          else if te_cand e \<noteq> None \<and> \<not> terminal e then
            (let c = the (te_cand e);
                 (s', ob) = (if cd_kind c = candRefusal then (case observeLocked now (q_Target (Request (te_rec e))) s of (s', ob) \<Rightarrow> (s', ob_cands ob)) else (s, []))
             in (s', Some (job (candKindName (cd_kind c)) (terminal_record c nxt ob)), False))
          else if te_late e \<noteq> None \<and> terminal e \<and> te_released e then
            (s, Some \<lparr>pj_kind = JobLate, pj_rec = nxt, pj_live = 0\<rparr>, False)
          else if te_ring e \<noteq> None \<and> te_logDirty e \<and> State (te_rec e) = TaskRunning \<and> te_cand e = None \<and> checkpoint_due now e then
            (put i (checkpointed now e) s, Some (job JobCheckpoint (with_live_log e nxt)), False)
          else (s, None, False))"

definition composeLate :: "bool \<Rightarrow> string \<Rightarrow> publicationJob \<Rightarrow> taskService \<Rightarrow> publicationJob res" where
  "composeLate readOk i j s =
     (case (tasks s i, docs s i) of
        (Some e, Some cur) \<Rightarrow>
          (if \<not> readOk then Inl (Cause ''read'')
           else case te_late e of
             None \<Rightarrow> Inl (Cause ''changed'')
           | Some l \<Rightarrow>
               if Revision cur \<noteq> Revision (te_rec e) then Inl (Cause ''changed'')
               else let r = (te_rec e)\<lparr>Revision := Revision (te_rec e) + 1, Log := (Log (te_rec e))\<lparr>Data := Data (Log cur)\<rparr>\<rparr>;
                        lg = (lc_log l)\<lparr>Data := lastn (MaxLogRetainedBytes - length (Data (Log cur))) (Data (lc_log l))\<rparr>
                    in Inr (job JobLate (r\<lparr>Late := Some (LateFrom (lc_result l) (lc_at l) lg)\<rparr>)))
      | _ \<Rightarrow> Inl (Cause ''read''))"

definition job_installed :: "jobKind \<Rightarrow> taskEntry \<Rightarrow> taskEntry" where
  "job_installed k e =
     (case k of
        JobRunning \<Rightarrow> e\<lparr>te_needRunning := False\<rparr>
      | JobStopIntent \<Rightarrow> e\<lparr>te_pendingIntent := None\<rparr>
      | JobPublicationIntent \<Rightarrow> e\<lparr>te_pendingPub := None\<rparr>
      | JobTerminal \<Rightarrow> e\<lparr>te_cand := None\<rparr>
      | JobLost \<Rightarrow> e\<lparr>te_cand := None\<rparr>
      | JobRejected \<Rightarrow> e\<lparr>te_cand := None\<rparr>
      | JobLate \<Rightarrow> e\<lparr>te_late := None, te_lateRing := None\<rparr>
      | JobCheckpoint \<Rightarrow> e)"

definition job_failed :: "jobKind \<Rightarrow> taskEntry \<Rightarrow> taskEntry" where
  "job_failed k e =
     (case k of
        JobRunning \<Rightarrow> e
      | JobCheckpoint \<Rightarrow> e\<lparr>te_logDirty := True\<rparr>
      | _ \<Rightarrow> e\<lparr>te_commitFailed := True\<rparr>)"

definition install_job :: "instant \<Rightarrow> publicationJob \<Rightarrow> bool \<Rightarrow> taskEntry \<Rightarrow> taskEntry" where
  "install_job now j ok e =
     job_installed (pj_kind j)
       (e\<lparr>te_rec := pj_rec j, te_retained := pj_live j,
          te_lateRetained := (case Late (pj_rec j) of None \<Rightarrow> te_lateRetained e | Some l \<Rightarrow> length (Data (l_Log l))),
          te_confirmed := ok, te_fault := \<not> ok, te_retryAt := (if ok then te_retryAt e else Some (now + storageRetry))\<rparr>)"

definition applyLocked :: "instant \<Rightarrow> string \<Rightarrow> publicationJob \<Rightarrow> disk_outcome \<Rightarrow> taskService \<Rightarrow> taskService" where
  "applyLocked now i j disk s = refreshLocked i
     (case disk of
        DiskOk \<Rightarrow> finishPublicationLocked i (modE i (install_job now j True) s)
      | DiskUnconfirmed \<Rightarrow> modE i (\<lambda>e. (install_job now j False e)\<lparr>te_rec := clear_late (pj_rec j)\<rparr>) s
      | DiskFailed \<Rightarrow> modE i (\<lambda>e. job_failed (pj_kind j) (e\<lparr>te_fault := True, te_retryAt := Some (now + storageRetry)\<rparr>)) s)"

definition update_store :: "string \<Rightarrow> TaskRecord \<Rightarrow> disk_outcome \<Rightarrow> taskService \<Rightarrow> taskService" where
  "update_store i r disk s =
     (case disk of
        DiskOk \<Rightarrow> s\<lparr>docs := (docs s)(i \<mapsto> r), durable := (durable s)(i \<mapsto> r)\<rparr>
      | DiskUnconfirmed \<Rightarrow> s\<lparr>docs := (docs s)(i \<mapsto> r)\<rparr>
      | DiskFailed \<Rightarrow> s)"

definition writer_take :: "instant \<Rightarrow> string \<Rightarrow> taskService \<Rightarrow> taskService" where
  "writer_take now i s =
     (case tasks s i of
        None \<Rightarrow> s
      | Some e \<Rightarrow>
          if \<not> te_writer e \<or> jobs s i \<noteq> None then s
          else (case nextJobLocked now i s of
              (s', _, True) \<Rightarrow> modE i (\<lambda>e. e\<lparr>te_writer := False\<rparr>) s'
            | (s', Some j, False) \<Rightarrow> s'\<lparr>jobs := (jobs s')(i \<mapsto> j)\<rparr>
            | (s', None, False) \<Rightarrow> if svc_closed s' then modE i (\<lambda>e. e\<lparr>te_writer := False\<rparr>) s' else s'))"

definition writer_write :: "bool \<Rightarrow> disk_outcome \<Rightarrow> instant \<Rightarrow> string \<Rightarrow> taskService \<Rightarrow> taskService" where
  "writer_write readOk disk now i s =
     (case jobs s i of
        None \<Rightarrow> s
      | Some j \<Rightarrow>
          let s0 = s\<lparr>jobs := (jobs s)(i := None)\<rparr> in
          (case (if pj_kind j = JobLate then composeLate readOk i j s else Inr j) of
             Inl _ \<Rightarrow> applyLocked now i j DiskFailed s0
           | Inr j' \<Rightarrow> applyLocked now i j' disk (update_store i (pj_rec j') disk s0)))"

subsection \<open>The sweep\<close>

definition prepareTimeout :: TaskReason where
  "prepareTimeout = \<lparr>tr_Code = ''workspace_prepare_timeout'',
     tr_Message = ''the worker did not prepare the task's workspace within 5m0s''\<rparr>"

definition expire_preparation :: "instant \<Rightarrow> string \<Rightarrow> taskService \<Rightarrow> taskService" where
  "expire_preparation now i s =
     (case tasks s i of
        None \<Rightarrow> s
      | Some e \<Rightarrow>
          if te_preparing e \<and> \<not> te_started e \<and> undecided e \<and> \<not> before now (te_prepDeadline e)
          then latchRefusalLocked now prepareTimeout i (put i (e\<lparr>te_preparing := False\<rparr>) s) else s)"

definition expirePreparationsLocked :: "instant \<Rightarrow> taskService \<Rightarrow> taskService" where
  "expirePreparationsLocked now s = fold (expire_preparation now) (task_ids s) s"

definition commit_since :: "taskEntry \<Rightarrow> instant option" where
  "commit_since e =
     (case te_cand e of
        Some c \<Rightarrow> Some (cd_at c)
      | None \<Rightarrow> (case te_late e of Some l \<Rightarrow> Some (lc_at l) | None \<Rightarrow> map_option s_RequestedAt (te_pendingIntent e)))"

definition tick_task :: "instant \<Rightarrow> string \<Rightarrow> taskService \<Rightarrow> taskService" where
  "tick_task now i s =
     (case tasks s i of
        None \<Rightarrow> s
      | Some e \<Rightarrow>
          let s1 = (case commit_since e of
                      Some t \<Rightarrow> if \<not> te_watchdog e \<and> \<not> now < t + commitWatchdog
                               then refreshLocked i (put i (e\<lparr>te_watchdog := True\<rparr>) s) else s
                    | None \<Rightarrow> s)
          in if te_writer e \<and> ((te_fault e \<and> \<not> before now (te_retryAt e)) \<or> (te_logDirty e \<and> checkpoint_due now e))
             then wakeLocked i s1 else s1)"

text \<open>The flag says the sweep goes on to \<open>resyncStore\<close>.\<close>

definition tick :: "instant \<Rightarrow> taskService \<Rightarrow> taskService \<times> bool" where
  "tick now s =
     (let s1 = fold (tick_task now) (task_ids s) s in
      (expirePreparationsLocked now s1,
       list_ex (\<lambda>i. case tasks s1 i of None \<Rightarrow> False | Some e \<Rightarrow> \<not> te_confirmed e \<and> \<not> before now (te_retryAt e)) (task_ids s)))"

end
