(* ===== verification/Task_Recon.thy ===== *)
theory Task_Recon
  imports Task_Writer
begin

section \<open>Receipt, losses and reconciliation\<close>

text \<open>
  \<open>internal/plane/task_recon.go\<close>: output and results received from a worker, the lost decisions of
  lease and startup-grace expiry, and the inventory exchange of a new attachment.
\<close>

subsection \<open>Output\<close>

record TaskLogBody =
  tl_TaskID :: string
  tl_Execution :: ExecutionToken
  tl_LateDigest :: "string option"
  tl_Offset :: int
  tl_Data :: bytes

definition receive_primary :: "TaskLogBody \<Rightarrow> string \<Rightarrow> taskEntry \<Rightarrow> planeLog \<Rightarrow> taskService \<Rightarrow> taskService \<times> int res" where
  "receive_primary b i e l s =
     (case (if tl_LateDigest b \<noteq> None then appendReplay l (tl_Offset b) (tl_Data b) else append_log l (tl_Offset b) (tl_Data b)) of
        (l', Inl err) \<Rightarrow> (put i (e\<lparr>te_ring := Some l'\<rparr>) s, Inl err)
      | (l', Inr nx) \<Rightarrow> (put i (e\<lparr>te_ring := Some l', te_logDirty := True\<rparr>) s, Inr nx))"

definition receive_late :: "TaskLogBody \<Rightarrow> string \<Rightarrow> taskEntry \<Rightarrow> taskService \<Rightarrow> taskService \<times> int res" where
  "receive_late b i e s =
     (let l = (case te_lateRing e of None \<Rightarrow> newPlaneLogAt (tl_Offset b) | Some l \<Rightarrow> l);
          (l', r) = appendReplay l (tl_Offset b) (tl_Data b)
      in (put i (e\<lparr>te_lateRing := Some l'\<rparr>) s, r))"

definition receiveLog :: "instant \<Rightarrow> string \<Rightarrow> nat \<Rightarrow> TaskLogBody \<Rightarrow> taskService \<Rightarrow> taskService \<times> int res" where
  "receiveLog now node gen b s0 =
     (let i = tl_TaskID b in
      case authorizedLocked now node gen i (tl_Execution b) s0 of
        (s, Inl err) \<Rightarrow> (s, Inl err)
      | (s, Inr e) \<Rightarrow>
          (case tl_LateDigest b of
             None \<Rightarrow>
               (case te_ring e of
                  Some l \<Rightarrow> if \<not> undecided e \<or> te_lateOK e then (s, errInvalid) else receive_primary b i e l s
                | None \<Rightarrow> (s, errInvalid))
           | Some d \<Rightarrow>
               if \<not> te_lateOK e then (s, errInvalid)
               else if te_lateBound e \<noteq> '''' \<and> te_lateBound e \<noteq> d then (s, errInvalid)
               else let e1 = e\<lparr>te_lateBound := d\<rparr> in
                 (case te_ring e of
                    Some l \<Rightarrow> if undecided e then receive_primary b i e1 l s else receive_late b i e1 s
                  | None \<Rightarrow> receive_late b i e1 s)))"

subsection \<open>Results\<close>

definition workspace_matches :: "WorkspaceBinding option \<Rightarrow> TaskWorkspaceResult option \<Rightarrow> bool" where
  "workspace_matches bw w =
     (case (bw, w) of
        (None, None) \<Rightarrow> True
      | (Some b, Some x) \<Rightarrow> w_Name x = b_Name b \<and> w_Instance x = b_Instance b \<and> sameHash (w_BaseCommit x) (b_BaseCommit b)
      | _ \<Rightarrow> False)"

definition claims_published :: "TaskWorkspaceResult option \<Rightarrow> bool" where
  "claims_published w = (case w of None \<Rightarrow> False | Some x \<Rightarrow> w_Publication x = PublicationPublished)"

definition result_conflict :: "'a res" where "result_conflict = Inl (Error CodeConflict ''result_conflict'')"

text \<open>The worker's launch fact precedes its outcome: running is published before the terminal record.\<close>

definition note_launch :: "TaskResultBody \<Rightarrow> instant \<Rightarrow> taskEntry \<Rightarrow> taskEntry" where
  "note_launch b now e =
     (let complete = (r_Outcome b \<noteq> OutcomeLost);
          ran = (r_Outcome b = OutcomeNatural \<or> r_Outcome b = OutcomeTimedOut
                 \<or> (complete \<and> (r_ExitCode b \<noteq> None \<or> r_Signal b \<noteq> None)))
      in if \<not> te_started e \<and> StartedAt (te_rec e) = None \<and> ran
         then e\<lparr>te_started := True, te_needRunning := True, te_startedAt := now\<rparr> else e)"

definition latch_result :: "TaskResultBody \<Rightarrow> instant \<Rightarrow> taskEntry \<Rightarrow> taskEntry" where
  "latch_result b now e0 =
     (let (e, o', k) = resultOutcome (note_launch b now e0) b now in
      e\<lparr>te_cand := Some \<lparr>cd_kind = k, cd_outcome = o', cd_at = now, cd_digest = r_Digest b, cd_pub = None, cd_workspace = r_Workspace b\<rparr>,
        te_reconciling := False\<rparr>)"

definition late_log :: "TaskResultBody \<Rightarrow> taskEntry \<Rightarrow> TaskLog" where
  "late_log b e =
     (case te_lateRing e of
        Some l \<Rightarrow> snd (finalize_log l (r_OutputBytes b) (r_LogIncomplete b \<or> r_OutputBytes b < pl_next l) (r_CounterOverflow b))
      | None \<Rightarrow> \<lparr>Data = [], SourceBytes = r_OutputBytes b, ReceivedBytes = 0, Incomplete = r_OutputBytes b > 0, CounterOverflow = False\<rparr>)"

definition latch_late :: "TaskResultBody \<Rightarrow> instant \<Rightarrow> taskEntry \<Rightarrow> taskEntry" where
  "latch_late b now e = e\<lparr>te_late := Some \<lparr>lc_result = b, lc_at = now, lc_log = late_log b e\<rparr>, te_lateRing := None\<rparr>"

definition short_primary :: "TaskResultBody \<Rightarrow> taskEntry \<Rightarrow> bool" where
  "short_primary b e = (case te_ring e of None \<Rightarrow> False | Some l \<Rightarrow> r_OutputBytes b < pl_next l \<and> r_Outcome b \<noteq> OutcomeLost)"

definition short_late :: "TaskResultBody \<Rightarrow> taskEntry \<Rightarrow> bool" where
  "short_late b e = (case te_lateRing e of None \<Rightarrow> False | Some l \<Rightarrow> r_OutputBytes b < pl_next l \<and> r_Outcome b = OutcomeNatural)"

definition names_other_stop :: "TaskResultBody \<Rightarrow> taskEntry \<Rightarrow> bool" where
  "names_other_stop b e =
     (case r_StopID b of None \<Rightarrow> False
      | Some x \<Rightarrow> (case intentLocked e of None \<Rightarrow> True | Some si \<Rightarrow> s_ID si \<noteq> x))"

definition same_recorded :: "string \<Rightarrow> taskEntry \<Rightarrow> bool" where
  "same_recorded d e \<longleftrightarrow>
     (case te_cand e of None \<Rightarrow> False | Some c \<Rightarrow> cd_digest c = d)
     \<or> (case te_late e of None \<Rightarrow> False | Some l \<Rightarrow> r_Digest (lc_result l) = d)
     \<or> (terminal e \<and> ResultDigest (te_rec e) = Some d)
     \<or> (terminal e \<and> (case Late (te_rec e) of None \<Rightarrow> False | Some l \<Rightarrow> l_Digest l = d))"

definition other_recorded :: "taskEntry \<Rightarrow> bool" where
  "other_recorded e \<longleftrightarrow>
     (case te_cand e of None \<Rightarrow> False | Some c \<Rightarrow> cd_digest c \<noteq> '''')
     \<or> (terminal e \<and> ResultDigest (te_rec e) \<noteq> None) \<or> te_late e \<noteq> None \<or> (terminal e \<and> Late (te_rec e) \<noteq> None)"

definition capture_result :: "instant \<Rightarrow> TaskResultBody \<Rightarrow> string \<Rightarrow> taskEntry \<Rightarrow> taskService \<Rightarrow> taskService \<times> bool res" where
  "capture_result now b i e s =
     (if committedLocked e (r_Digest b) then (s, Inr True)
      else if same_recorded (r_Digest b) e then (s, Inr False)
      else if names_other_stop b e then (s, errInvalid)
      else if other_recorded e then (s, result_conflict)
      else if undecided e then
        (if short_primary b e then (s, errInvalid)
         else (settle_entry i (latch_result b now) s, Inr False))
      else if short_late b e then (s, errInvalid)
      else (settle_entry i (latch_late b now) s, Inr False))"

definition receiveResult :: "instant \<Rightarrow> string \<Rightarrow> nat \<Rightarrow> TaskResultBody \<Rightarrow> taskService \<Rightarrow> taskService \<times> bool res" where
  "receiveResult now node gen b s0 =
     (let i = r_TaskID b; d = r_Digest b in
      case authorizedLocked now node gen i (r_Execution b) s0 of
        (s, Inl err) \<Rightarrow> (s, Inl err)
      | (s, Inr e) \<Rightarrow>
          if \<not> workspace_matches (Workspace (te_rec e)) (r_Workspace b) then (s, errInvalid)
          else if claims_published (r_Workspace b) \<and> \<not> committedLocked e d \<and> \<not> (terminal e \<and> ResultDigest (te_rec e) = Some d)
          then (s, errInvalid)
          else if publishingLocked e then (s, Inr False)
          else capture_result now b i e s)"

subsection \<open>Losses\<close>

definition loss_message :: "string \<Rightarrow> string" where
  "loss_message reason = (if reason = ''startup_grace_expired''
     then ''the node did not reconnect within the plane's startup reconciliation grace''
     else ''the node's lease expired before the execution's outcome was confirmed'')"

definition loss_hits :: "lossFact \<Rightarrow> taskEntry \<Rightarrow> bool" where
  "loss_hits f e \<longleftrightarrow> \<not> (r_Node (Role (te_rec e)) \<noteq> lf_node f \<or> te_seq e > lf_maxSeq f \<or> (lf_loadedOnly f \<and> \<not> te_loaded e))"

definition loss_task :: "instant \<Rightarrow> lossFact \<Rightarrow> string \<Rightarrow> taskService \<Rightarrow> taskService" where
  "loss_task now f i s =
     (case tasks s i of
        None \<Rightarrow> s
      | Some e \<Rightarrow> if loss_hits f e then latchLostLocked now (lf_reason f) (loss_message (lf_reason f)) i s else s)"

definition apply_loss :: "instant \<Rightarrow> lossFact \<Rightarrow> taskService \<Rightarrow> taskService" where
  "apply_loss now f s = fold (loss_task now f) (task_ids s) s"

definition applyLossesLocked :: "instant \<Rightarrow> taskService \<Rightarrow> taskService" where
  "applyLossesLocked now s = fold (apply_loss now) (losses (reg s)) (s\<lparr>reg := (reg s)\<lparr>losses := []\<rparr>\<rparr>)"

definition graceNodes :: "taskService \<Rightarrow> string list" where
  "graceNodes s = map (\<lambda>i. r_Node (Role (te_rec (the (tasks s i)))))
     (filter (\<lambda>i. case tasks s i of None \<Rightarrow> False | Some e \<Rightarrow> te_loaded e \<and> \<not> terminal e) (task_ids s))"

subsection \<open>Inventory\<close>

datatype phase = PhasePreparing | PhaseRunning | PhaseResult | PhaseLost

datatype recon_action = ActionContinue | ActionStopLost | ActionSendResult | ActionForget | ActionStopControl

record TaskInventoryEntry =
  in_TaskID :: string
  in_Execution :: ExecutionToken
  in_StartDigest :: string
  in_Phase :: phase
  in_StartedAt :: "instant option"
  in_ResultDigest :: "string option"

record TaskInventoryBody =
  ib_RunID :: string
  ib_Page :: int
  ib_Final :: bool
  ib_Entries :: "TaskInventoryEntry list"

record TaskReconcileEntry =
  re_TaskID :: string
  re_Execution :: ExecutionToken
  re_Action :: recon_action
  re_Stop :: "StopIntent option"

record TaskReconcileBody =
  rb_Entries :: "TaskReconcileEntry list"
  rb_Final :: bool

record reconciliation =
  rc_next :: int
  rc_runID :: string
  rc_final :: bool
  rc_actions :: "string \<Rightarrow> TaskReconcileEntry option"
  rc_order :: "string list"
  rc_pages :: "TaskReconcileBody list"
  rc_unknown :: "string set"

definition newReconciliation :: reconciliation where
  "newReconciliation = \<lparr>rc_next = 0, rc_runID = '''', rc_final = False, rc_actions = (\<lambda>_. None), rc_order = [], rc_pages = [], rc_unknown = {}\<rparr>"

definition MaxReconcileEntries :: nat where "MaxReconcileEntries = 64"

definition active_phase :: "phase \<Rightarrow> bool" where
  "active_phase p \<longleftrightarrow> p = PhasePreparing \<or> p = PhaseRunning"

text \<open>The entry an undecided task continues with on attachment \<open>gen\<close>, and whether a launch fact was learnt.\<close>

definition resume_entry :: "nat \<Rightarrow> bool \<Rightarrow> taskEntry \<Rightarrow> taskEntry" where
  "resume_entry gen act e =
     (let e1 = e\<lparr>te_rgen := gen, te_lateOK := \<not> act, te_lateBound := '''', te_reconciling := False,
                 te_send := (if te_send e = sendSending then sendReplied else te_send e)\<rparr>
      in if te_ring e = None then e1\<lparr>te_ring := Some (newPlaneLogFrom (Log (te_rec e))), te_rec := clear_log (te_rec e)\<rparr> else e1)"

definition learns_launch :: "TaskInventoryEntry \<Rightarrow> taskEntry \<Rightarrow> bool" where
  "learns_launch ie e \<longleftrightarrow> in_Phase ie = PhaseRunning \<and> in_StartedAt ie \<noteq> None \<and> \<not> te_started e \<and> StartedAt (te_rec e) = None"

definition disposeLocked :: "instant \<Rightarrow> nat \<Rightarrow> TaskInventoryEntry \<Rightarrow> string \<Rightarrow> taskEntry \<Rightarrow> taskService \<Rightarrow> taskService \<times> recon_action" where
  "disposeLocked now gen ie i e s =
     (let act = active_phase (in_Phase ie) in
      if undecided e then
        (let e1 = resume_entry gen act e;
             s1 = (if learns_launch ie e
                   then wakeLocked i (put i (e1\<lparr>te_started := True, te_startedAt := the (in_StartedAt ie), te_needRunning := True\<rparr>) s)
                   else put i e1 s);
             s2 = refreshLocked i s1
         in if act \<and> te_intentDurable e
            then (wantControlLocked i (modE i (\<lambda>e. e\<lparr>te_ctlDue := Some (now + storageRetry)\<rparr>) s2), ActionStopControl)
            else (s2, if act then ActionContinue else ActionSendResult))
      else if (case in_ResultDigest ie of None \<Rightarrow> False | Some d \<Rightarrow> committedLocked e d) then (s, ActionForget)
      else if act \<and> in_ResultDigest ie = None
              \<and> (case Publication (te_rec e) of None \<Rightarrow> False | Some p \<Rightarrow> p_Phase p = PubPhaseSettled)
      then (put i (e\<lparr>te_rgen := gen, te_lateOK := False, te_lateBound := ''''\<rparr>) s, ActionContinue)
      else (put i (e\<lparr>te_rgen := gen, te_lateOK := True,
                     te_lateBound := (case in_ResultDigest ie of None \<Rightarrow> '''' | Some d \<Rightarrow> d)\<rparr>) s,
            if act then ActionStopLost else ActionSendResult))"

definition record_action :: "string \<Rightarrow> TaskReconcileEntry \<Rightarrow> reconciliation \<Rightarrow> reconciliation" where
  "record_action i ent rc = rc\<lparr>rc_actions := (rc_actions rc)(i \<mapsto> ent), rc_order := rc_order rc @ [i]\<rparr>"

definition inventory_entry :: "instant \<Rightarrow> string \<Rightarrow> nat \<Rightarrow> TaskInventoryEntry \<Rightarrow> taskService \<times> reconciliation
    \<Rightarrow> (taskService \<times> reconciliation) \<times> unit res" where
  "inventory_entry now node gen ie sr =
     (let s = fst sr; rc = snd sr; i = in_TaskID ie in
      if rc_actions rc i \<noteq> None then (sr, errInvalid)
      else (case tasks s i of
          None \<Rightarrow>
            ((s\<lparr>reg := markUnknown node gen (reg s)\<rparr>,
              (record_action i \<lparr>re_TaskID = i, re_Execution = in_Execution ie, re_Action = ActionStopLost, re_Stop = None\<rparr> rc)
                \<lparr>rc_unknown := insert i (rc_unknown rc)\<rparr>), Inr ())
        | Some e \<Rightarrow>
            if r_Node (Role (te_rec e)) \<noteq> node \<or> Execution (te_rec e) \<noteq> in_Execution ie then (sr, errInvalid)
            else if StartDigest (te_rec e) \<noteq> Some (in_StartDigest ie) then (sr, errInvalid)
            else let e1 = e\<lparr>te_seen := gen\<rparr>;
                     (s1, a) = disposeLocked now gen ie i e1 (put i e1 s)
                 in ((s1, record_action i \<lparr>re_TaskID = i, re_Execution = in_Execution ie, re_Action = a,
                        re_Stop = (if a = ActionStopControl then rec_StopIntent (te_rec e) else None)\<rparr> rc), Inr ())))"

fun inventory_entries :: "instant \<Rightarrow> string \<Rightarrow> nat \<Rightarrow> TaskInventoryEntry list \<Rightarrow> taskService \<times> reconciliation
    \<Rightarrow> (taskService \<times> reconciliation) \<times> unit res" where
  "inventory_entries now node gen [] sr = (sr, Inr ())"
| "inventory_entries now node gen (ie # ies) sr =
     (case inventory_entry now node gen ie sr of
        (sr', Inl e) \<Rightarrow> (sr', Inl e)
      | (sr', Inr _) \<Rightarrow> inventory_entries now node gen ies sr')"

definition missing_task :: "instant \<Rightarrow> string \<Rightarrow> nat \<Rightarrow> string \<Rightarrow> taskService \<Rightarrow> taskService" where
  "missing_task now node gen i s =
     (case tasks s i of
        None \<Rightarrow> s
      | Some e \<Rightarrow>
          if r_Node (Role (te_rec e)) \<noteq> node \<or> \<not> undecided e \<or> te_seen e = gen then s
          else if te_loaded e \<or> te_send e = sendSending \<or> te_send e = sendReplied
          then latchLostLocked now ''execution_missing'' ''the node's complete inventory does not hold this execution'' i s
          else s)"

text \<open>The reconcile pages: at most \<open>MaxReconcileEntries\<close> entries each, in task ID order; a first page even when empty.\<close>

function build_pages :: "(string \<Rightarrow> TaskReconcileEntry) \<Rightarrow> string list \<Rightarrow> TaskReconcileBody list \<Rightarrow> TaskReconcileBody list" where
  "build_pages f ids pages =
     (if ids = [] \<and> pages \<noteq> [] then pages
      else let n = min (length ids) MaxReconcileEntries;
               rest = drop n ids
           in build_pages f rest (pages @ [\<lparr>rb_Entries = map f (take n ids), rb_Final = (rest = [])\<rparr>]))"
  by pat_completeness auto
termination
  by (relation "measure (\<lambda>(f, ids, pages). length ids + (if pages = [] then 1 else 0))")
     (auto simp: MaxReconcileEntries_def)

declare build_pages.simps [simp del]

definition inventory_final :: "instant \<Rightarrow> string \<Rightarrow> nat \<Rightarrow> taskService \<times> reconciliation \<Rightarrow> taskService \<times> reconciliation" where
  "inventory_final now node gen sr =
     (let s = fst sr; rc = snd sr in
      (fold (missing_task now node gen) (task_ids s) s,
       rc\<lparr>rc_final := True, rc_pages := build_pages (\<lambda>i. the (rc_actions rc i)) (sort (rc_order rc)) (rc_pages rc)\<rparr>))"

definition inventory :: "instant \<Rightarrow> string \<Rightarrow> nat \<Rightarrow> TaskInventoryBody \<Rightarrow> taskService \<times> reconciliation
    \<Rightarrow> (taskService \<times> reconciliation) \<times> unit res" where
  "inventory now node gen b sr0 =
     (let s0 = fst sr0; rc0 = snd sr0 in
      if rc_final rc0 then (sr0, errInvalid)
      else if ib_Page b \<noteq> rc_next rc0 then (sr0, errInvalid)
      else if rc_next rc0 > 0 \<and> ib_RunID b \<noteq> rc_runID rc0 then (sr0, errInvalid)
      else let rc = rc0\<lparr>rc_runID := ib_RunID b, rc_next := rc_next rc0 + 1\<rparr>;
               (s, ok) = liveAttachment now node gen (applyLossesLocked now s0)
           in if \<not> ok then ((s, rc), Inl (Error (if closed (reg s) then CodeUnavailable else CodeInvalidArgument) ''''))
              else (case inventory_entries now node gen (ib_Entries b) (s, rc) of
                  (sr, Inl e) \<Rightarrow> (sr, Inl e)
                | (sr, Inr _) \<Rightarrow> (if ib_Final b then inventory_final now node gen sr else sr, Inr ())))"

subsection \<open>Reads\<close>

definition logOfLocked :: "taskEntry \<Rightarrow> TaskLog \<times> nat" where
  "logOfLocked e =
     (case te_cand e of
        Some c \<Rightarrow> if cd_kind c \<noteq> candRefusal then (to_log (cd_outcome c), length (Data (to_log (cd_outcome c))))
                  else (case te_ring e of Some l \<Rightarrow> meta_log l | None \<Rightarrow> (Log (te_rec e), te_retained e))
      | None \<Rightarrow> (case te_ring e of Some l \<Rightarrow> meta_log l | None \<Rightarrow> (Log (te_rec e), te_retained e)))"

text \<open>One page of the listing: the IDs after the exclusive cursor, and the next cursor when more remain.\<close>

definition list_page :: "string \<Rightarrow> nat \<Rightarrow> taskService \<Rightarrow> string list \<times> string option" where
  "list_page after limit s =
     (let rest0 = dropWhile (\<lambda>x. x < after) (task_ids s);
          rest = (case rest0 of [] \<Rightarrow> [] | x # xs \<Rightarrow> if x = after then xs else rest0);
          out = take limit rest in
      (out, if length rest > limit \<and> out \<noteq> [] then Some (last out) else None))"

end
