(* ===== verification/Task_Controls.thy ===== *)
theory Task_Controls
  imports Task_Recon
begin

section \<open>Cancellation, control delivery, waits and workspace publication\<close>

text \<open>
  \<open>internal/plane/task_controls.go\<close> and the task authority of \<open>internal/plane/task_workspace.go\<close>.
  A request that waits for durability is modelled by its critical sections: the decision at entry,
  and the condition it rechecks after each wake.
\<close>

subsection \<open>Cancel\<close>

definition selectIntentLocked :: "instant \<Rightarrow> string \<Rightarrow> string \<Rightarrow> taskService \<Rightarrow> taskService" where
  "selectIntentLocked now i sid s =
     (case tasks s i of
        None \<Rightarrow> s
      | Some e \<Rightarrow>
          let e1 = e\<lparr>te_pendingIntent := Some \<lparr>s_ID = sid, s_Kind = ''cancelled'', s_RequestedAt = now\<rparr>\<rparr>;
              s1 = (if definitelyUnsentLocked e1
                    then latchCancelledBeforeStartLocked now i (release_token (te_res e) (put i (e1\<lparr>te_send := sendUnsent\<rparr>) s))
                    else put i e1 s)
          in wakeLocked i (refreshLocked i s1))"

definition may_select :: "taskEntry \<Rightarrow> bool" where
  "may_select e \<longleftrightarrow> intentLocked e = None \<and> undecided e \<and> \<not> publishingLocked e"

text \<open>
  The first critical section of \<open>cancel\<close>: the new state with \<open>(durableTerminal, withIntent)\<close>, the
  request's own resolution, or the abort of a caller that was cancelled before selection.
\<close>

definition cancel :: "instant \<Rightarrow> bool \<Rightarrow> string \<Rightarrow> string \<Rightarrow> taskService \<Rightarrow> taskService \<times> (bool \<times> bool) res" where
  "cancel now ctxOk i sid s =
     (case tasks s i of
        None \<Rightarrow> (s, Inl (Error CodeNotFound ''''))
      | Some e \<Rightarrow>
          if terminal e \<and> te_released e then (s, Inr (True, False))
          else if may_select e
          then (if \<not> ctxOk then (s, Inl (Error CodeUnavailable '''')) else (selectIntentLocked now i sid s, Inr (False, True)))
          else (s, Inr (False, intentLocked e \<noteq> None)))"

definition cancel_done :: "bool \<times> bool \<Rightarrow> taskEntry \<Rightarrow> bool" where
  "cancel_done d e \<longleftrightarrow> fst d \<or> (snd d \<and> te_intentDurable e) \<or> (\<not> snd d \<and> terminal e \<and> te_released e)"

definition requestCancel :: "instant \<Rightarrow> string \<Rightarrow> string \<Rightarrow> taskService \<Rightarrow> taskService" where
  "requestCancel now i sid s =
     (case tasks s i of
        None \<Rightarrow> s
      | Some e \<Rightarrow> if \<not> may_select e then s else selectIntentLocked now i sid s)"

subsection \<open>Control delivery\<close>

definition ctl_dead :: "taskService \<Rightarrow> string \<Rightarrow> bool" where
  "ctl_dead s i = (case tasks s i of None \<Rightarrow> True | Some e \<Rightarrow> \<not> te_intentDurable e \<or> terminal e \<or> te_cand e \<noteq> None)"

definition ctl_ready :: "instant \<Rightarrow> nat \<Rightarrow> taskService \<Rightarrow> string \<Rightarrow> bool" where
  "ctl_ready now gen s i =
     (case tasks s i of None \<Rightarrow> False
      | Some e \<Rightarrow> te_rgen e = gen \<and> \<not> te_ctlInflight e \<and> \<not> before now (te_ctlDue e))"

definition ctl_later :: "instant \<Rightarrow> nat \<Rightarrow> taskService \<Rightarrow> string \<Rightarrow> instant option" where
  "ctl_later now gen s i =
     (case tasks s i of None \<Rightarrow> None
      | Some e \<Rightarrow> if te_rgen e = gen \<and> \<not> te_ctlInflight e \<and> before now (te_ctlDue e) then te_ctlDue e else None)"

definition min_opt :: "instant option \<Rightarrow> instant option \<Rightarrow> instant option" where
  "min_opt a b = (case a of None \<Rightarrow> b | Some x \<Rightarrow> (case b of None \<Rightarrow> a | Some y \<Rightarrow> if y < x then b else a))"

definition ctl_rotation :: "string \<Rightarrow> string list \<Rightarrow> string list" where
  "ctl_rotation lst ids =
     (let k = length (takeWhile (\<lambda>x. x < lst) ids);
          k' = (if k < length ids \<and> ids ! k = lst then k + 1 else k)
      in rotate k' ids)"

definition takeControl :: "string \<Rightarrow> nat \<Rightarrow> instant \<Rightarrow> string \<Rightarrow> taskService \<Rightarrow> taskService \<times> (string \<times> StopIntent option) option \<times> instant option" where
  "takeControl node gen now lst s =
     (let ids = ctl_rotation lst (sorted_list_of_set (ctlNodes s node));
          alive = filter (\<lambda>i. \<not> ctl_dead s i) ids;
          s1 = s\<lparr>ctlNodes := (ctlNodes s)(node := set alive)\<rparr>;
          nx = foldl (\<lambda>a i. min_opt a (ctl_later now gen s i)) None alive
      in case find (ctl_ready now gen s) alive of
           None \<Rightarrow> (s1, None, nx)
         | Some i \<Rightarrow> (modE i (\<lambda>e. e\<lparr>te_ctlInflight := True\<rparr>) s1,
                      Some (i, rec_StopIntent (te_rec (the (tasks s i)))), nx))"

definition controlDone :: "string \<Rightarrow> bool \<Rightarrow> instant \<Rightarrow> taskService \<Rightarrow> taskService" where
  "controlDone i acked at s =
     modE i (\<lambda>e. e\<lparr>te_ctlInflight := False, te_ctlDue := (if acked then Some (at + storageRetry) else te_ctlDue e)\<rparr>) s"

subsection \<open>Bounded waits\<close>

definition registerWaitLocked :: "string list \<Rightarrow> taskService \<Rightarrow> taskService \<times> nat" where
  "registerWaitLocked ids s =
     (let r = nextReg s in
      (fold (\<lambda>j. modE j (\<lambda>e. e\<lparr>te_waitRegs := te_waitRegs e @ [r]\<rparr>)) ids
         (s\<lparr>regs := (regs s)(r \<mapsto> \<lparr>wr_ids = ids, wr_winner = '''', wr_done = False\<rparr>), waits := insert r (waits s), nextReg := r + 1\<rparr>), r))"

definition wait_capacity :: "'a res" where "wait_capacity = Inl (Error CodeUnavailable ''wait_capacity'')"

definition wait_full :: "taskService \<Rightarrow> bool" where
  "wait_full s \<longleftrightarrow> int (card (waits s)) + waitReserve s \<ge> int maxWaitCalls"

definition reserveWait :: "taskService \<Rightarrow> taskService \<times> nat res" where
  "reserveWait s =
     (if wait_full s then (s, wait_capacity)
      else (s\<lparr>waitReserve := waitReserve s + 1, reservations := (reservations s)(nextReservation s \<mapsto> False),
              nextReservation := nextReservation s + 1\<rparr>, Inr (nextReservation s)))"

definition releaseLocked :: "nat option \<Rightarrow> taskService \<Rightarrow> taskService" where
  "releaseLocked rv s =
     (case rv of
        None \<Rightarrow> s
      | Some r \<Rightarrow> if reservations s r = Some False
                 then s\<lparr>reservations := (reservations s)(r \<mapsto> True), waitReserve := waitReserve s - 1\<rparr> else s)"

definition effectiveWait :: "taskService \<Rightarrow> duration \<Rightarrow> duration" where
  "effectiveWait s requested = min requested (maxWait s)"

definition millisecond :: duration where "millisecond = 1000000"

text \<open>Go's integer division truncates toward zero; a wait is never negative.\<close>

definition ceilMS :: "duration \<Rightarrow> int" where
  "ceilMS d = (d + millisecond - 1) div millisecond"

definition confirmedTerminalLocked :: "string list \<Rightarrow> taskService \<Rightarrow> string option" where
  "confirmedTerminalLocked ids s =
     find (\<lambda>i. case tasks s i of None \<Rightarrow> False | Some e \<Rightarrow> terminal e \<and> te_released e) ids"

datatype wait_step = WaitWinner string | WaitRegistered nat | WaitSnapshot

definition wait_begin :: "string list \<Rightarrow> duration \<Rightarrow> nat option \<Rightarrow> taskService \<Rightarrow> taskService \<times> wait_step res" where
  "wait_begin ids requested reserved s =
     (if list_ex (\<lambda>i. tasks s i = None) ids then (releaseLocked reserved s, Inl (Error CodeNotFound ''''))
      else (case confirmedTerminalLocked ids s of
          Some w \<Rightarrow> (releaseLocked reserved s, Inr (WaitWinner w))
        | None \<Rightarrow>
            if effectiveWait s requested > 0 then
              (if reserved = None \<and> wait_full s then (s, wait_capacity)
               else let (s1, r) = registerWaitLocked ids s in (releaseLocked reserved s1, Inr (WaitRegistered r)))
            else (releaseLocked reserved s, Inr WaitSnapshot)))"

text \<open>The answering critical section of a registered wait; \<open>ctxErr\<close>: the caller went away.\<close>

definition wait_decide :: "nat \<Rightarrow> bool \<Rightarrow> taskService \<Rightarrow> taskService \<times> wait_step res" where
  "wait_decide r ctxErr s =
     (case regs s r of
        None \<Rightarrow> (s, Inl (Cause ''no registration''))
      | Some w \<Rightarrow>
          let s1 = dropWaitLocked r s in
          if wr_winner w \<noteq> '''' then (s1, Inr (WaitWinner (wr_winner w)))
          else (case confirmedTerminalLocked (wr_ids w) s1 of
              Some x \<Rightarrow> (s1, Inr (WaitWinner x))
            | None \<Rightarrow>
                if ctxErr then (s1, Inl (Cause ''context''))
                else if svc_closed s1 then (s1, Inl (Error CodeUnavailable ''''))
                else (s1, Inr WaitSnapshot)))"

subsection \<open>Preparation\<close>

record TaskPreparedBody =
  tp_TaskID :: string
  tp_Execution :: ExecutionToken
  tp_StartDigest :: string
  tp_Error :: "TaskReason option"

datatype prepared_answer = PreparedWait nat | PreparedRelease | PreparedRefuse

definition cancelledBeforeRelease :: TaskReason where
  "cancelledBeforeRelease = \<lparr>tr_Code = ''workspace_prepare_timeout'', tr_Message = ''cancelled before release''\<rparr>"

definition prep_deadline :: "taskEntry \<Rightarrow> instant" where
  "prep_deadline e = (case te_prepDeadline e of Some d \<Rightarrow> d | None \<Rightarrow> CreatedAt (te_rec e) + (startControl + WorkspacePrepareTimeout))"

definition wait_prepared :: "string \<Rightarrow> taskService \<Rightarrow> taskService \<times> prepared_answer" where
  "wait_prepared i s = (let (s', c) = waiterLocked i s in (s', PreparedWait c))"

definition preparedLocked :: "instant \<Rightarrow> TaskPreparedBody \<Rightarrow> string \<Rightarrow> taskEntry \<Rightarrow> taskService \<Rightarrow> taskService \<times> prepared_answer" where
  "preparedLocked now b i e s =
     (if \<not> undecided e then (s, PreparedRefuse)
      else if te_started e \<or> StartedAt (te_rec e) \<noteq> None then
        (if te_needRunning e \<or> \<not> te_confirmed e \<or> State (te_rec e) = TaskPending then wait_prepared i s else (s, PreparedRelease))
      else (case tp_Error b of
          Some r \<Rightarrow> (latchRefusalLocked now (r\<lparr>tr_Message := sanitizeReason (tr_Message r)\<rparr>) i s, PreparedRefuse)
        | None \<Rightarrow>
            if intentLocked e \<noteq> None then (latchRefusalLocked now cancelledBeforeRelease i s, PreparedRefuse)
            else if \<not> now < prep_deadline e then (latchRefusalLocked now prepareTimeout i s, PreparedRefuse)
            else wait_prepared i (settle_entry i
                   (\<lambda>e. e\<lparr>te_started := True, te_needRunning := True, te_startedAt := now, te_preparing := False\<rparr>) s)))"

definition prepared :: "instant \<Rightarrow> string \<Rightarrow> nat \<Rightarrow> TaskPreparedBody \<Rightarrow> taskService \<Rightarrow> taskService \<times> prepared_answer res" where
  "prepared now node gen b s0 =
     (let i = tp_TaskID b in
      case authorizedLocked now node gen i (tp_Execution b) s0 of
        (s, Inl err) \<Rightarrow> (s, Inl err)
      | (s, Inr e) \<Rightarrow>
          if Workspace (te_rec e) = None \<or> StartDigest (te_rec e) \<noteq> Some (tp_StartDigest b) then (s, errInvalid)
          else (case preparedLocked now b i e s of (s', a) \<Rightarrow> (s', Inr a)))"

definition preparedRecheck :: "instant \<Rightarrow> TaskPreparedBody \<Rightarrow> taskService \<Rightarrow> taskService \<times> prepared_answer" where
  "preparedRecheck now b s =
     (case tasks s (tp_TaskID b) of
        None \<Rightarrow> (s, PreparedRefuse)
      | Some e \<Rightarrow> preparedLocked now b (tp_TaskID b) e s)"

subsection \<open>Publication authority\<close>

record NodeAssignment =
  na_NodeID :: string
  na_Execution :: ExecutionToken
  na_StartDigest :: string
  na_Instance :: string

record Settlement =
  st_PubID :: string
  st_Status :: publication
  st_Error :: string
  st_Workspace :: TaskWorkspaceResult

definition Sealed :: "(TaskResultBody \<Rightarrow> string) \<Rightarrow> TaskResultBody \<Rightarrow> TaskResultBody" where
  "Sealed digestOf b = b\<lparr>r_Digest := digestOf b\<rparr>"

definition settledResult :: "(TaskResultBody \<Rightarrow> string) \<Rightarrow> TaskPublication \<Rightarrow> StopIntent option \<Rightarrow> TaskWorkspaceResult \<Rightarrow> TaskResultBody" where
  "settledResult digestOf p stop w =
     (let r = p_Candidate p;
          r1 = (if p_State p = TaskCancelled \<and> r_Outcome r \<noteq> OutcomeCancelled
                then r\<lparr>r_Outcome := OutcomeCancelled, r_StopID := map_option s_ID stop\<rparr>
                else if p_State p = TaskTimedOut then r\<lparr>r_Outcome := OutcomeTimedOut, r_StopID := None\<rparr>
                else r)
      in Sealed digestOf (r1\<lparr>r_Workspace := Some w\<rparr>))"

definition assignmentConflict :: "'a res" where "assignmentConflict = Inl (Error CodeConflict ''task_assignment_mismatch'')"
definition pubClosed :: "'a res" where "pubClosed = Inl (Error CodeConflict ''task_publication_closed'')"

definition checkLocked :: "taskEntry \<Rightarrow> WorkspaceBinding \<Rightarrow> NodeAssignment \<Rightarrow> unit res" where
  "checkLocked e w a =
     (if na_NodeID a \<noteq> r_Node (Role (te_rec e)) \<or> na_Execution a \<noteq> Execution (te_rec e) \<or> StartDigest (te_rec e) \<noteq> Some (na_StartDigest a)
      then assignmentConflict
      else if na_Instance a \<noteq> b_Instance w then Inl (Error CodeConflict ''workspace_instance_mismatch'')
      else Inr ())"

definition workspaceTaskLocked :: "string \<Rightarrow> taskService \<Rightarrow> (taskEntry \<times> WorkspaceBinding) res" where
  "workspaceTaskLocked i s =
     (case tasks s i of
        None \<Rightarrow> Inl (Error CodeNotFound '''')
      | Some e \<Rightarrow> (case Workspace (te_rec e) of None \<Rightarrow> Inl (Error CodeNotFound '''') | Some w \<Rightarrow> Inr (e, w)))"

definition startInFlightLocked :: "instant \<Rightarrow> taskEntry \<Rightarrow> taskService \<Rightarrow> bool" where
  "startInFlightLocked now e s \<longleftrightarrow> te_send e = sendSending \<and> te_rgen e = 0 \<and> \<not> te_reconciling e \<and> undecided e
     \<and> snd (liveAttachment now (r_Node (Role (te_rec e))) (te_gen e) s)"

text \<open>
  The deciding critical section of \<open>Authorize\<close>: the selected intent (a new one, or the identical
  earlier one), whose durability the caller then awaits. \<open>build\<close> is the state machine's intent for
  the arbitrated state, \<open>same\<close> the comparison of canonical encodings.
\<close>

definition authorize_new :: "instant \<Rightarrow> string \<Rightarrow> taskEntry \<Rightarrow> TaskResultBody \<Rightarrow> (task_state \<Rightarrow> TaskPublication res) \<Rightarrow> taskService \<Rightarrow> taskService \<times> TaskPublication res" where
  "authorize_new now i e c build s =
     (let (e1, o', k) = resultOutcome e c now in
      if \<not> publishableState (to_state o') \<or> to_started o' = None then (put i e1 s, pubClosed)
      else (case build (to_state o') of
          Inl err \<Rightarrow> (put i e1 s, Inl err)
        | Inr p \<Rightarrow> (wakeLocked i (refreshLocked i (put i (e1\<lparr>te_pendingPub := Some p, te_reconciling := False\<rparr>) s)), Inr p)))"

definition Authorize :: "instant \<Rightarrow> string \<Rightarrow> NodeAssignment \<Rightarrow> TaskResultBody \<Rightarrow> string \<Rightarrow> (TaskResultBody \<Rightarrow> TaskResultBody \<Rightarrow> bool)
    \<Rightarrow> (task_state \<Rightarrow> TaskPublication res) \<Rightarrow> taskService \<Rightarrow> taskService \<times> TaskPublication res" where
  "Authorize now i a c tree same build s =
     (case workspaceTaskLocked i s of
        Inl err \<Rightarrow> (s, Inl err)
      | Inr (e, w) \<Rightarrow>
          (case checkLocked e w a of
             Inl err \<Rightarrow> (s, Inl err)
           | Inr _ \<Rightarrow>
               (case pubLocked e of
                  Some p \<Rightarrow> if p_Tree p \<noteq> tree \<or> \<not> same (p_Candidate p) c then (s, pubClosed) else (s, Inr p)
                | None \<Rightarrow>
                    if \<not> undecided e then (s, pubClosed)
                    else if te_rgen e = 0 then (s, assignmentConflict)
                    else let (s1, ok) = liveAttachment now (r_Node (Role (te_rec e))) (te_rgen e) s in
                      if \<not> ok then (s1, assignmentConflict)
                      else if (\<not> te_started e \<and> StartedAt (te_rec e) = None) \<or> r_Outcome c = OutcomeLost then (s1, pubClosed)
                      else if (case te_ring e of None \<Rightarrow> False | Some l \<Rightarrow> r_OutputBytes c < pl_next l) then (s1, errInvalid)
                      else authorize_new now i e c build s1)))"

definition settle_pub :: "TaskPublication \<Rightarrow> Settlement \<Rightarrow> TaskPublication" where
  "settle_pub p st = p\<lparr>p_Phase := PubPhaseSettled, p_Status := Some (st_Status st),
     p_Error := (if st_Error st \<noteq> '''' then Some (st_Error st) else p_Error p)\<rparr>"

definition latch_settled :: "(TaskResultBody \<Rightarrow> string) \<Rightarrow> instant \<Rightarrow> TaskPublication \<Rightarrow> Settlement \<Rightarrow> taskEntry \<Rightarrow> taskEntry" where
  "latch_settled digestOf now p st e =
     (let (e1, o', k) = resultOutcome e (p_Candidate p) now;
          o2 = o'\<lparr>to_state := p_State p, to_reason := (if p_State p = TaskCancelled then None else to_reason o')\<rparr>;
          q = settle_pub p st;
          res = settledResult digestOf q (rec_StopIntent (te_rec e)) (st_Workspace st)
      in e1\<lparr>te_cand := Some \<lparr>cd_kind = k, cd_outcome = o2, cd_at = now, cd_digest = r_Digest res, cd_pub = Some q,
                               cd_workspace = Some (st_Workspace st)\<rparr>,
            te_reconciling := False\<rparr>)"

text \<open>The deciding critical section of \<open>Settle\<close>; an already settled publication changes nothing.\<close>

definition Settle :: "(TaskResultBody \<Rightarrow> string) \<Rightarrow> instant \<Rightarrow> string \<Rightarrow> Settlement \<Rightarrow> taskService \<Rightarrow> taskService \<times> unit res" where
  "Settle digestOf now i st s =
     (case workspaceTaskLocked i s of
        Inl err \<Rightarrow> (s, Inl err)
      | Inr (e, w) \<Rightarrow>
          (case Publication (te_rec e) of
             None \<Rightarrow> (s, Inl (Error CodeNotFound ''''))
           | Some p \<Rightarrow>
               if p_ID p \<noteq> st_PubID st then (s, Inl (Error CodeNotFound ''''))
               else if p_Phase p = PubPhaseSettled \<or> (case te_cand e of None \<Rightarrow> False | Some c \<Rightarrow> cd_pub c \<noteq> None) then (s, Inr ())
               else if te_cand e \<noteq> None then (s, pubClosed)
               else (settle_entry i (latch_settled digestOf now p st) s, Inr ())))"

text \<open>The task's publication view: \<open>Live\<close> and \<open>Committed\<close> as the state machine reads them.\<close>

record PubTask =
  pt_State :: task_state
  pt_Publication :: "TaskPublication option"
  pt_Live :: bool
  pt_Committed :: bool
  pt_Result :: "TaskResultBody option"

definition pubTaskLocked :: "(TaskResultBody \<Rightarrow> string) \<Rightarrow> instant \<Rightarrow> taskEntry \<Rightarrow> taskService \<Rightarrow> PubTask" where
  "pubTaskLocked digestOf now e s = \<lparr>pt_State = State (te_rec e), pt_Publication = pubLocked e,
     pt_Live = (undecided e \<and> te_rgen e \<noteq> 0 \<and> snd (liveAttachment now (r_Node (Role (te_rec e))) (te_rgen e) s)),
     pt_Committed = (terminal e \<and> te_released e \<and> te_confirmed e),
     pt_Result = (case (Publication (te_rec e), WorkspaceResult (te_rec e)) of
         (Some p, Some w) \<Rightarrow> if p_Phase p = PubPhaseSettled then Some (settledResult digestOf p (rec_StopIntent (te_rec e)) w) else None
       | _ \<Rightarrow> None)\<rparr>"

end
