(* ===== verification/Task_Ledger.thy ===== *)
theory Task_Ledger
  imports Task_Controls
begin

section \<open>The reservation ledger\<close>

text \<open>
  \<open>counts\<close> and \<open>blocked\<close> are derived state that \<open>refreshLocked\<close> maintains incrementally from the
  contribution flags stored in each entry. The locale \<open>derived_count\<close> states the contract of one
  such counter and shows that, when every entry's flag is current, the counter is the exact number of
  entries with the derived property; both counters of the service are instances. The invariant
  \<open>ledger_inv\<close> says that no entry is stale, \<open>ledger_but\<close> that at most one is (between a change and its
  refresh).
\<close>

locale derived_count =
  fixes ents :: "'s \<Rightarrow> 'i \<Rightarrow> 'e option" and count :: "'s \<Rightarrow> 'k \<Rightarrow> int" and refresh :: "'i \<Rightarrow> 's \<Rightarrow> 's"
    and key :: "'e \<Rightarrow> 'k" and flag :: "'e \<Rightarrow> bool" and derived :: "'e \<Rightarrow> bool"
  assumes refresh_none: "ents s i = None \<Longrightarrow> refresh i s = s"
    and refresh_entry: "ents s i = Some e \<Longrightarrow>
      \<exists>e'. ents (refresh i s) = (ents s)(i \<mapsto> e') \<and> flag e' = derived e \<and> derived e' = derived e \<and> key e' = key e"
    and refresh_count: "ents s i = Some e \<Longrightarrow>
      count (refresh i s) k = count s k - of_bool (flag e \<and> key e = k) + of_bool (derived e \<and> key e = k)"
begin

definition flagged :: "('i \<Rightarrow> 'e option) \<Rightarrow> 'k \<Rightarrow> 'i set" where
  "flagged m k = {i. \<exists>e. m i = Some e \<and> flag e \<and> key e = k}"

definition total :: "('i \<Rightarrow> 'e option) \<Rightarrow> 'k \<Rightarrow> int" where
  "total m k = int (card (flagged m k))"

definition exact :: "'s \<Rightarrow> bool" where
  "exact s \<longleftrightarrow> finite (dom (ents s)) \<and> (\<forall>k. count s k = total (ents s) k)"

definition current :: "'s \<Rightarrow> 'i \<Rightarrow> bool" where
  "current s i \<longleftrightarrow> (\<forall>e. ents s i = Some e \<longrightarrow> flag e = derived e)"

lemma finite_flagged: "finite (dom m) \<Longrightarrow> finite (flagged m k)"
  by (rule finite_subset [of _ "dom m"]) (auto simp: flagged_def)

lemma flagged_upd: "flagged (m(i \<mapsto> e')) k = (flagged m k - {i}) \<union> (if flag e' \<and> key e' = k then {i} else {})"
  by (auto simp: flagged_def)

lemma total_upd:
  assumes fin: "finite (dom m)" and i: "m i = Some e" and "key e' = key e"
  shows "total (m(i \<mapsto> e')) k = total m k - of_bool (flag e \<and> key e = k) + of_bool (flag e' \<and> key e = k)"
proof -
  have mem: "i \<in> flagged m k \<longleftrightarrow> flag e \<and> key e = k" using i by (auto simp: flagged_def)
  have c: "int (card (flagged m k - {i})) = total m k - of_bool (flag e \<and> key e = k)"
    unfolding total_def mem [symmetric] using card.remove [OF finite_flagged [OF fin, of k], of i]
    by (cases "i \<in> flagged m k") simp_all
  have "card (flagged (m(i \<mapsto> e')) k) = card (flagged m k - {i}) + of_bool (flag e' \<and> key e = k)"
    using assms finite_flagged [OF fin, of k] by (simp add: flagged_upd card.insert_remove)
  with c show ?thesis by (simp add: total_def)
qed

lemma total_new: "m i = None \<Longrightarrow> \<not> flag e' \<Longrightarrow> total (m(i \<mapsto> e')) k = total m k"
  by (simp add: total_def flagged_upd) (simp add: flagged_def)

lemma exact_refresh: "exact s \<Longrightarrow> exact (refresh i s)"
proof (cases "ents s i")
  case (Some e)
  assume ex: "exact s"
  from refresh_entry [OF Some] obtain e' where
    e': "ents (refresh i s) = (ents s)(i \<mapsto> e')" "flag e' = derived e" "key e' = key e" by blast
  have "count (refresh i s) k = total (ents (refresh i s)) k" for k
    using ex e' Some by (simp add: exact_def refresh_count [OF Some] total_upd)
  then show ?thesis using ex e' by (simp add: exact_def)
qed (simp add: refresh_none)

lemma current_refresh: "current (refresh i s) i"
proof (cases "ents s i")
  case (Some e)
  from refresh_entry [OF this] show ?thesis by (auto simp: current_def)
qed (simp add: refresh_none current_def)

lemma current_refresh_other: "j \<noteq> i \<Longrightarrow> current s j \<Longrightarrow> current (refresh i s) j"
proof (cases "ents s i")
  case (Some e)
  assume "j \<noteq> i" "current s j"
  with refresh_entry [OF Some] show ?thesis by (auto simp: current_def)
qed (simp add: refresh_none)

lemma count_is_card:
  assumes "exact s" and "\<And>i. current s i"
  shows "count s k = int (card {i. \<exists>e. ents s i = Some e \<and> key e = k \<and> derived e})"
proof -
  have "flagged (ents s) k = {i. \<exists>e. ents s i = Some e \<and> key e = k \<and> derived e}"
    using assms(2) unfolding flagged_def current_def by blast
  with assms(1) show ?thesis by (simp add: exact_def total_def)
qed

end


lemma held_store [simp]:
  "held (e\<lparr>te_contribHeld := a, te_contribRec := b\<rparr>) = held e"
  "isReconciling (e\<lparr>te_contribHeld := a, te_contribRec := b\<rparr>) = isReconciling e"
  "entry_blocked (e\<lparr>te_contribHeld := a, te_contribRec := b\<rparr>) = entry_blocked e"
  by (simp_all add: held_def terminal_def isReconciling_def publishingLocked_def pubLocked_def entry_blocked_def
        cong: option.case_cong)

declare option.case_cong [cong]

lemma refresh_tasks: "tasks s i = Some e \<Longrightarrow>
    tasks (refreshLocked i s) = (tasks s)(i \<mapsto> e\<lparr>te_contribHeld := held e, te_contribRec := held e \<and> isReconciling e\<rparr>)"
  by (simp add: refreshLocked_def Let_def)

lemma refresh_counts: "tasks s i = Some e \<Longrightarrow>
    counts (refreshLocked i s) = (counts s)(te_key e :=
      (let c = (fst (heldLocked s (te_key e)) - of_bool (te_contribHeld e) + of_bool (held e),
                snd (heldLocked s (te_key e)) - of_bool (te_contribRec e) + of_bool (held e \<and> isReconciling e))
       in if c = (0, 0) then None else Some c))"
  by (simp add: refreshLocked_def Let_def)

lemma refresh_heldLocked: "tasks s i = Some e \<Longrightarrow>
    heldLocked (refreshLocked i s) k =
      (if k = te_key e
       then (fst (heldLocked s k) - of_bool (te_contribHeld e) + of_bool (held e),
             snd (heldLocked s k) - of_bool (te_contribRec e) + of_bool (held e \<and> isReconciling e))
       else heldLocked s k)"
  by (simp add: heldLocked_def [of "refreshLocked i s"] refresh_counts Let_def) (simp add: heldLocked_def)

interpretation heldL: derived_count tasks "\<lambda>s k. fst (heldLocked s k)" refreshLocked te_key te_contribHeld held
proof
  show "refreshLocked i s = s" if "tasks s i = None" for s i
    using that by (simp add: refreshLocked_def)
qed (auto simp: refresh_tasks refresh_heldLocked)

interpretation recL: derived_count tasks "\<lambda>s k. snd (heldLocked s k)" refreshLocked te_key te_contribRec "\<lambda>e. held e \<and> isReconciling e"
proof
  show "refreshLocked i s = s" if "tasks s i = None" for s i
    using that by (simp add: refreshLocked_def)
qed (auto simp: refresh_tasks refresh_heldLocked)

subsection \<open>The ledger invariant\<close>

definition blk_ok :: "taskService \<Rightarrow> string \<Rightarrow> bool" where
  "blk_ok s i \<longleftrightarrow> (i \<in> blocked s \<longleftrightarrow> (\<exists>e. tasks s i = Some e \<and> entry_blocked e))"

definition fresh :: "taskService \<Rightarrow> string \<Rightarrow> bool" where
  "fresh s i \<longleftrightarrow> heldL.current s i \<and> recL.current s i \<and> blk_ok s i"

definition ledger_at :: "string set \<Rightarrow> taskService \<Rightarrow> bool" where
  "ledger_at A s \<longleftrightarrow> heldL.exact s \<and> recL.exact s \<and> (\<forall>j. j \<notin> A \<or> tasks s j = None \<longrightarrow> fresh s j)"

abbreviation ledger_inv :: "taskService \<Rightarrow> bool" where
  "ledger_inv \<equiv> ledger_at {}"

text \<open>A change of an entry that keeps its key and flags; a neutral one also keeps what they are derived from.\<close>

definition foot :: "taskEntry \<Rightarrow> taskEntry \<Rightarrow> bool" where
  "foot e e' \<longleftrightarrow> te_key e' = te_key e \<and> te_contribHeld e' = te_contribHeld e \<and> te_contribRec e' = te_contribRec e"

definition neutral :: "taskEntry \<Rightarrow> taskEntry \<Rightarrow> bool" where
  "neutral e e' \<longleftrightarrow> foot e e' \<and> held e' = held e \<and> isReconciling e' = isReconciling e \<and> entry_blocked e' = entry_blocked e"

lemma ledger_weaken: "ledger_at A s \<Longrightarrow> A \<subseteq> B \<Longrightarrow> ledger_at B s"
  by (auto simp: ledger_at_def)

lemma ledger_cong:
  assumes "tasks s' = tasks s" and "counts s' = counts s" and "blocked s' = blocked s"
  shows "ledger_at A s' = ledger_at A s"
proof -
  have "heldLocked s' = heldLocked s" using assms by (simp add: heldLocked_def fun_eq_iff)
  then show ?thesis using assms
    by (simp add: ledger_at_def fresh_def blk_ok_def heldL.exact_def recL.exact_def
        heldL.current_def recL.current_def)
qed

lemma ledger_frame [simp]:
  "ledger_at A (s\<lparr>reg := x0\<rparr>) = ledger_at A s"
  "ledger_at A (s\<lparr>roles := x1\<rparr>) = ledger_at A s"
  "ledger_at A (s\<lparr>gate := x2\<rparr>) = ledger_at A s"
  "ledger_at A (s\<lparr>adm := x3\<rparr>) = ledger_at A s"
  "ledger_at A (s\<lparr>admitted := x4\<rparr>) = ledger_at A s"
  "ledger_at A (s\<lparr>docs := x5\<rparr>) = ledger_at A s"
  "ledger_at A (s\<lparr>durable := x6\<rparr>) = ledger_at A s"
  "ledger_at A (s\<lparr>captured := x7\<rparr>) = ledger_at A s"
  "ledger_at A (s\<lparr>synced := x8\<rparr>) = ledger_at A s"
  "ledger_at A (s\<lparr>jobs := x9\<rparr>) = ledger_at A s"
  "ledger_at A (s\<lparr>tokens := x10\<rparr>) = ledger_at A s"
  "ledger_at A (s\<lparr>nextToken := x11\<rparr>) = ledger_at A s"
  "ledger_at A (s\<lparr>woken := x12\<rparr>) = ledger_at A s"
  "ledger_at A (s\<lparr>nextChan := x13\<rparr>) = ledger_at A s"
  "ledger_at A (s\<lparr>waits := x14\<rparr>) = ledger_at A s"
  "ledger_at A (s\<lparr>regs := x15\<rparr>) = ledger_at A s"
  "ledger_at A (s\<lparr>nextReg := x16\<rparr>) = ledger_at A s"
  "ledger_at A (s\<lparr>waitReserve := x17\<rparr>) = ledger_at A s"
  "ledger_at A (s\<lparr>reservations := x18\<rparr>) = ledger_at A s"
  "ledger_at A (s\<lparr>nextReservation := x19\<rparr>) = ledger_at A s"
  "ledger_at A (s\<lparr>ctlNodes := x20\<rparr>) = ledger_at A s"
  "ledger_at A (s\<lparr>svc_closed := x21\<rparr>) = ledger_at A s"
  "ledger_at A (s\<lparr>task_ids := x22\<rparr>) = ledger_at A s"
  by (rule ledger_cong; simp)+

lemma heldLocked_put [simp]: "heldLocked (put i e s) = heldLocked s"
  by (simp add: put_def heldLocked_def fun_eq_iff)

lemma put_sel [simp]: "tasks (put i e s) = (tasks s)(i \<mapsto> e)" "blocked (put i e s) = blocked s" "counts (put i e s) = counts s"
  by (simp_all add: put_def)

lemma exact_put:
  assumes "ledger_at A s" and "tasks s i = Some e" and "foot e e'"
  shows "heldL.exact (put i e' s)" and "recL.exact (put i e' s)"
  using assms by (auto simp: ledger_at_def heldL.exact_def recL.exact_def heldL.total_upd recL.total_upd foot_def)

lemma fresh_put_other: "j \<noteq> i \<Longrightarrow> fresh (put i e' s) j = fresh s j"
  by (simp add: fresh_def blk_ok_def heldL.current_def recL.current_def)

lemma ledger_put:
  "ledger_at A s \<Longrightarrow> i \<in> A \<Longrightarrow> tasks s i = Some e \<Longrightarrow> foot e e' \<Longrightarrow> ledger_at A (put i e' s)"
  using exact_put [of A s i e e'] by (auto simp: ledger_at_def fresh_put_other)

lemma ledger_put_neutral:
  assumes l: "ledger_at A s" and i: "tasks s i = Some e" and n: "neutral e e'"
  shows "ledger_at A (put i e' s)"
proof -
  have "fresh (put i e' s) i" if "fresh s i" using that i n
    by (simp add: fresh_def blk_ok_def heldL.current_def recL.current_def neutral_def foot_def)
  moreover have "foot e e'" using n by (simp add: neutral_def)
  ultimately show ?thesis using exact_put [OF l i] l fresh_put_other [of _ i e' s] i
    by (auto simp: ledger_at_def split: if_splits)
qed

lemma ledger_modE: "ledger_at A s \<Longrightarrow> i \<in> A \<Longrightarrow> (\<And>e. tasks s i = Some e \<Longrightarrow> foot e (f e)) \<Longrightarrow> ledger_at A (modE i f s)"
  by (auto simp: modE_def split: option.split intro: ledger_put)

lemma ledger_modE_neutral: "ledger_at A s \<Longrightarrow> (\<And>e. tasks s i = Some e \<Longrightarrow> neutral e (f e)) \<Longrightarrow> ledger_at A (modE i f s)"
  by (auto simp: modE_def split: option.split intro: ledger_put_neutral)

lemma ledger_refresh:
  assumes "ledger_at (insert i A) s"
  shows "ledger_at A (refreshLocked i s)"
proof (cases "tasks s i")
  case None
  then show ?thesis using assms by (simp add: refreshLocked_def ledger_at_def) metis
next
  case (Some e)
  have ex: "heldL.exact (refreshLocked i s)" "recL.exact (refreshLocked i s)"
    using assms by (auto simp: ledger_at_def intro: heldL.exact_refresh recL.exact_refresh)
  have b: "blocked (refreshLocked i s) = (if entry_blocked e then insert i (blocked s) else blocked s - {i})"
    using Some by (simp add: refreshLocked_def Let_def)
  have "fresh (refreshLocked i s) i"
    using Some b heldL.current_refresh recL.current_refresh
    by (auto simp: fresh_def blk_ok_def refresh_tasks)
  moreover have "fresh (refreshLocked i s) j" if "j \<noteq> i" "fresh s j" for j
    using that Some b heldL.current_refresh_other recL.current_refresh_other
    by (auto simp: fresh_def blk_ok_def refresh_tasks)
  ultimately show ?thesis using assms ex Some by (auto simp: ledger_at_def refresh_tasks)
qed


lemma foot_refl [simp]: "foot e e" and neutral_refl [simp]: "neutral e e"
  by (simp_all add: foot_def neutral_def)

lemmas entry_preds = held_def terminal_def isReconciling_def publishingLocked_def pubLocked_def entry_blocked_def

lemma ledger_wake: "ledger_at A s \<Longrightarrow> ledger_at A (wakeLocked i s)"
  by (auto simp: wakeLocked_def neutral_def foot_def entry_preds intro!: ledger_modE_neutral)

lemma ledger_notify: "ledger_at A s \<Longrightarrow> ledger_at A (notifyLocked i s)"
proof (cases "tasks s i")
  case (Some e)
  assume "ledger_at A s"
  then have "ledger_at A (put i (e\<lparr>te_waiters := []\<rparr>) s)"
    using Some by (rule ledger_put_neutral) (simp add: neutral_def foot_def entry_preds)
  then show ?thesis using Some by (simp add: notifyLocked_def)
qed (simp add: notifyLocked_def)

lemma ledger_want: "ledger_at A s \<Longrightarrow> ledger_at A (wantControlLocked i s)"
  by (auto simp: wantControlLocked_def split: option.split)

lemma ledger_dropControl: "ledger_at A s \<Longrightarrow> ledger_at A (dropControlLocked i s)"
proof (cases "tasks s i")
  case (Some e)
  assume "ledger_at A s"
  then have "ledger_at A (put i (e\<lparr>te_ctlInflight := False\<rparr>) s)"
    using Some by (rule ledger_put_neutral) (simp add: neutral_def foot_def entry_preds)
  then show ?thesis using Some by (simp add: dropControlLocked_def)
qed (simp add: dropControlLocked_def)

lemma ledger_token: "ledger_at A s \<Longrightarrow> ledger_at A (release_token t s)"
  by (auto simp: release_token_def split: option.split)

lemma ledger_fold: "ledger_at A s \<Longrightarrow> (\<And>x s. ledger_at A s \<Longrightarrow> ledger_at A (f x s)) \<Longrightarrow> ledger_at A (fold f xs s)"
  by (induction xs arbitrary: s) auto

lemma ledger_dropWait: "ledger_at A s \<Longrightarrow> ledger_at A (dropWaitLocked r s)"
  by (auto simp: dropWaitLocked_def split: option.split
      intro!: ledger_fold ledger_modE_neutral) (simp add: neutral_def foot_def entry_preds)

lemma ledger_wakeWaits: "ledger_at A s \<Longrightarrow> ledger_at A (wakeWaitsLocked i s)"
  by (auto simp: wakeWaitsLocked_def win_wait_def split: option.split intro!: ledger_fold ledger_dropWait)

lemmas ledger_prims = ledger_wake ledger_notify ledger_want ledger_dropControl ledger_token ledger_dropWait ledger_wakeWaits

lemma ledger_finish_intent: "ledger_at A s \<Longrightarrow> i \<in> A \<Longrightarrow> ledger_at A (finish_intent i s)"
  by (auto simp: finish_intent_def intent_committed_def foot_def split: option.split intro!: ledger_prims ledger_put)

lemma ledger_finish: "ledger_at A s \<Longrightarrow> i \<in> A \<Longrightarrow> ledger_at A (finishPublicationLocked i s)"
  using ledger_finish_intent [of A s i]
  by (auto simp: finishPublicationLocked_def Let_def terminal_committed_def foot_def split: option.split
      intro!: ledger_prims ledger_put)

lemma ledger_settle: "ledger_at A s \<Longrightarrow> (\<And>e. tasks s i = Some e \<Longrightarrow> foot e (f e)) \<Longrightarrow> ledger_at A (settle_entry i f s)"
  by (auto simp: settle_entry_def intro!: ledger_prims ledger_refresh ledger_modE intro: ledger_weaken)

lemma foot_latch [simp]: "foot e (latch_cancelled now e)" "foot e (latch_refusal now r e)" "foot e (latch_lost now a b e)"
  by (simp_all add: foot_def latch_cancelled_def latch_refusal_def latch_lost_def)

lemma ledger_latch:
  "ledger_at A s \<Longrightarrow> ledger_at A (latchRefusalLocked now r i s)"
  "ledger_at A s \<Longrightarrow> ledger_at A (latchLostLocked now a b i s)"
  "ledger_at A s \<Longrightarrow> ledger_at A (latchCancelledBeforeStartLocked now i s)"
  by (auto simp: latchRefusalLocked_def latchLostLocked_def latchCancelledBeforeStartLocked_def split: option.split intro!: ledger_settle)

lemma ledger_refresh_put: "ledger_at A s \<Longrightarrow> tasks s i = Some e \<Longrightarrow> foot e e' \<Longrightarrow> ledger_at A (refreshLocked i (put i e' s))"
  by (intro ledger_refresh ledger_put) (auto intro: ledger_weaken)

lemma ledger_refresh_modE: "ledger_at A s \<Longrightarrow> (\<And>e. tasks s i = Some e \<Longrightarrow> foot e (f e)) \<Longrightarrow> ledger_at A (refreshLocked i (modE i f s))"
  by (intro ledger_refresh ledger_modE) (auto intro: ledger_weaken)

lemma ledger_again: "ledger_at A s \<Longrightarrow> ledger_at A (refreshLocked i s)"
  by (rule ledger_refresh) (auto intro: ledger_weaken)

lemmas ledger_ops = ledger_prims ledger_latch ledger_settle ledger_refresh_put ledger_refresh_modE

end
