(* ===== verification/Task_Ledger_Ops.thy ===== *)
theory Task_Ledger_Ops
  imports Task_Ledger
begin

section \<open>Every operation keeps the ledger exact\<close>

text \<open>
  The operations of the service one by one: each refreshes the entries it changed before its critical
  section ends, or changes nothing the ledger is derived from.
\<close>

lemma ledger_insert:
  assumes l: "ledger_at A s" and n: "tasks s i = None" and f: "\<not> te_contribHeld e" "\<not> te_contribRec e"
  shows "ledger_at (insert i A) (s\<lparr>tasks := (tasks s)(i \<mapsto> e)\<rparr>)"
proof -
  have h: "heldLocked (s\<lparr>tasks := t\<rparr>) = heldLocked s" for t by (simp add: heldLocked_def fun_eq_iff)
  have "heldL.exact (s\<lparr>tasks := (tasks s)(i \<mapsto> e)\<rparr>)" "recL.exact (s\<lparr>tasks := (tasks s)(i \<mapsto> e)\<rparr>)"
    using l n f by (auto simp: ledger_at_def heldL.exact_def recL.exact_def heldL.total_new recL.total_new h)
  then show ?thesis using l
    by (auto simp: ledger_at_def fresh_def blk_ok_def heldL.current_def recL.current_def)
qed

lemma ledger_observe [simp]: "ledger_at A (fst (observeLocked now t s)) = ledger_at A s"
  by (simp add: observeLocked_def Let_def)

lemma ledger_observeD: "observeLocked now t s = (s', ob) \<Longrightarrow> ledger_at A s' = ledger_at A s"
  using ledger_observe [of A now t s] by simp

lemma ledger_live [simp]: "ledger_at A (fst (liveAttachment now node gen s)) = ledger_at A s"
  by (simp add: liveAttachment_def split: prod.split)

lemma ledger_liveD: "liveAttachment now node gen s = (s', ok) \<Longrightarrow> ledger_at A s' = ledger_at A s"
  using ledger_live [of A now node gen s] by simp

lemma ledger_reserveStart: "reserveStart d g s = Some (s', tok) \<Longrightarrow> ledger_at A s' = ledger_at A s"
  by (auto simp: reserveStart_def split: if_splits)

lemma ledger_admit_select: "ledger_inv s \<Longrightarrow> ledger_inv (fst (admit_select now lookup d req b s))"
  by (auto simp: admit_select_def Let_def ledger_observeD ledger_reserveStart split: prod.split option.split sum.split)

lemma ledger_admit_begin: "ledger_inv s \<Longrightarrow> ledger_inv (fst (admit_begin now lookup b ok d req s))"
  by (auto simp: admit_begin_def split: prod.split sum.split intro!: ledger_admit_select)

lemma ledger_abort: "ledger_at A s \<Longrightarrow> ledger_at A (admit_abort a s)"
  by (simp add: admit_abort_def ledger_token)

lemma ledger_recheck: "ledger_at A s \<Longrightarrow> ledger_at A (fst (admit_recheck ctxOk now a s))"
  by (auto simp: admit_recheck_def ledger_observeD split: prod.split intro!: ledger_abort)

lemma ledger_attempt: "ledger_at A s \<Longrightarrow> ledger_at A (fst (admit_attempt idr dg ctxOk now s))"
  by (auto simp: admit_attempt_def Let_def split: option.split sum.split intro!: ledger_abort ledger_recheck)

lemma ledger_prepare: "ledger_at A s \<Longrightarrow> ledger_at A (fst (admit_prepare prep ctxOk now s))"
  by (auto simp: admit_prepare_def split: option.split sum.split intro!: ledger_abort ledger_recheck)

lemma ledger_inserted:
  assumes "ledger_at A s" and "tasks s i = None" and "\<not> te_contribHeld e" "\<not> te_contribRec e"
    and "tasks s' = (tasks s)(i \<mapsto> e)" "counts s' = counts s" "blocked s' = blocked s"
  shows "ledger_at A (refreshLocked i s')"
proof -
  have "ledger_at (insert i A) (s\<lparr>tasks := (tasks s)(i \<mapsto> e)\<rparr>)" using assms by (intro ledger_insert)
  also have "ledger_at (insert i A) (s\<lparr>tasks := (tasks s)(i \<mapsto> e)\<rparr>) = ledger_at (insert i A) s'"
    using assms by (intro ledger_cong) simp_all
  finally show ?thesis by (rule ledger_refresh)
qed

lemma admittedEntry_flags [simp]: "\<not> te_contribHeld (admittedEntry a ok v sq)" "\<not> te_contribRec (admittedEntry a ok v sq)"
  by (simp_all add: admittedEntry_def blankEntry_def)

lemma neutral_writer [simp]: "neutral e (e\<lparr>te_writer := w\<rparr>)"
  by (simp add: neutral_def foot_def entry_preds)

lemma ledger_admit_publish:
  assumes "ledger_inv s" and "dom (tasks s) \<subseteq> dom (docs s)"
  shows "ledger_inv (fst (admit_publish disk visible s))"
  using assms unfolding admit_publish_def Let_def
  by (auto split: option.split intro!: ledger_abort ledger_modE_neutral ledger_inserted [where s = s])

subsection \<open>Dispatcher callbacks\<close>

lemma ledger_claim: "ledger_at A s \<Longrightarrow> ledger_at A (fst (claimStart i s))"
  by (auto simp: claimStart_def split: option.split intro!: ledger_put_neutral) (simp add: neutral_def foot_def entry_preds)

lemma neutral_fields [simp]: "neutral e (e\<lparr>te_send := x\<rparr>)" "neutral e (e\<lparr>te_preparing := y\<rparr>)"
  by (simp_all add: neutral_def foot_def entry_preds)

lemma ledger_unsent: "ledger_at A s \<Longrightarrow> ledger_at A (startUnsent now i s)"
  by (auto simp: startUnsent_def split: option.split intro!: ledger_latch ledger_put_neutral)

lemma ledger_uncertain: "ledger_at A s \<Longrightarrow> ledger_at A (startUncertain i s)"
  by (auto simp: startUncertain_def foot_def split: option.split intro!: ledger_ops)

lemma ledger_submit: "ledger_at A s \<Longrightarrow> ledger_at A (submit i s)"
  by (auto simp: submit_def split: option.split intro!: ledger_put_neutral)

lemma ledger_enqueue: "ledger_at A s \<Longrightarrow> ledger_at A (enqueueStart now x d i s)"
  by (auto simp: enqueueStart_def split: option.split intro!: ledger_unsent ledger_token)

lemma foot_reply [simp]: "foot e (reply_preparing now g e)" "foot e (reply_started now g e)"
  by (simp_all add: foot_def reply_preparing_def reply_started_def)

lemma ledger_replied: "ledger_at A s \<Longrightarrow> ledger_at A (startReplied now i gen refusal p s)"
  by (auto simp: startReplied_def Let_def split: option.split intro!: ledger_ops ledger_put_neutral)

lemma ledger_detached: "ledger_at A s \<Longrightarrow> ledger_at A (detached node gen s)"
  by (auto simp: detached_def detach_task_def foot_def split: option.split intro!: ledger_fold ledger_ops)

lemma ledger_authorized: "authorizedLocked now node gen i tok s = (s', r) \<Longrightarrow> ledger_at A s' = ledger_at A s"
  by (auto simp: authorizedLocked_def ledger_liveD split: prod.splits if_splits option.splits)

lemma authorized_task: "authorizedLocked now node gen i tok s = (s', Inr e) \<Longrightarrow> tasks s' i = Some e"
  by (auto simp: authorizedLocked_def split: prod.splits if_splits option.splits)

lemma ledger_confirm: "ledger_at A s \<Longrightarrow> ledger_at A (confirm i rv s)"
  by (auto simp: confirm_def foot_def split: option.split
      intro!: ledger_wake ledger_refresh ledger_finish ledger_put intro: ledger_weaken)

subsection \<open>The writer and the sweep\<close>

lemma neutral_checkpointed [simp]: "neutral e (checkpointed now e)"
  by (simp add: neutral_def foot_def entry_preds checkpointed_def)

lemma ledger_nextJob: "ledger_at A s \<Longrightarrow> nextJobLocked now i s = (s', j) \<Longrightarrow> ledger_at A s'"
  by (auto simp: nextJobLocked_def Let_def foot_def ledger_observeD split: option.splits if_splits prod.splits
      intro!: ledger_refresh_put ledger_put_neutral)

lemma ledger_take: "ledger_at A s \<Longrightarrow> ledger_at A (writer_take now i s)"
  by (auto simp: writer_take_def split: option.split prod.split bool.split
      intro!: ledger_modE_neutral intro: ledger_nextJob)

lemma foot_install [simp]: "foot e (install_job now j ok e)" "foot e ((install_job now j ok e)\<lparr>te_rec := r\<rparr>)"
    "foot e (job_failed k (e\<lparr>te_fault := x, te_retryAt := t\<rparr>))"
  by (simp_all add: foot_def install_job_def job_installed_def job_failed_def split: jobKind.split)

lemma ledger_apply: "ledger_at A s \<Longrightarrow> ledger_at A (applyLocked now i j disk s)"
  by (auto simp: applyLocked_def split: disk_outcome.split
      intro!: ledger_refresh ledger_finish ledger_modE intro: ledger_weaken)

lemma ledger_update_store [simp]: "ledger_at A (update_store i r disk s) = ledger_at A s"
  by (simp add: update_store_def split: disk_outcome.split)

lemma ledger_write: "ledger_at A s \<Longrightarrow> ledger_at A (writer_write rd disk now i s)"
  by (auto simp: writer_write_def Let_def split: option.split sum.split intro!: ledger_apply)

lemma ledger_expire_preparations: "ledger_at A s \<Longrightarrow> ledger_at A (expirePreparationsLocked now s)"
  by (auto simp: expirePreparationsLocked_def expire_preparation_def split: option.split
      intro!: ledger_fold ledger_latch ledger_put_neutral)

lemma ledger_tick: "ledger_at A s \<Longrightarrow> ledger_at A (fst (tick now s))"
  by (auto simp: tick_def tick_task_def Let_def foot_def split: option.split
      intro!: ledger_expire_preparations ledger_fold ledger_ops)

subsection \<open>Receipt, losses and reconciliation\<close>

lemma neutral_rings [simp]:
  "neutral e (e\<lparr>te_ring := a\<rparr>)" "neutral e (e\<lparr>te_ring := a, te_logDirty := b\<rparr>)" "neutral e (e\<lparr>te_lateRing := a\<rparr>)"
  "neutral e (e\<lparr>te_lateBound := x, te_ring := a\<rparr>)" "neutral e (e\<lparr>te_lateBound := x, te_ring := a, te_logDirty := b\<rparr>)"
  "neutral e (e\<lparr>te_lateBound := x, te_lateRing := a\<rparr>)"
  by (simp_all add: neutral_def foot_def entry_preds)

lemma neutral_trans: "neutral a b \<Longrightarrow> neutral b c \<Longrightarrow> neutral a c"
  by (simp add: neutral_def foot_def)

lemma ledger_receive_primary:
  "ledger_at A s \<Longrightarrow> tasks s i = Some e0 \<Longrightarrow> neutral e0 e \<Longrightarrow> ledger_at A (fst (receive_primary b i e l s))"
  by (auto simp: receive_primary_def split: prod.split sum.split intro!: ledger_put_neutral [where e = e0]
      intro: neutral_trans [of e0 e])

lemma ledger_receive_late:
  "ledger_at A s \<Longrightarrow> tasks s i = Some e0 \<Longrightarrow> neutral e0 e \<Longrightarrow> ledger_at A (fst (receive_late b i e s))"
  by (auto simp: receive_late_def Let_def split: prod.split intro!: ledger_put_neutral [where e = e0]
      intro: neutral_trans [of e0 e])

lemma neutral_bound [simp]: "neutral e (e\<lparr>te_lateBound := x\<rparr>)"
  by (simp add: neutral_def foot_def entry_preds)

lemma ledger_receiveLog:
  assumes "ledger_at A s"
  shows "ledger_at A (fst (receiveLog now node gen b s))"
proof (cases "authorizedLocked now node gen (tl_TaskID b) (tl_Execution b) s")
  case (Pair s' r)
  then have l: "ledger_at A s'" using assms by (simp add: ledger_authorized)
  show ?thesis
  proof (cases r)
    case (Inr e)
    then have "tasks s' (tl_TaskID b) = Some e" using Pair authorized_task by blast
    with l Pair Inr show ?thesis
      by (auto simp: receiveLog_def Let_def split: option.split intro!: ledger_receive_primary ledger_receive_late)
  qed (simp add: receiveLog_def Pair l)
qed

lemma neutral_resultOutcome [simp]: "neutral e (fst (resultOutcome e b now))"
  by (simp add: resultOutcome_def Let_def split_beta neutral_def foot_def entry_preds)

lemma foot_resultOutcome [simp]: "foot e (fst (resultOutcome e b now))"
  using neutral_resultOutcome [of e b now] unfolding neutral_def by blast

lemma foot_latch_result [simp]: "foot e (latch_result b now e)" "foot e (latch_late b now e)"
proof -
  have "foot (note_launch b now e) (latch_result b now e)"
    using foot_resultOutcome [of "note_launch b now e" b now] by (simp add: latch_result_def Let_def split_beta foot_def)
  moreover have "foot e (note_launch b now e)" by (simp add: foot_def note_launch_def Let_def)
  ultimately show "foot e (latch_result b now e)" by (simp add: foot_def)
qed (simp add: foot_def latch_late_def)

lemma ledger_receiveResult: "ledger_at A s \<Longrightarrow> ledger_at A (fst (receiveResult now node gen b s))"
  by (auto simp: receiveResult_def capture_result_def Let_def ledger_authorized split: prod.split sum.split
      intro!: ledger_settle)

lemma ledger_losses: "ledger_at A s \<Longrightarrow> ledger_at A (applyLossesLocked now s)"
  by (auto simp: applyLossesLocked_def apply_loss_def loss_task_def split: option.split intro!: ledger_fold ledger_latch)

lemma foot_resume [simp]: "foot e (resume_entry gen a e)"
  by (simp add: foot_def resume_entry_def Let_def)

lemma neutral_rgen [simp]: "neutral e (e\<lparr>te_rgen := a, te_lateOK := b, te_lateBound := c\<rparr>)" "neutral e (e\<lparr>te_seen := g\<rparr>)"
    "neutral e (e\<lparr>te_ctlDue := t\<rparr>)"
  by (simp_all add: neutral_def foot_def entry_preds)

lemma ledger_refresh_wake_put:
  "ledger_at A s \<Longrightarrow> tasks s i = Some e \<Longrightarrow> foot e e' \<Longrightarrow> ledger_at A (refreshLocked i (wakeLocked i (put i e' s)))"
  by (intro ledger_refresh ledger_wake ledger_put) (auto intro: ledger_weaken)

lemma ledger_dispose:
  "ledger_at A s \<Longrightarrow> tasks s i = Some e \<Longrightarrow> ledger_at A (fst (disposeLocked now gen ie i e s))"
  by (auto simp: disposeLocked_def Let_def intro!: ledger_want ledger_modE_neutral ledger_refresh_put ledger_refresh_wake_put
      ledger_put_neutral) (simp_all add: foot_def resume_entry_def Let_def)

lemma ledger_inventory_entry: "ledger_at A (fst sr) \<Longrightarrow> ledger_at A (fst (fst (inventory_entry now node gen ie sr)))"
proof -
  assume l: "ledger_at A (fst sr)"
  have "ledger_at A s1" if "disposeLocked now gen ie i (e\<lparr>te_seen := gen\<rparr>) (put i (e\<lparr>te_seen := gen\<rparr>) (fst sr)) = (s1, a)"
    and "tasks (fst sr) i = Some e" for e i s1 a
    using ledger_dispose [of A "put i (e\<lparr>te_seen := gen\<rparr>) (fst sr)" i "e\<lparr>te_seen := gen\<rparr>" now gen ie] that
      ledger_put_neutral [OF l that(2)] by simp
  with l show ?thesis by (auto simp: inventory_entry_def Let_def split: option.split prod.split)
qed

lemma ledger_inventory_entries:
  "ledger_at A (fst sr) \<Longrightarrow> ledger_at A (fst (fst (inventory_entries now node gen ies sr)))"
proof (induction ies arbitrary: sr)
  case (Cons ie ies)
  with ledger_inventory_entry [OF Cons.prems, of now node gen ie] show ?case
    by (auto split: prod.split sum.split)
qed simp

lemma ledger_inventory_final: "ledger_at A (fst sr) \<Longrightarrow> ledger_at A (fst (inventory_final now node gen sr))"
  by (auto simp: inventory_final_def missing_task_def Let_def split: option.split intro!: ledger_fold ledger_latch)

lemma ledger_inventory: "ledger_at A (fst sr) \<Longrightarrow> ledger_at A (fst (fst (inventory now node gen b sr)))"
  using ledger_losses [of A "fst sr" now]
  by (auto simp: inventory_def Let_def split_beta split: sum.split intro!: ledger_inventory_final ledger_inventory_entries)

subsection \<open>Controls, waits and publication\<close>

lemma ledger_select: "ledger_at A s \<Longrightarrow> ledger_at A (selectIntentLocked now i sid s)"
  by (auto simp: selectIntentLocked_def Let_def split: option.split
      intro!: ledger_wake ledger_again ledger_latch ledger_token ledger_put_neutral)
     (simp_all add: neutral_def foot_def entry_preds)

lemma ledger_cancel: "ledger_at A s \<Longrightarrow> ledger_at A (fst (cancel now ctxOk i sid s))"
  by (auto simp: cancel_def split: option.split intro!: ledger_select)

lemma ledger_requestCancel: "ledger_at A s \<Longrightarrow> ledger_at A (requestCancel now i sid s)"
  by (auto simp: requestCancel_def split: option.split intro!: ledger_select)

lemma neutral_ctl [simp]: "neutral e (e\<lparr>te_ctlInflight := a\<rparr>)" "neutral e (e\<lparr>te_ctlInflight := a, te_ctlDue := b\<rparr>)"
    "neutral e (e\<lparr>te_waitRegs := w\<rparr>)" "neutral e (e\<lparr>te_waiters := v\<rparr>)"
  by (simp_all add: neutral_def foot_def entry_preds)

lemma ledger_takeControl: "ledger_at A s \<Longrightarrow> ledger_at A (fst (takeControl node gen now lst s))"
  by (auto simp: takeControl_def Let_def split: option.split intro!: ledger_modE_neutral)

lemma ledger_controlDone: "ledger_at A s \<Longrightarrow> ledger_at A (controlDone i acked at s)"
  by (auto simp: controlDone_def intro!: ledger_modE_neutral)

lemma ledger_releaseLocked: "ledger_at A s \<Longrightarrow> ledger_at A (releaseLocked rv s)"
  by (auto simp: releaseLocked_def split: option.split)

lemma ledger_reserveWait: "ledger_at A s \<Longrightarrow> ledger_at A (fst (reserveWait s))"
  by (auto simp: reserveWait_def)

lemma ledger_register: "ledger_at A s \<Longrightarrow> registerWaitLocked ids s = (s', r) \<Longrightarrow> ledger_at A s'"
  by (auto simp: registerWaitLocked_def Let_def intro!: ledger_fold ledger_modE_neutral)

lemma ledger_wait_begin: "ledger_at A s \<Longrightarrow> ledger_at A (fst (wait_begin ids requested rv s))"
  by (auto simp: wait_begin_def split: option.split prod.split intro!: ledger_releaseLocked intro: ledger_register)

lemma ledger_wait_decide: "ledger_at A s \<Longrightarrow> ledger_at A (fst (wait_decide r c s))"
  by (auto simp: wait_decide_def Let_def split: option.split intro!: ledger_dropWait)

lemma ledger_waiter: "ledger_at A s \<Longrightarrow> ledger_at A (fst (waiterLocked i s))"
  by (auto simp: waiterLocked_def intro!: ledger_modE_neutral)

lemma ledger_dropWaiter: "ledger_at A s \<Longrightarrow> ledger_at A (dropWaiterLocked i c s)"
  by (auto simp: dropWaiterLocked_def intro!: ledger_modE_neutral)

lemma ledger_wait_prepared: "ledger_at A s \<Longrightarrow> ledger_at A (fst (wait_prepared i s))"
  using ledger_waiter [of A s i] by (auto simp: wait_prepared_def split: prod.split)

lemma ledger_preparedLocked: "ledger_at A s \<Longrightarrow> ledger_at A (fst (preparedLocked now b i e s))"
  by (auto simp: preparedLocked_def split: option.split intro!: ledger_wait_prepared ledger_latch ledger_settle)
     (simp_all add: foot_def)

lemma ledger_prepared:
  assumes "ledger_at A s"
  shows "ledger_at A (fst (prepared now node gen b s))"
proof (cases "authorizedLocked now node gen (tp_TaskID b) (tp_Execution b) s")
  case (Pair s' r)
  then have l: "ledger_at A s'" using assms by (simp add: ledger_authorized)
  have "ledger_at A s2" if "preparedLocked now b i e s' = (s2, x)" for i e s2 x
    using ledger_preparedLocked [OF l, of now b i e] that by simp
  with l Pair show ?thesis by (auto simp: prepared_def Let_def split: sum.split prod.split)
qed

lemma ledger_preparedRecheck: "ledger_at A s \<Longrightarrow> ledger_at A (fst (preparedRecheck now b s))"
  by (auto simp: preparedRecheck_def split: option.split intro!: ledger_preparedLocked)

lemma ledger_authorize_new:
  assumes "ledger_at A s" and "tasks s i = Some e"
  shows "ledger_at A (fst (authorize_new now i e c build s))"
  using assms foot_resultOutcome [of e c now]
  by (auto simp: authorize_new_def split_beta foot_def split: sum.split
      intro!: ledger_wake ledger_refresh_put ledger_put_neutral)

lemma live_tasks [simp]: "tasks (fst (liveAttachment now n g s)) = tasks s"
  by (simp add: liveAttachment_def split_beta)

lemma workspaceTask_task: "workspaceTaskLocked i s = Inr (e, w) \<Longrightarrow> tasks s i = Some e"
  by (auto simp: workspaceTaskLocked_def split: option.splits)

lemma ledger_Authorize: "ledger_at A s \<Longrightarrow> ledger_at A (fst (Authorize now i a c tree same build s))"
  by (auto simp: Authorize_def Let_def split_beta split: sum.split option.split
      intro!: ledger_authorize_new dest!: workspaceTask_task)

lemma foot_latch_settled [simp]: "foot e (latch_settled dg now p st e)"
  using foot_resultOutcome [of e "p_Candidate p" now] by (simp add: latch_settled_def Let_def split_beta foot_def)

lemma ledger_Settle: "ledger_at A s \<Longrightarrow> ledger_at A (fst (Settle dg now i st s))"
  by (auto simp: Settle_def split: sum.split prod.split option.split intro!: ledger_settle)

end
