(* ===== verification/Task_System.thy ===== *)
theory Task_System
  imports Task_Ledger_Ops
begin

section \<open>The service as a transition system\<close>

text \<open>
  An event is one critical section of a goroutine of the plane with the inputs it reads from outside
  the task lock; \<open>exec\<close> is its effect, and the runs of the plane are the sequences of events, in any
  interleaving the code's own guards allow. The node registry and the role registry evolve
  independently (\<open>EvReg\<close>, and \<open>EvRoles\<close> while the mutation gate is free); a confirmation runs only for a
  publication that a sync covered.
\<close>

datatype event =
    EvReg nodeRegistry
  | EvRoles roleState
  | EvBegin instant AdapterLookup "WorkspaceBinding option res" bool bool DispatchRequest
  | EvAttempt "string res" "TaskStartBody \<Rightarrow> string" bool instant
  | EvPrepare "unit res" bool instant
  | EvPublish disk_outcome instant
  | EvSubmit string
  | EvEnqueue instant bool bool string
  | EvClaim string
  | EvUnsent instant string
  | EvUncertain string
  | EvReplied instant string nat "TaskReason option" bool
  | EvDetached string nat
  | EvClose
  | EvCapture
  | EvSync
  | EvConfirm string int
  | EvTake instant string
  | EvWrite bool disk_outcome instant string
  | EvTick instant
  | EvLog instant string nat TaskLogBody
  | EvResult instant string nat TaskResultBody
  | EvLosses instant
  | EvInventory instant string nat TaskInventoryBody reconciliation
  | EvCancel instant bool string string
  | EvRequestCancel instant string string
  | EvWaiter string
  | EvDropWaiter string nat
  | EvTakeControl string nat instant string
  | EvControlDone string bool instant
  | EvReserveWait
  | EvReleaseWait nat
  | EvWait "string list" duration "nat option"
  | EvDecide nat bool
  | EvPrepared instant string nat TaskPreparedBody
  | EvPreparedRecheck instant TaskPreparedBody
  | EvAuthorize instant string NodeAssignment TaskResultBody string "TaskResultBody \<Rightarrow> TaskResultBody \<Rightarrow> bool" "string res" "string res" instant
  | EvSettle "TaskResultBody \<Rightarrow> string" instant string Settlement

text \<open>
  \<open>Begin\<close> of \<open>internal/taskpublication/service.go\<close> builds the intent for the arbitrated state: a random
  ID, the expected commit of the result tree and an expiry.
\<close>

definition begin_intent :: "string res \<Rightarrow> string res \<Rightarrow> string \<Rightarrow> string \<Rightarrow> instant \<Rightarrow> TaskResultBody \<Rightarrow> task_state \<Rightarrow> TaskPublication res" where
  "begin_intent idr commitr tree inst deadline c st =
     (case (idr, commitr) of
        (Inr pid, Inr cm) \<Rightarrow> Inr \<lparr>p_ID = pid, p_State = st, p_Tree = tree, p_Commit = cm, p_Instance = inst, p_Deadline = deadline,
           p_Phase = PubPhaseAuthorized, p_Candidate = c, p_Status = None, p_Error = None\<rparr>
      | (Inl e, _) \<Rightarrow> Inl e
      | (_, Inl e) \<Rightarrow> Inl e)"

fun exec :: "event \<Rightarrow> taskService \<Rightarrow> taskService" where
  "exec (EvReg nr) s = s\<lparr>reg := nr\<rparr>"
| "exec (EvRoles rs) s = (if gate s then s else s\<lparr>roles := rs\<rparr>)"
| "exec (EvBegin now lookup b ok d req) s = fst (admit_begin now lookup b ok d req s)"
| "exec (EvAttempt idr dg ctxOk now) s = fst (admit_attempt idr dg ctxOk now s)"
| "exec (EvPrepare p ctxOk now) s = fst (admit_prepare p ctxOk now s)"
| "exec (EvPublish disk v) s = fst (admit_publish disk v s)"
| "exec (EvSubmit i) s = submit i s"
| "exec (EvEnqueue now x d i) s = enqueueStart now x d i s"
| "exec (EvClaim i) s = fst (claimStart i s)"
| "exec (EvUnsent now i) s = startUnsent now i s"
| "exec (EvUncertain i) s = startUncertain i s"
| "exec (EvReplied now i g r p) s = startReplied now i g r p s"
| "exec (EvDetached n g) s = detached n g s"
| "exec EvClose s = close_service s"
| "exec EvCapture s = captureSync s"
| "exec EvSync s = syncStore s"
| "exec (EvConfirm i rv) s = (if (i, rv) \<in> synced s then confirm i rv s else s)"
| "exec (EvTake now i) s = writer_take now i s"
| "exec (EvWrite rd disk now i) s = writer_write rd disk now i s"
| "exec (EvTick now) s = fst (tick now s)"
| "exec (EvLog now n g b) s = fst (receiveLog now n g b s)"
| "exec (EvResult now n g b) s = fst (receiveResult now n g b s)"
| "exec (EvLosses now) s = applyLossesLocked now s"
| "exec (EvInventory now n g b rc) s = fst (fst (inventory now n g b (s, rc)))"
| "exec (EvCancel now ctxOk i sid) s = fst (cancel now ctxOk i sid s)"
| "exec (EvRequestCancel now i sid) s = requestCancel now i sid s"
| "exec (EvWaiter i) s = fst (waiterLocked i s)"
| "exec (EvDropWaiter i c) s = dropWaiterLocked i c s"
| "exec (EvTakeControl n g now l) s = fst (takeControl n g now l s)"
| "exec (EvControlDone i a t) s = controlDone i a t s"
| "exec EvReserveWait s = fst (reserveWait s)"
| "exec (EvReleaseWait r) s = releaseLocked (Some r) s"
| "exec (EvWait ids d rv) s = fst (wait_begin ids d rv s)"
| "exec (EvDecide r c) s = fst (wait_decide r c s)"
| "exec (EvPrepared now n g b) s = fst (prepared now n g b s)"
| "exec (EvPreparedRecheck now b) s = fst (preparedRecheck now b s)"
| "exec (EvAuthorize now i a c tree same idr cmr dl) s =
     fst (Authorize now i a c tree same (begin_intent idr cmr tree (na_Instance a) dl c) s)"
| "exec (EvSettle dg now i st) s = fst (Settle dg now i st s)"

definition run :: "event list \<Rightarrow> taskService \<Rightarrow> taskService" where
  "run evs s = fold exec evs s"

text \<open>An invariant of every event is an invariant of every run.\<close>

lemma run_inv: "P s \<Longrightarrow> (\<And>ev s. P s \<Longrightarrow> P (exec ev s)) \<Longrightarrow> P (run evs s)"
  unfolding run_def by (induction evs arbitrary: s) auto

text \<open>A reflexive and transitive relation that every event respects relates the ends of every run.\<close>

lemma run_rel:
  assumes "P s" and "\<And>s. R s s" and "\<And>a b c. R a b \<Longrightarrow> R b c \<Longrightarrow> R a c"
    and "\<And>ev s. P s \<Longrightarrow> P (exec ev s) \<and> R s (exec ev s)"
  shows "R s (run evs s)"
  using assms(1) unfolding run_def
proof (induction evs arbitrary: s)
  case (Cons ev evs)
  with assms(4) [of s ev] show ?case by (simp, metis assms(3))
qed (simp add: assms(2))

end
