(* ===== verification/Task_History.thy ===== *)
theory Task_History
  imports Task_System
begin

section \<open>What an operation may do to an entry\<close>

text \<open>
  \<open>entry_ok\<close> is the invariant of one entry, \<open>quiet\<close> the frame of every operation except the installation
  of a written document and the confirmation of a sync: the record changes at most in its log, a latched
  candidate, a selected stop intent and an authorized publication are kept, and the transport state only
  advances. Both are proved for the operations by rules that follow their composition.
\<close>

fun send_rank :: "sendState \<Rightarrow> nat" where
  "send_rank sendNone = 0"
| "send_rank sendQueued = 1"
| "send_rank sendSending = 2"
| "send_rank sendReplied = 3"
| "send_rank sendUnsent = 3"

definition cand_ok :: "taskEntry \<Rightarrow> terminalCand \<Rightarrow> bool" where
  "cand_ok e c \<longleftrightarrow> TaskTerminal (to_state (cd_outcome c)) \<and> (\<forall>q. cd_pub c = Some q \<longrightarrow> p_Phase q = PubPhaseSettled)
     \<and> (intentLocked e \<noteq> None \<longrightarrow> to_state (cd_outcome c) = TaskLost \<or> to_state (cd_outcome c) = TaskCancelled)"

definition settles :: "TaskPublication \<Rightarrow> terminalCand \<Rightarrow> bool" where
  "settles p c \<longleftrightarrow> to_state (cd_outcome c) = p_State p
     \<and> (\<exists>q. cd_pub c = Some q \<and> p_Phase q = PubPhaseSettled \<and> p_State q = p_State p \<and> p_ID q = p_ID p \<and> p_Candidate q = p_Candidate p)"

definition pub_ok :: "taskEntry \<Rightarrow> TaskPublication \<Rightarrow> bool" where
  "pub_ok e p \<longleftrightarrow> Workspace (te_rec e) \<noteq> None
     \<and> (p_Phase p = PubPhaseAuthorized \<longrightarrow> \<not> terminal e \<and> publishableState (p_State p)
          \<and> (intentLocked e \<noteq> None \<longrightarrow> p_State p = TaskCancelled) \<and> (\<forall>c. te_cand e = Some c \<longrightarrow> settles p c))
     \<and> (p_Phase p \<noteq> PubPhaseAuthorized \<longrightarrow> terminal e \<and> p_Phase p = PubPhaseSettled)"

definition entry_ok :: "taskEntry \<Rightarrow> bool" where
  "entry_ok e \<longleftrightarrow> (te_released e \<longrightarrow> terminal e)
     \<and> (terminal e \<longrightarrow> te_cand e = None \<and> te_pendingIntent e = None \<and> te_pendingPub e = None)
     \<and> (rec_StopIntent (te_rec e) \<noteq> None \<longrightarrow> te_pendingIntent e = None)
     \<and> (te_intentDurable e \<longrightarrow> rec_StopIntent (te_rec e) \<noteq> None)
     \<and> (\<forall>c. te_cand e = Some c \<longrightarrow> cand_ok e c)
     \<and> (Publication (te_rec e) \<noteq> None \<longrightarrow> te_pendingPub e = None)
     \<and> (\<forall>p. pubLocked e = Some p \<longrightarrow> pub_ok e p)
     \<and> (te_late e \<noteq> None \<longrightarrow> \<not> undecided e \<and> Late (te_rec e) = None \<and> ResultDigest (te_rec e) = None
          \<and> (\<forall>c. te_cand e = Some c \<longrightarrow> cd_digest c = ''''))
     \<and> (\<not> terminal e \<longrightarrow> ResultDigest (te_rec e) = None \<and> Late (te_rec e) = None)
     \<and> te_key e = keyOf (Role (te_rec e))
     \<and> ValidTaskState (State (te_rec e)) \<and> (rec_StopIntent (te_rec e) \<noteq> None \<longrightarrow> stopIntentState (State (te_rec e)))"

definition same_but_log :: "TaskRecord \<Rightarrow> TaskRecord \<Rightarrow> bool" where
  "same_but_log r r' \<longleftrightarrow> (\<exists>d. r' = r\<lparr>Log := (Log r)\<lparr>Data := d\<rparr>\<rparr>)"

definition quiet :: "taskEntry \<Rightarrow> taskEntry \<Rightarrow> bool" where
  "quiet e e' \<longleftrightarrow> same_but_log (te_rec e) (te_rec e') \<and> te_confirmed e' = te_confirmed e \<and> te_released e' = te_released e
     \<and> te_key e' = te_key e \<and> te_loaded e' = te_loaded e \<and> te_seq e' = te_seq e \<and> te_gen e' = te_gen e
     \<and> te_intentDurable e' = te_intentDurable e
     \<and> (intentLocked e \<noteq> None \<or> \<not> undecided e \<longrightarrow> te_pendingIntent e' = te_pendingIntent e)
     \<and> (pubLocked e \<noteq> None \<or> \<not> undecided e \<longrightarrow> te_pendingPub e' = te_pendingPub e)
     \<and> (\<not> undecided e \<longrightarrow> te_cand e' = te_cand e)
     \<and> (te_late e \<noteq> None \<longrightarrow> te_late e' = te_late e)
     \<and> send_rank (te_send e) \<le> send_rank (te_send e')
     \<and> (send_rank (te_send e) = 3 \<longrightarrow> te_send e' = te_send e)"

lemma same_but_log_refl [simp]: "same_but_log r r"
  unfolding same_but_log_def by (rule exI [of _ "Data (Log r)"]) simp

lemma same_but_log_upd [simp]: "same_but_log r (r\<lparr>Log := (Log r)\<lparr>Data := d\<rparr>\<rparr>)"
  by (auto simp: same_but_log_def)

lemma same_but_log_trans: "same_but_log a b \<Longrightarrow> same_but_log b c \<Longrightarrow> same_but_log a c"
  by (auto simp: same_but_log_def)

lemma same_but_logD:
  assumes "same_but_log r r'"
  shows "State r' = State r" "rec_StopIntent r' = rec_StopIntent r" "Publication r' = Publication r" "Workspace r' = Workspace r"
    "ResultDigest r' = ResultDigest r" "Late r' = Late r" "Role r' = Role r" "Revision r' = Revision r" "TaskID r' = TaskID r"
    "StartedAt r' = StartedAt r"
  using assms by (auto simp: same_but_log_def)

lemma quiet_refl [simp]: "quiet e e"
  by (simp add: quiet_def)

lemma quiet_rec: "quiet e e' \<Longrightarrow> same_but_log (te_rec e) (te_rec e')"
  by (simp add: quiet_def)

lemma quiet_terminal: "quiet e e' \<Longrightarrow> terminal e' = terminal e"
  by (simp add: terminal_def same_but_logD [OF quiet_rec])

lemma quietD:
  assumes "quiet e e'"
  shows quiet_pendingIntent: "intentLocked e \<noteq> None \<or> \<not> undecided e \<Longrightarrow> te_pendingIntent e' = te_pendingIntent e"
    and quiet_pendingPub: "pubLocked e \<noteq> None \<or> \<not> undecided e \<Longrightarrow> te_pendingPub e' = te_pendingPub e"
    and quiet_cand: "\<not> undecided e \<Longrightarrow> te_cand e' = te_cand e"
    and quiet_late: "te_late e \<noteq> None \<Longrightarrow> te_late e' = te_late e"
    and quiet_send: "send_rank (te_send e) \<le> send_rank (te_send e')" "send_rank (te_send e) = 3 \<Longrightarrow> te_send e' = te_send e"
    and quiet_same: "te_confirmed e' = te_confirmed e" "te_released e' = te_released e" "te_key e' = te_key e"
      "te_loaded e' = te_loaded e" "te_seq e' = te_seq e" "te_gen e' = te_gen e" "te_intentDurable e' = te_intentDurable e"
  using assms unfolding quiet_def by blast+

lemma quiet_intent: "quiet e e' \<Longrightarrow> intentLocked e \<noteq> None \<Longrightarrow> intentLocked e' = intentLocked e"
  using quiet_pendingIntent [of e e'] by (simp add: intentLocked_def same_but_logD [OF quiet_rec])

lemma quiet_pub: "quiet e e' \<Longrightarrow> pubLocked e \<noteq> None \<Longrightarrow> pubLocked e' = pubLocked e"
  using quiet_pendingPub [of e e'] by (simp add: pubLocked_def same_but_logD [OF quiet_rec])

lemma quiet_decided: "quiet e e' \<Longrightarrow> \<not> undecided e \<Longrightarrow> \<not> undecided e'"
  using quiet_terminal [of e e'] quiet_cand [of e e'] by (simp add: undecided_def)

lemma quiet_trans:
  assumes a: "quiet a b" and b: "quiet b c"
  shows "quiet a c"
proof -
  have 1: "same_but_log (te_rec a) (te_rec c)" using a b same_but_log_trans quiet_rec by blast
  have 2: "te_pendingIntent c = te_pendingIntent a" if "intentLocked a \<noteq> None \<or> \<not> undecided a"
    using that quiet_pendingIntent [OF a] quiet_pendingIntent [OF b] quiet_intent [OF a] quiet_decided [OF a] by metis
  have 3: "te_pendingPub c = te_pendingPub a" if "pubLocked a \<noteq> None \<or> \<not> undecided a"
    using that quiet_pendingPub [OF a] quiet_pendingPub [OF b] quiet_pub [OF a] quiet_decided [OF a] by metis
  have 4: "te_cand c = te_cand a" if "\<not> undecided a"
    using that quiet_cand [OF a] quiet_cand [OF b] quiet_decided [OF a] by metis
  have 5: "send_rank (te_send a) \<le> send_rank (te_send c)" using quiet_send [OF a] quiet_send [OF b] by simp
  have 6: "te_send c = te_send a" if "send_rank (te_send a) = 3" using that quiet_send(2) [OF a] quiet_send(2) [OF b] by simp
  have 7: "te_late c = te_late a" if "te_late a \<noteq> None" using that quiet_late [OF a] quiet_late [OF b] by simp
  show ?thesis unfolding quiet_def using 1 2 3 4 5 6 7 quiet_same [OF a] quiet_same [OF b] by simp
qed

subsection \<open>Composition\<close>

definition good :: "taskEntry \<Rightarrow> taskEntry \<Rightarrow> bool" where
  "good e e' \<longleftrightarrow> (entry_ok e \<longrightarrow> quiet e e' \<and> entry_ok e')"

lemma good_refl [simp]: "good e e"
  by (simp add: good_def)

lemma good_trans: "good a b \<Longrightarrow> good b c \<Longrightarrow> good a c"
  unfolding good_def using quiet_trans by blast

text \<open>An admission in progress carries a pending record of the role it selected.\<close>

definition pending_ok :: "admission \<Rightarrow> bool" where
  "pending_ok a \<longleftrightarrow> State (ad_rec a) = TaskPending \<and> rec_StopIntent (ad_rec a) = None \<and> Publication (ad_rec a) = None
     \<and> ResultDigest (ad_rec a) = None \<and> Late (ad_rec a) = None \<and> Role (ad_rec a) = ad_role a"

definition adm_ok :: "taskService \<Rightarrow> bool" where
  "adm_ok s \<longleftrightarrow> pred_option pending_ok (adm s)"

text \<open>The frame of an operation on the whole service: every entry moves by \<open>good\<close>, the store and the jobs stay.\<close>

definition calm :: "taskService \<Rightarrow> taskService \<Rightarrow> bool" where
  "calm s s' \<longleftrightarrow> (\<forall>i. rel_option good (tasks s i) (tasks s' i)) \<and> docs s' = docs s \<and> durable s' = durable s \<and> jobs s' = jobs s
     \<and> captured s' = captured s \<and> synced s' = synced s \<and> task_ids s' = task_ids s \<and> (adm_ok s \<longrightarrow> adm_ok s')"

lemma calm_refl [simp]: "calm s s"
  by (simp add: calm_def rel_option_reflI)

lemma calm_trans:
  assumes "calm a b" and "calm b c"
  shows "calm a c"
proof -
  have "good OO good \<le> good" using good_trans by auto
  then have "rel_option good OO rel_option good \<le> rel_option good"
    by (simp add: option.rel_compp [symmetric] option.rel_mono)
  then show ?thesis using assms unfolding calm_def by auto
qed

lemma calm_frame: "tasks s' = tasks s \<Longrightarrow> docs s' = docs s \<Longrightarrow> durable s' = durable s \<Longrightarrow> jobs s' = jobs s \<Longrightarrow>
    captured s' = captured s \<Longrightarrow> synced s' = synced s \<Longrightarrow> adm s' = adm s \<Longrightarrow> task_ids s' = task_ids s \<Longrightarrow> calm s s'"
  by (simp add: calm_def rel_option_reflI adm_ok_def)

lemma calm_adm: "calm s0 s \<Longrightarrow> (\<And>a. adm_ok s0 \<Longrightarrow> x = Some a \<Longrightarrow> pending_ok a) \<Longrightarrow> calm s0 (s\<lparr>adm := x\<rparr>)"
  by (cases x) (simp_all add: calm_def adm_ok_def)

lemma calm_admD: "calm s0 s \<Longrightarrow> adm_ok s0 \<Longrightarrow> adm s = Some a \<Longrightarrow> pending_ok a"
  by (simp add: calm_def adm_ok_def)

lemma calm_fields [simp]:
  "calm s0 (s\<lparr>reg := x0\<rparr>) = calm s0 s"
  "calm s0 (s\<lparr>roles := x1\<rparr>) = calm s0 s"
  "calm s0 (s\<lparr>gate := x2\<rparr>) = calm s0 s"
  "calm s0 (s\<lparr>admitted := x4\<rparr>) = calm s0 s"
  "calm s0 (s\<lparr>tokens := x5\<rparr>) = calm s0 s"
  "calm s0 (s\<lparr>nextToken := x6\<rparr>) = calm s0 s"
  "calm s0 (s\<lparr>woken := x7\<rparr>) = calm s0 s"
  "calm s0 (s\<lparr>nextChan := x8\<rparr>) = calm s0 s"
  "calm s0 (s\<lparr>waits := x9\<rparr>) = calm s0 s"
  "calm s0 (s\<lparr>regs := x10\<rparr>) = calm s0 s"
  "calm s0 (s\<lparr>nextReg := x11\<rparr>) = calm s0 s"
  "calm s0 (s\<lparr>waitReserve := x12\<rparr>) = calm s0 s"
  "calm s0 (s\<lparr>reservations := x13\<rparr>) = calm s0 s"
  "calm s0 (s\<lparr>nextReservation := x14\<rparr>) = calm s0 s"
  "calm s0 (s\<lparr>ctlNodes := x15\<rparr>) = calm s0 s"
  "calm s0 (s\<lparr>svc_closed := x16\<rparr>) = calm s0 s"
  "calm s0 (s\<lparr>counts := x18\<rparr>) = calm s0 s"
  "calm s0 (s\<lparr>blocked := x19\<rparr>) = calm s0 s"
  "calm s0 (s\<lparr>releases := x20\<rparr>) = calm s0 s"
  by (simp_all add: calm_def adm_ok_def)

text \<open>What \<open>good\<close> depends on; every other field is free.\<close>

definition core :: "taskEntry \<Rightarrow> _" where
  "core e = (te_rec e, te_confirmed e, te_released e, te_key e, te_loaded e, te_seq e, te_gen e, te_intentDurable e,
     te_pendingIntent e, te_pendingPub e, te_cand e, te_late e, te_send e)"

lemmas flat_preds = terminal_def intentLocked_def pubLocked_def undecided_def

lemma entry_ok_core: "core e' = core e \<Longrightarrow> entry_ok e' = entry_ok e"
  by (simp add: core_def entry_ok_def cand_ok_def pub_ok_def flat_preds)

lemma good_core: "core e' = core e \<Longrightarrow> good e e'"
  using entry_ok_core [of e' e] by (simp add: good_def quiet_def core_def)

lemma calm_put: "calm s0 s \<Longrightarrow> tasks s i = Some e \<Longrightarrow> good e e' \<Longrightarrow> calm s0 (put i e' s)"
  by (rule calm_trans) (auto simp: calm_def put_def rel_option_reflI adm_ok_def)

lemma calm_modE: "calm s0 s \<Longrightarrow> (\<And>e. tasks s i = Some e \<Longrightarrow> good e (f e)) \<Longrightarrow> calm s0 (modE i f s)"
  by (auto simp: modE_def split: option.split intro: calm_put)

lemma calm_refresh: "calm s0 s \<Longrightarrow> calm s0 (refreshLocked i s)"
proof (cases "tasks s i")
  case (Some e)
  assume "calm s0 s"
  then have "calm s0 (put i (e\<lparr>te_contribHeld := held e, te_contribRec := held e \<and> isReconciling e\<rparr>) s)"
    using Some by (rule calm_put) (simp add: good_core core_def)
  then show ?thesis using Some by (simp add: refreshLocked_def Let_def put_def calm_def adm_ok_def)
qed (simp add: refreshLocked_def)

lemma calm_wake: "calm s0 s \<Longrightarrow> calm s0 (wakeLocked i s)"
  by (auto simp: wakeLocked_def intro!: calm_modE good_core) (simp add: core_def)

lemma calm_notify: "calm s0 s \<Longrightarrow> calm s0 (notifyLocked i s)"
  by (auto simp: notifyLocked_def core_def split: option.split intro!: calm_put good_core)

lemma calm_want: "calm s0 s \<Longrightarrow> calm s0 (wantControlLocked i s)"
  by (auto simp: wantControlLocked_def split: option.split)

lemma calm_dropControl: "calm s0 s \<Longrightarrow> calm s0 (dropControlLocked i s)"
  by (auto simp: dropControlLocked_def core_def split: option.split intro!: calm_put good_core)

lemma calm_token: "calm s0 s \<Longrightarrow> calm s0 (release_token t s)"
  by (auto simp: release_token_def split: option.split)

lemma calm_fold: "calm s0 s \<Longrightarrow> (\<And>x s. calm s0 s \<Longrightarrow> calm s0 (f x s)) \<Longrightarrow> calm s0 (fold f xs s)"
  by (induction xs arbitrary: s) auto

lemma calm_dropWait: "calm s0 s \<Longrightarrow> calm s0 (dropWaitLocked r s)"
  by (auto simp: dropWaitLocked_def core_def split: option.split intro!: calm_fold calm_modE good_core)

lemma calm_wakeWaits: "calm s0 s \<Longrightarrow> calm s0 (wakeWaitsLocked i s)"
  by (auto simp: wakeWaitsLocked_def win_wait_def split: option.split intro!: calm_fold calm_dropWait)

lemma calm_settle: "calm s0 s \<Longrightarrow> (\<And>e. tasks s i = Some e \<Longrightarrow> good e (f e)) \<Longrightarrow> calm s0 (settle_entry i f s)"
  by (auto simp: settle_entry_def intro!: calm_wake calm_refresh calm_modE)

lemmas calm_prims = calm_refresh calm_wake calm_notify calm_want calm_dropControl calm_token calm_dropWait calm_wakeWaits

lemma calm_live [simp]: "calm s0 (fst (liveAttachment now n g s)) = calm s0 s"
  by (simp add: liveAttachment_def split_beta)

lemma calm_observe [simp]: "calm s0 (fst (observeLocked now t s)) = calm s0 s"
  by (simp add: observeLocked_def Let_def)

lemma calm_authorized [simp]: "calm s0 (fst (authorizedLocked now n g i tok s)) = calm s0 s"
  by (simp add: authorizedLocked_def split_beta split: option.split)

lemma authorized_entry: "snd (authorizedLocked now n g i tok s) = Inr e \<Longrightarrow> tasks s i = Some e"
  by (auto simp: authorizedLocked_def split_beta split: if_splits option.splits)

lemma authorized_tasks [simp]: "tasks (fst (authorizedLocked now n g i tok s)) = tasks s"
  by (simp add: authorizedLocked_def split_beta split: option.split)

subsection \<open>Latches\<close>

lemma no_pub: "entry_ok e \<Longrightarrow> undecided e \<Longrightarrow> \<not> publishingLocked e \<Longrightarrow> pubLocked e = None"
  by (cases "pubLocked e") (auto simp: entry_ok_def pub_ok_def publishingLocked_def undecided_def)

text \<open>Latching a candidate on an undecided task with no publication intent.\<close>

lemma good_latch:
  assumes u: "undecided e" and p: "\<not> publishingLocked e"
    and rec: "te_rec e' = te_rec e" and cand: "te_cand e' \<noteq> None" "cand_ok e (the (te_cand e'))"
    and same: "te_confirmed e' = te_confirmed e" "te_released e' = te_released e" "te_key e' = te_key e" "te_loaded e' = te_loaded e"
      "te_seq e' = te_seq e" "te_gen e' = te_gen e" "te_intentDurable e' = te_intentDurable e" "te_pendingIntent e' = te_pendingIntent e"
      "te_pendingPub e' = te_pendingPub e" "te_late e' = te_late e" "te_send e' = te_send e"
  shows "good e e'"
proof -
  have t: "terminal e' = terminal e" "intentLocked e' = intentLocked e" "pubLocked e' = pubLocked e"
    using rec same by (simp_all add: flat_preds)
  have "quiet e e'" using u rec cand same by (simp add: quiet_def)
  moreover have "entry_ok e'" if "entry_ok e"
    using that u no_pub [OF that u p] t rec cand same
    by (auto simp: entry_ok_def cand_ok_def undecided_def)
  ultimately show ?thesis by (simp add: good_def)
qed

lemma terminal_states [simp]: "TaskTerminal TaskLost" "TaskTerminal TaskCancelled" "TaskTerminal TaskRejected" "TaskTerminal TaskTimedOut"
    "TaskTerminal TaskFailed" "TaskTerminal TaskSucceeded" "\<not> TaskTerminal TaskPending" "\<not> TaskTerminal TaskRunning"
  by (simp_all add: TaskTerminal_def)

lemma good_latch_cancelled: "undecided e \<Longrightarrow> \<not> publishingLocked e \<Longrightarrow> good e (latch_cancelled now e)"
  by (rule good_latch) (simp_all add: latch_cancelled_def plane_cand_def cand_ok_def emptyOutcome_def)

lemma good_latch_refusal: "undecided e \<Longrightarrow> \<not> publishingLocked e \<Longrightarrow> good e (latch_refusal now r e)"
proof (cases "intentLocked e = None")
  case True
  assume "undecided e" "\<not> publishingLocked e"
  then show ?thesis using True
    by (intro good_latch) (simp_all add: latch_refusal_def plane_cand_def cand_ok_def emptyOutcome_def undecided_def)
next
  case False
  assume "undecided e" "\<not> publishingLocked e"
  then show ?thesis using False good_latch_cancelled [of e now] by (simp add: latch_refusal_def undecided_def)
qed

lemma good_latch_lost: "undecided e \<Longrightarrow> \<not> publishingLocked e \<Longrightarrow> good e (latch_lost now a b e)"
  by (rule good_latch) (simp_all add: latch_lost_def plane_cand_def cand_ok_def emptyOutcome_def undecided_def)

lemma calm_latchRefusal: "calm s0 s \<Longrightarrow> calm s0 (latchRefusalLocked now r i s)"
  by (auto simp: latchRefusalLocked_def split: option.split intro!: calm_settle good_latch_refusal)

lemma calm_latchLost: "calm s0 s \<Longrightarrow> calm s0 (latchLostLocked now a b i s)"
  by (auto simp: latchLostLocked_def split: option.split intro!: calm_settle good_latch_lost)

text \<open>The outcome derived from a worker result respects the stop intent.\<close>

lemma resultOutcome_state:
  "TaskTerminal (to_state (fst (snd (resultOutcome e b now))))"
  "intentLocked e \<noteq> None \<Longrightarrow> to_state (fst (snd (resultOutcome e b now))) = (if r_Outcome b = OutcomeLost then TaskLost else TaskCancelled)"
  by (simp_all add: resultOutcome_def Let_def split_beta)

lemma core_resultOutcome [simp]: "core (fst (resultOutcome e b now)) = core e"
  by (simp add: resultOutcome_def Let_def split_beta core_def)

lemma note_launch_intent [simp]: "intentLocked (note_launch b now e) = intentLocked e"
  by (simp add: note_launch_def Let_def flat_preds)

lemma core_note_launch [simp]: "core (note_launch b now e) = core e"
  by (simp add: note_launch_def Let_def core_def)

lemma good_latch_result:
  assumes "undecided e" and "\<not> publishingLocked e"
  shows "good e (latch_result b now e)"
proof (rule good_latch [OF assms])
  let ?n = "note_launch b now e"
  have c: "core (fst (resultOutcome ?n b now)) = core e" by simp
  show "te_rec (latch_result b now e) = te_rec e" "te_confirmed (latch_result b now e) = te_confirmed e"
    "te_released (latch_result b now e) = te_released e" "te_key (latch_result b now e) = te_key e"
    "te_loaded (latch_result b now e) = te_loaded e" "te_seq (latch_result b now e) = te_seq e"
    "te_gen (latch_result b now e) = te_gen e" "te_intentDurable (latch_result b now e) = te_intentDurable e"
    "te_pendingIntent (latch_result b now e) = te_pendingIntent e" "te_pendingPub (latch_result b now e) = te_pendingPub e"
    "te_late (latch_result b now e) = te_late e" "te_send (latch_result b now e) = te_send e"
    using c by (simp_all add: latch_result_def Let_def split_beta core_def)
  show "te_cand (latch_result b now e) \<noteq> None" by (simp add: latch_result_def Let_def split_beta)
  show "cand_ok e (the (te_cand (latch_result b now e)))"
    using resultOutcome_state [of ?n b now] by (auto simp: cand_ok_def latch_result_def Let_def split_beta split: if_splits)
qed

lemma latch_late_sel [simp]:
  "te_rec (latch_late b now e) = te_rec e" "te_released (latch_late b now e) = te_released e" "te_key (latch_late b now e) = te_key e"
  "te_cand (latch_late b now e) = te_cand e" "te_pendingIntent (latch_late b now e) = te_pendingIntent e"
  "te_pendingPub (latch_late b now e) = te_pendingPub e" "te_intentDurable (latch_late b now e) = te_intentDurable e"
  "terminal (latch_late b now e) = terminal e" "intentLocked (latch_late b now e) = intentLocked e"
  "pubLocked (latch_late b now e) = pubLocked e" "undecided (latch_late b now e) = undecided e"
  by (simp_all add: latch_late_def flat_preds)

lemma latch_late_ok [simp]: "cand_ok (latch_late b now e) = cand_ok e" "pub_ok (latch_late b now e) = pub_ok e"
  by (simp_all add: fun_eq_iff cand_ok_def pub_ok_def)

lemma other_recorded_late: "\<not> other_recorded e \<Longrightarrow> te_late e = None"
  by (auto simp: other_recorded_def)

lemma good_latch_late:
  assumes "\<not> undecided e" and "\<not> other_recorded e"
  shows "good e (latch_late b now e)"
proof -
  have "quiet e (latch_late b now e)" using assms other_recorded_late [OF assms(2)] by (simp add: quiet_def) (simp add: latch_late_def)
  moreover have "entry_ok (latch_late b now e)" if "entry_ok e"
  proof -
    have "Late (te_rec e) = None" "ResultDigest (te_rec e) = None"
      using that assms(2) by (cases "terminal e"; simp add: entry_ok_def other_recorded_def)+
    moreover have "\<forall>c. te_cand e = Some c \<longrightarrow> cd_digest c = ''''" using assms(2) by (simp add: other_recorded_def split: option.splits)
    ultimately show ?thesis using that assms(1) unfolding entry_ok_def latch_late_sel latch_late_ok by blast
  qed
  ultimately show ?thesis by (simp add: good_def)
qed

subsection \<open>Dispatcher callbacks and admission\<close>

lemma entry_ok_send [simp]: "entry_ok (e\<lparr>te_send := x\<rparr>) = entry_ok e"
  by (simp add: entry_ok_def cand_ok_def pub_ok_def flat_preds)

lemma rank_le_3: "send_rank x \<le> 3"
  by (cases x) simp_all

lemma good_send: "send_rank (te_send e) < send_rank x \<Longrightarrow> good e (e\<lparr>te_send := x\<rparr>)"
  using rank_le_3 [of x] by (simp add: good_def quiet_def)

lemma good_unsent: "te_send e \<noteq> sendSending \<Longrightarrow> te_send e \<noteq> sendReplied \<Longrightarrow> good e (e\<lparr>te_send := sendUnsent\<rparr>)"
  by (cases "te_send e") (auto intro: good_send good_core simp: core_def)

lemma calm_claim: "calm s0 s \<Longrightarrow> calm s0 (fst (claimStart i s))"
  by (auto simp: claimStart_def split: option.split intro!: calm_put good_send)

lemma calm_unsent: "calm s0 s \<Longrightarrow> calm s0 (startUnsent now i s)"
  by (auto simp: startUnsent_def split: option.split intro!: calm_latchRefusal calm_put good_unsent)

lemma calm_uncertain: "calm s0 s \<Longrightarrow> calm s0 (startUncertain i s)"
  by (auto simp: startUncertain_def core_def split: option.split intro!: calm_prims calm_put good_core)

lemma calm_submit: "calm s0 s \<Longrightarrow> calm s0 (submit i s)"
  by (auto simp: submit_def split: option.split intro!: calm_put good_send)

lemma calm_enqueue: "calm s0 s \<Longrightarrow> calm s0 (enqueueStart now x d i s)"
  by (auto simp: enqueueStart_def split: option.split intro!: calm_unsent calm_token)

lemma calm_replied: "calm s0 s \<Longrightarrow> calm s0 (startReplied now i gen refusal p s)"
  by (auto simp: startReplied_def Let_def reply_preparing_def reply_started_def core_def split: option.split
      intro!: calm_prims calm_latchRefusal calm_modE calm_put good_send intro: good_core)

lemma calm_detached: "calm s0 s \<Longrightarrow> calm s0 (detached node gen s)"
  by (auto simp: detached_def detach_task_def core_def split: option.split intro!: calm_fold calm_prims calm_put good_core)


lemma calm_reserveStart: "reserveStart d g s = Some (s', tok) \<Longrightarrow> calm s0 s' = calm s0 s"
  by (auto simp: reserveStart_def split: if_splits)

lemma calm_admit_begin: "calm s0 s \<Longrightarrow> calm s0 (fst (admit_begin now lookup b ok d req s))"
  by (auto simp: admit_begin_def admit_select_def Let_def split_beta calm_reserveStart split: option.split sum.split
      intro!: calm_adm) (simp_all add: pending_ok_def pendingRecord_def)

lemma calm_abort: "calm s0 s \<Longrightarrow> calm s0 (admit_abort a s)"
  by (auto simp: admit_abort_def intro!: calm_token calm_adm)

lemma calm_recheck: "calm s0 s \<Longrightarrow> (adm_ok s0 \<Longrightarrow> pending_ok a) \<Longrightarrow> calm s0 (fst (admit_recheck ctxOk now a s))"
  by (auto simp: admit_recheck_def Let_def split_beta intro!: calm_abort calm_adm) (simp add: pending_ok_def)

lemma calm_attempt: "calm s0 s \<Longrightarrow> calm s0 (fst (admit_attempt idr dg ctxOk now s))"
  by (auto simp: admit_attempt_def Let_def split: option.split sum.split intro!: calm_abort calm_recheck
      dest!: calm_admD) (simp add: pending_ok_def)

lemma calm_prepare: "calm s0 s \<Longrightarrow> calm s0 (fst (admit_prepare prep ctxOk now s))"
  by (auto simp: admit_prepare_def split: option.split sum.split intro!: calm_abort calm_recheck dest: calm_admD)

subsection \<open>The sweep, receipt and reconciliation\<close>

lemma calm_preparations: "calm s0 s \<Longrightarrow> calm s0 (expirePreparationsLocked now s)"
  by (auto simp: expirePreparationsLocked_def expire_preparation_def core_def split: option.split
      intro!: calm_fold calm_latchRefusal calm_put good_core)

lemma calm_tick: "calm s0 s \<Longrightarrow> calm s0 (fst (tick now s))"
  by (auto simp: tick_def tick_task_def Let_def core_def split: option.split
      intro!: calm_preparations calm_fold calm_prims calm_put good_core)

lemma calm_receive_primary: "calm s0 s \<Longrightarrow> tasks s i = Some e0 \<Longrightarrow> core e = core e0 \<Longrightarrow> calm s0 (fst (receive_primary b i e l s))"
  by (auto simp: receive_primary_def split_beta split: sum.split intro!: calm_put good_core) (simp_all add: core_def)

lemma calm_receive_late: "calm s0 s \<Longrightarrow> tasks s i = Some e0 \<Longrightarrow> core e = core e0 \<Longrightarrow> calm s0 (fst (receive_late b i e s))"
  by (auto simp: receive_late_def Let_def split_beta intro!: calm_put good_core) (simp_all add: core_def)

lemma core_bound [simp]: "core (e\<lparr>te_lateBound := x\<rparr>) = core e"
  by (simp add: core_def)

lemma calm_receiveLog: "calm s0 s \<Longrightarrow> calm s0 (fst (receiveLog now node gen b s))"
  by (auto simp: receiveLog_def Let_def split_beta split: sum.split option.split
      dest!: authorized_entry intro!: calm_receive_primary calm_receive_late)



lemma calm_receiveResult: "calm s0 s \<Longrightarrow> calm s0 (fst (receiveResult now node gen b s))"
  by (auto simp: receiveResult_def capture_result_def Let_def split_beta split: sum.split
      dest!: authorized_entry intro!: calm_settle intro: good_latch_result good_latch_late)

lemma calm_losses: "calm s0 s \<Longrightarrow> calm s0 (applyLossesLocked now s)"
  by (auto simp: applyLossesLocked_def apply_loss_def loss_task_def split: option.split intro!: calm_fold calm_latchLost)


lemma entry_ok_relog:
  assumes "te_rec e' = (te_rec e)\<lparr>Log := (Log (te_rec e))\<lparr>Data := l\<rparr>\<rparr>"
    and "te_released e' = te_released e" "te_key e' = te_key e" "te_intentDurable e' = te_intentDurable e"
      "te_pendingIntent e' = te_pendingIntent e" "te_pendingPub e' = te_pendingPub e" "te_cand e' = te_cand e" "te_late e' = te_late e"
  shows "entry_ok e' = entry_ok e"
proof -
  have "terminal e' = terminal e" "intentLocked e' = intentLocked e" "pubLocked e' = pubLocked e" "undecided e' = undecided e"
    using assms by (simp_all add: flat_preds)
  then show ?thesis using assms by (simp add: entry_ok_def cand_ok_def pub_ok_def)
qed

lemma good_resume:
  assumes r: "te_rec e' = (te_rec e)\<lparr>Log := (Log (te_rec e))\<lparr>Data := l\<rparr>\<rparr>" and s: "te_send e' = (if te_send e = sendSending then sendReplied else te_send e)"
    and f: "te_released e' = te_released e" "te_key e' = te_key e" "te_intentDurable e' = te_intentDurable e"
      "te_pendingIntent e' = te_pendingIntent e" "te_pendingPub e' = te_pendingPub e" "te_cand e' = te_cand e" "te_late e' = te_late e"
      "te_confirmed e' = te_confirmed e" "te_loaded e' = te_loaded e" "te_seq e' = te_seq e" "te_gen e' = te_gen e"
  shows "good e e'"
proof -
  have "quiet e e'" using assms by (simp add: quiet_def)
  then show ?thesis using entry_ok_relog [OF r] f by (simp add: good_def)
qed

lemma rec_relog: "\<exists>l. te_rec (resume_entry g a e) = (te_rec e)\<lparr>Log := (Log (te_rec e))\<lparr>Data := l\<rparr>\<rparr>"
proof -
  have "te_rec (resume_entry g a e) = te_rec e \<or> te_rec (resume_entry g a e) = clear_log (te_rec e)"
    by (simp add: resume_entry_def Let_def)
  then have "same_but_log (te_rec e) (te_rec (resume_entry g a e))" by (auto simp: clear_log_def)
  then show ?thesis unfolding same_but_log_def .
qed

lemma good_resume_entry:
  "good e (resume_entry g a e)"
  "good e ((resume_entry g a e)\<lparr>te_started := x, te_startedAt := t, te_needRunning := y\<rparr>)"
proof -
  obtain l where l: "te_rec (resume_entry g a e) = (te_rec e)\<lparr>Log := (Log (te_rec e))\<lparr>Data := l\<rparr>\<rparr>" using rec_relog by blast
  show "good e (resume_entry g a e)"
    by (rule good_resume [OF l]) (simp_all add: resume_entry_def Let_def)
  show "good e ((resume_entry g a e)\<lparr>te_started := x, te_startedAt := t, te_needRunning := y\<rparr>)"
    by (rule good_resume [where l = l]) (simp_all add: l, simp_all add: resume_entry_def Let_def)
qed

lemma calm_dispose: "calm s0 s \<Longrightarrow> tasks s i = Some e \<Longrightarrow> calm s0 (fst (disposeLocked now gen ie i e s))"
  by (auto simp: disposeLocked_def Let_def intro!: calm_want calm_modE calm_refresh calm_wake calm_put
      intro: good_resume_entry good_core simp: core_def)

lemma calm_inventory_entry: "calm s0 (fst sr) \<Longrightarrow> calm s0 (fst (fst (inventory_entry now node gen ie sr)))"
  by (auto simp: inventory_entry_def Let_def split_beta split: option.split intro!: calm_dispose calm_put good_core simp: core_def)

lemma calm_inventory_entries: "calm s0 (fst sr) \<Longrightarrow> calm s0 (fst (fst (inventory_entries now node gen ies sr)))"
proof (induction ies arbitrary: sr)
  case (Cons ie ies)
  with calm_inventory_entry [OF Cons.prems, of now node gen ie] show ?case by (auto simp: split_beta split: sum.split)
qed simp

lemma calm_inventory_final: "calm s0 (fst sr) \<Longrightarrow> calm s0 (fst (inventory_final now node gen sr))"
  by (auto simp: inventory_final_def missing_task_def Let_def split: option.split intro!: calm_fold calm_latchLost)

lemma calm_inventory: "calm s0 (fst sr) \<Longrightarrow> calm s0 (fst (fst (inventory now node gen b sr)))"
  using calm_losses [of s0 "fst sr" now]
  by (auto simp: inventory_def Let_def split_beta split: sum.split intro!: calm_inventory_final calm_inventory_entries)

subsection \<open>Controls, waits and publication\<close>

lemma intent_sel:
  fixes e x defines "e' \<equiv> e\<lparr>te_pendingIntent := Some x\<rparr>"
  shows "terminal e' = terminal e" "pubLocked e' = pubLocked e" "undecided e' = undecided e"
  by (simp_all add: e'_def flat_preds)

lemma good_intent:
  assumes "may_select e"
  shows "good e (e\<lparr>te_pendingIntent := Some x\<rparr>)"
proof -
  have u: "undecided e" "\<not> publishingLocked e" and i: "intentLocked e = None" using assms by (auto simp: may_select_def)
  have "quiet e (e\<lparr>te_pendingIntent := Some x\<rparr>)" using u i by (simp add: quiet_def)
  moreover have "entry_ok (e\<lparr>te_pendingIntent := Some x\<rparr>)" if "entry_ok e"
    using that u i no_pub [OF that u] unfolding entry_ok_def intent_sel
    by (auto simp: undecided_def intentLocked_def split: option.splits)
  ultimately show ?thesis by (simp add: good_def)
qed

lemma calm_select:
  assumes c: "calm s0 s" and m: "\<And>e. tasks s i = Some e \<Longrightarrow> may_select e"
  shows "calm s0 (selectIntentLocked now i sid s)"
proof (cases "tasks s i")
  case (Some e)
  let ?e1 = "e\<lparr>te_pendingIntent := Some \<lparr>s_ID = sid, s_Kind = ''cancelled'', s_RequestedAt = now\<rparr>\<rparr>"
  have g: "good e ?e1" using m [OF Some] by (rule good_intent)
  have u: "undecided ?e1" "\<not> publishingLocked ?e1" using m [OF Some]
    by (auto simp: may_select_def flat_preds publishingLocked_def)
  have "calm s0 (latchCancelledBeforeStartLocked now i (release_token t (put i (?e1\<lparr>te_send := sendUnsent\<rparr>) s)))"
    if "definitelyUnsentLocked ?e1" for t
  proof -
    have "good ?e1 (?e1\<lparr>te_send := sendUnsent\<rparr>)" using that by (intro good_unsent) (auto simp: definitelyUnsentLocked_def)
    then have "calm s0 (put i (?e1\<lparr>te_send := sendUnsent\<rparr>) s)" using c Some g good_trans calm_put by blast
    moreover have "good (?e1\<lparr>te_send := sendUnsent\<rparr>) (latch_cancelled now (?e1\<lparr>te_send := sendUnsent\<rparr>))"
      using u by (intro good_latch_cancelled) (auto simp: flat_preds publishingLocked_def)
    ultimately show ?thesis unfolding latchCancelledBeforeStartLocked_def
      by (intro calm_settle calm_token) (auto simp: release_token_def split: option.splits)
  qed
  then show ?thesis using c Some g by (auto simp: selectIntentLocked_def Let_def intro!: calm_prims intro: calm_put)
qed (simp add: selectIntentLocked_def c)

lemma calm_cancel: "calm s0 s \<Longrightarrow> calm s0 (fst (cancel now ctxOk i sid s))"
  by (auto simp: cancel_def split: option.split intro!: calm_select)

lemma calm_requestCancel: "calm s0 s \<Longrightarrow> calm s0 (requestCancel now i sid s)"
  by (auto simp: requestCancel_def split: option.split intro!: calm_select)

lemma calm_takeControl: "calm s0 s \<Longrightarrow> calm s0 (fst (takeControl node gen now lst s))"
  by (auto simp: takeControl_def Let_def core_def split: option.split intro!: calm_modE good_core)

lemma calm_controlDone: "calm s0 s \<Longrightarrow> calm s0 (controlDone i acked at s)"
  by (auto simp: controlDone_def core_def intro!: calm_modE good_core)

lemma calm_releaseLocked: "calm s0 s \<Longrightarrow> calm s0 (releaseLocked rv s)"
  by (auto simp: releaseLocked_def split: option.split)

lemma calm_reserveWait: "calm s0 s \<Longrightarrow> calm s0 (fst (reserveWait s))"
  by (auto simp: reserveWait_def)

lemma calm_register: "calm s0 s \<Longrightarrow> calm s0 (fst (registerWaitLocked ids s))"
  by (auto simp: registerWaitLocked_def Let_def core_def intro!: calm_fold calm_modE good_core)

lemma calm_wait_begin: "calm s0 s \<Longrightarrow> calm s0 (fst (wait_begin ids requested rv s))"
  by (auto simp: wait_begin_def Let_def split_beta split: option.split intro!: calm_releaseLocked calm_register)

lemma calm_wait_decide: "calm s0 s \<Longrightarrow> calm s0 (fst (wait_decide r c s))"
  by (auto simp: wait_decide_def Let_def split: option.split intro!: calm_dropWait)

lemma calm_waiter: "calm s0 s \<Longrightarrow> calm s0 (fst (waiterLocked i s))"
  by (auto simp: waiterLocked_def core_def intro!: calm_modE good_core)

lemma calm_dropWaiter: "calm s0 s \<Longrightarrow> calm s0 (dropWaiterLocked i c s)"
  by (auto simp: dropWaiterLocked_def core_def intro!: calm_modE good_core)

lemma calm_wait_prepared: "calm s0 s \<Longrightarrow> calm s0 (fst (wait_prepared i s))"
  using calm_waiter [of s0 s i] by (simp add: wait_prepared_def split_beta)

lemma calm_preparedLocked: "calm s0 s \<Longrightarrow> calm s0 (fst (preparedLocked now b i e s))"
  by (auto simp: preparedLocked_def core_def split: option.split
      intro!: calm_wait_prepared calm_latchRefusal calm_settle intro: good_core)

lemma calm_prepared: "calm s0 s \<Longrightarrow> calm s0 (fst (prepared now node gen b s))"
  by (auto simp: prepared_def Let_def split_beta split: sum.split intro!: calm_preparedLocked)

lemma calm_preparedRecheck: "calm s0 s \<Longrightarrow> calm s0 (fst (preparedRecheck now b s))"
  by (auto simp: preparedRecheck_def split: option.split intro!: calm_preparedLocked)


lemma begin_intent_ok: "begin_intent idr cmr tree inst dl c st = Inr p \<Longrightarrow> p_Phase p = PubPhaseAuthorized \<and> p_State p = st"
  by (auto simp: begin_intent_def split: sum.splits)

lemma good_authorize:
  assumes u: "undecided e" "pubLocked e = None" and w: "Workspace (te_rec e) \<noteq> None"
    and p: "p_Phase p = PubPhaseAuthorized" "p_State p = to_state (fst (snd (resultOutcome e c now)))" "publishableState (p_State p)"
    and l: "r_Outcome c \<noteq> OutcomeLost"
    and e': "e' = (fst (resultOutcome e c now))\<lparr>te_pendingPub := Some p, te_reconciling := False\<rparr>"
  shows "good e e'"
proof -
  have core: "core (fst (resultOutcome e c now)) = core e" by simp
  have sel: "te_rec e' = te_rec e" "te_confirmed e' = te_confirmed e" "te_released e' = te_released e" "te_key e' = te_key e"
    "te_loaded e' = te_loaded e" "te_seq e' = te_seq e" "te_gen e' = te_gen e" "te_intentDurable e' = te_intentDurable e"
    "te_pendingIntent e' = te_pendingIntent e" "te_cand e' = te_cand e" "te_late e' = te_late e" "te_send e' = te_send e"
    "te_pendingPub e' = Some p"
    using core by (simp_all add: e' core_def)
  have t: "terminal e' = terminal e" "intentLocked e' = intentLocked e" "undecided e' = undecided e" "pubLocked e' = Some p"
    using sel by (simp_all add: flat_preds)
  have "quiet e e'" using u sel by (simp add: quiet_def)
  moreover have "entry_ok e'" if ok: "entry_ok e"
  proof -
    have "p_State p = TaskCancelled" if "intentLocked e \<noteq> None"
      using resultOutcome_state(2) [OF that, of c now] p l by simp
    then have "pub_ok e' p" using u w p sel t by (simp add: pub_ok_def undecided_def)
    moreover have "Publication (te_rec e) = None" using u by (simp add: pubLocked_def split: option.splits)
    ultimately show ?thesis using ok u sel t by (simp add: entry_ok_def cand_ok_def undecided_def)
  qed
  ultimately show ?thesis by (simp add: good_def)
qed

lemma calm_Authorize:
  assumes c: "calm s0 s"
  shows "calm s0 (fst (Authorize now i a b tree same (begin_intent idr cmr tree inst dl b) s))"
proof -
  let ?build = "begin_intent idr cmr tree inst dl b"
  have new: "calm s0 (fst (authorize_new now i e b ?build s1))"
    if "tasks s1 i = Some e" "calm s0 s1" "undecided e" "pubLocked e = None" "Workspace (te_rec e) \<noteq> None" "r_Outcome b \<noteq> OutcomeLost"
    for s1 e
  proof -
    have g: "good e (fst (resultOutcome e b now))" by (simp add: good_core)
    have "good e ((fst (resultOutcome e b now))\<lparr>te_pendingPub := Some p, te_reconciling := False\<rparr>)"
      if p: "?build (to_state (fst (snd (resultOutcome e b now)))) = Inr p" "publishableState (to_state (fst (snd (resultOutcome e b now))))" for p
      using begin_intent_ok [OF p(1)] p(2) \<open>undecided e\<close> \<open>pubLocked e = None\<close> \<open>Workspace (te_rec e) \<noteq> None\<close> \<open>r_Outcome b \<noteq> OutcomeLost\<close>
      by (intro good_authorize [where p = p and c = b]) auto
    with that g show ?thesis
      by (auto simp: authorize_new_def split_beta split: sum.split intro!: calm_prims calm_put)
  qed
  show ?thesis using c
    by (auto simp: Authorize_def workspaceTaskLocked_def Let_def split_beta split: sum.splits option.splits intro!: new)
qed

lemma good_settled:
  assumes p: "Publication (te_rec e) = Some p" "p_Phase p \<noteq> PubPhaseSettled" and c: "te_cand e = None"
  shows "good e (latch_settled dg now p st e)"
proof -
  let ?e = "latch_settled dg now p st e"
  have core: "core (fst (resultOutcome e (p_Candidate p) now)) = core e" by simp
  have sel: "te_rec ?e = te_rec e" "te_confirmed ?e = te_confirmed e" "te_released ?e = te_released e" "te_key ?e = te_key e"
    "te_loaded ?e = te_loaded e" "te_seq ?e = te_seq e" "te_gen ?e = te_gen e" "te_intentDurable ?e = te_intentDurable e"
    "te_pendingIntent ?e = te_pendingIntent e" "te_late ?e = te_late e" "te_send ?e = te_send e" "te_pendingPub ?e = te_pendingPub e"
    using core by (simp_all add: latch_settled_def Let_def split_beta core_def)
  have t: "terminal ?e = terminal e" "intentLocked ?e = intentLocked e" "pubLocked ?e = pubLocked e"
    using sel by (simp_all add: flat_preds)
  have s: "settles p (the (te_cand ?e))" "te_cand ?e \<noteq> None"
    by (simp_all add: latch_settled_def Let_def split_beta settles_def settle_pub_def)
  show ?thesis unfolding good_def
  proof (intro impI conjI)
    assume ok: "entry_ok e"
    then have q: "pubLocked e = Some p" using p by (auto simp: entry_ok_def pubLocked_def)
    then have po: "pub_ok e p" using ok by (simp add: entry_ok_def)
    then have a: "p_Phase p = PubPhaseAuthorized" "\<not> terminal e" "publishableState (p_State p)"
      "intentLocked e \<noteq> None \<Longrightarrow> p_State p = TaskCancelled" using p by (auto simp: pub_ok_def)
    then show "quiet e ?e" using sel c by (simp add: quiet_def undecided_def)
    have "cand_ok ?e (the (te_cand ?e))"
      using a s t by (auto simp: cand_ok_def settles_def publishableState_def)
    moreover have "pub_ok ?e p" using po s t sel a by (auto simp: pub_ok_def)
    moreover have "te_late e = None" using ok a(2) c by (auto simp: entry_ok_def undecided_def)
    moreover obtain d where "te_cand ?e = Some d" using s(2) by blast
    ultimately show "entry_ok ?e" using ok q t sel a by (simp add: entry_ok_def)
  qed
qed

lemma calm_Settle: "calm s0 s \<Longrightarrow> calm s0 (fst (Settle dg now i st s))"
  by (auto simp: Settle_def workspaceTaskLocked_def split: sum.split option.splits if_splits intro!: calm_settle good_settled)

end
