(* ===== verification/Task_Store.thy ===== *)
theory Task_Store
  imports Task_History
begin

section \<open>Documents, jobs and durability\<close>

text \<open>
  The invariant that ties the entries to the task directory. A visible document is the entry's record
  up to the log bytes memory does not keep (\<open>bare\<close>); a confirmed record is durable; a released task has a
  durable terminal document with the same outcome; a job in flight was composed from the entry it will be
  installed in. It is preserved by every event, and with it the history relation \<open>hist\<close> of each entry.
\<close>

definition bare :: "TaskRecord \<Rightarrow> TaskRecord" where
  "bare r = clear_late (clear_log r)"

definition outcome_of :: "TaskRecord \<Rightarrow> _" where
  "outcome_of r = (State r, StartedAt r, FinishedAt r, ExitCode r, Signal r, FinalMessage r, FinalMessageTruncated r, Reason r,
     ResultDigest r, rec_StopIntent r, Publication r, WorkspaceResult r)"

definition next_rec :: "taskEntry \<Rightarrow> TaskRecord" where
  "next_rec e = (te_rec e)\<lparr>Revision := Revision (te_rec e) + 1\<rparr>"

definition job_ok :: "taskEntry \<Rightarrow> publicationJob \<Rightarrow> bool" where
  "job_ok e j \<longleftrightarrow> te_confirmed e \<and> (terminal e \<longleftrightarrow> pj_kind j = JobLate) \<and>
     (case pj_kind j of
        JobRunning \<Rightarrow> \<exists>t l. pj_rec j = (next_rec e)\<lparr>State := TaskRunning, StartedAt := Some t, Log := l\<rparr>
      | JobStopIntent \<Rightarrow> te_pendingIntent e \<noteq> None \<and> (\<exists>l. pj_rec j = (next_rec e)\<lparr>rec_StopIntent := te_pendingIntent e, Log := l\<rparr>)
      | JobPublicationIntent \<Rightarrow> te_pendingPub e \<noteq> None \<and> (\<exists>l. pj_rec j = (next_rec e)\<lparr>Publication := te_pendingPub e, Log := l\<rparr>)
      | JobLate \<Rightarrow> te_released e
      | JobCheckpoint \<Rightarrow> \<exists>l. pj_rec j = (next_rec e)\<lparr>Log := l\<rparr>
      | k \<Rightarrow> te_pendingIntent e = None \<and> te_pendingPub e = None
             \<and> (\<exists>c cands. te_cand e = Some c \<and> candKindName (cd_kind c) = k \<and> pj_rec j = terminal_record c (next_rec e) cands))"

definition store_ok :: "taskService \<Rightarrow> string \<Rightarrow> taskEntry \<Rightarrow> bool" where
  "store_ok s i e \<longleftrightarrow> (\<exists>d. docs s i = Some d \<and> bare d = bare (te_rec e))
     \<and> (te_confirmed e \<longrightarrow> (\<exists>d. durable s i = Some d \<and> bare d = bare (te_rec e)))
     \<and> (te_released e \<longrightarrow> (\<exists>d. durable s i = Some d \<and> outcome_of d = outcome_of (te_rec e)))
     \<and> ((i, Revision (te_rec e)) \<in> synced s \<longrightarrow> (\<exists>d. durable s i = Some d \<and> bare d = bare (te_rec e)))
     \<and> (\<forall>k. (i, k) \<in> captured s \<union> synced s \<longrightarrow> k \<le> Revision (te_rec e))"

text \<open>\<open>ids\<close> lists the tasks in order.\<close>

definition index_ok :: "taskService \<Rightarrow> bool" where
  "index_ok s \<longleftrightarrow> sorted (task_ids s) \<and> distinct (task_ids s) \<and> set (task_ids s) = dom (tasks s)"

definition svc_inv :: "taskService \<Rightarrow> bool" where
  "svc_inv s \<longleftrightarrow> (\<forall>i e. tasks s i = Some e \<longrightarrow> entry_ok e \<and> store_ok s i e)
     \<and> (\<forall>i j. jobs s i = Some j \<longrightarrow> (\<exists>e. tasks s i = Some e \<and> job_ok e j))
     \<and> (\<forall>i k. (i, k) \<in> captured s \<union> synced s \<longrightarrow> tasks s i \<noteq> None) \<and> adm_ok s
     \<and> index_ok s"

lemma bare_sel [simp]: "State (bare r) = State r" "Revision (bare r) = Revision r" "ResultDigest (bare r) = ResultDigest r"
    "outcome_of (bare r) = outcome_of r" "map_option l_Digest (Late (bare r)) = map_option l_Digest (Late r)"
    "TaskID (bare r) = TaskID r"
  by (simp_all add: bare_def clear_log_def clear_late_def outcome_of_def option.map_comp comp_def)

lemma bare_outcome: "bare d = bare r \<Longrightarrow> outcome_of d = outcome_of r"
  by (metis bare_sel(4))

lemma bare_idem [simp]: "bare (clear_log r) = bare r" "bare (clear_late r) = bare r" "bare (clear_late (clear_log r)) = bare r"
  by (simp_all add: bare_def clear_log_def clear_late_def option.map_comp comp_def)

lemma bare_same_but_log: "same_but_log r r' \<Longrightarrow> bare r' = bare r"
  by (auto simp: same_but_log_def bare_def clear_log_def clear_late_def)

lemma clear_sel [simp]:
  "State (clear_log r) = State r" "State (clear_late r) = State r" "rec_StopIntent (clear_log r) = rec_StopIntent r"
  "rec_StopIntent (clear_late r) = rec_StopIntent r" "Publication (clear_log r) = Publication r" "Publication (clear_late r) = Publication r"
  "Workspace (clear_log r) = Workspace r" "Workspace (clear_late r) = Workspace r" "ResultDigest (clear_log r) = ResultDigest r"
  "ResultDigest (clear_late r) = ResultDigest r" "Role (clear_log r) = Role r" "Role (clear_late r) = Role r"
  "Revision (clear_log r) = Revision r" "Revision (clear_late r) = Revision r" "(Late (clear_late r) = None) = (Late r = None)"
  "Late (clear_log r) = Late r" "TaskID (clear_log r) = TaskID r" "TaskID (clear_late r) = TaskID r"
  "outcome_of (clear_log r) = outcome_of r" "outcome_of (clear_late r) = outcome_of r"
  by (simp_all add: clear_log_def clear_late_def outcome_of_def)

subsection \<open>Calm operations\<close>

lemma terminal_record_log [simp]: "terminal_record c (r\<lparr>Log := l\<rparr>) cands = terminal_record c r cands"
  by (simp add: terminal_record_def apply_outcome_def workspaceTerminal_def Let_def split_beta)

lemma job_ok_quiet:
  assumes q: "quiet e e'" and j: "job_ok e j"
  shows "job_ok e' j"
proof -
  from quiet_rec [OF q] obtain d where d: "te_rec e' = (te_rec e)\<lparr>Log := (Log (te_rec e))\<lparr>Data := d\<rparr>\<rparr>"
    by (auto simp: same_but_log_def)
  then have n: "next_rec e' = (next_rec e)\<lparr>Log := (Log (te_rec e))\<lparr>Data := d\<rparr>\<rparr>" by (simp add: next_rec_def)
  have t: "terminal e' = terminal e" "te_confirmed e' = te_confirmed e" "te_released e' = te_released e"
    using quiet_terminal [OF q] quiet_same [OF q] by auto
  have pi: "te_pendingIntent e' = te_pendingIntent e" if "te_pendingIntent e \<noteq> None \<or> te_cand e \<noteq> None"
    using that by (intro quiet_pendingIntent [OF q]) (auto simp: intentLocked_def undecided_def)
  have pp: "te_pendingPub e' = te_pendingPub e" if "te_pendingPub e \<noteq> None \<or> te_cand e \<noteq> None"
    using that by (intro quiet_pendingPub [OF q]) (auto simp: pubLocked_def undecided_def)
  have c: "te_cand e' = te_cand e" if "te_cand e \<noteq> None"
    using that by (intro quiet_cand [OF q]) (auto simp: undecided_def)
  show ?thesis using j t n pi pp c by (cases "pj_kind j") (auto simp: job_ok_def)
qed

lemma store_ok_quiet:
  assumes "quiet e e'" and "store_ok s i e"
    and "docs s' = docs s" "durable s' = durable s" "captured s' = captured s" "synced s' = synced s"
  shows "store_ok s' i e'"
proof -
  have b: "bare (te_rec e') = bare (te_rec e)" using assms bare_same_but_log quiet_rec by blast
  have o: "outcome_of (te_rec e') = outcome_of (te_rec e)" using b by (rule bare_outcome)
  have r: "Revision (te_rec e') = Revision (te_rec e)" by (rule same_but_logD(8) [OF quiet_rec [OF assms(1)]])
  show ?thesis using assms(2) unfolding store_ok_def b o r assms(3-) quiet_same [OF assms(1)] .
qed

lemma svc_inv_calm:
  assumes inv: "svc_inv s" and c: "calm s s'"
  shows "svc_inv s'"
proof -
  have r: "rel_option good (tasks s i) (tasks s' i)" for i using c by (simp add: calm_def)
  have step: "\<exists>e. tasks s i = Some e \<and> quiet e e' \<and> entry_ok e'" if "tasks s' i = Some e'" for i e'
    using that r [of i] inv by (cases "tasks s i") (auto simp: good_def svc_inv_def)
  have stay: "\<exists>e'. tasks s' i = Some e' \<and> quiet e e'" if "tasks s i = Some e" for i e
    using that r [of i] inv by (cases "tasks s' i") (auto simp: good_def svc_inv_def)
  have fields: "docs s' = docs s" "durable s' = durable s" "captured s' = captured s" "synced s' = synced s" "jobs s' = jobs s"
    using c by (auto simp: calm_def)
  show ?thesis unfolding svc_inv_def
  proof (intro conjI allI impI)
    fix i e' assume "tasks s' i = Some e'"
    from step [OF this] obtain e where e: "tasks s i = Some e" "quiet e e'" "entry_ok e'" by blast
    then show "entry_ok e'" by blast
    from inv e(1) have "store_ok s i e" by (simp add: svc_inv_def)
    with e(2) show "store_ok s' i e'" using fields(1-4) by (rule store_ok_quiet)
  next
    fix i j assume "jobs s' i = Some j"
    then have "jobs s i = Some j" using fields by simp
    then obtain e where e: "tasks s i = Some e" "job_ok e j" using inv unfolding svc_inv_def by blast
    with stay [OF e(1)] job_ok_quiet show "\<exists>e'. tasks s' i = Some e' \<and> job_ok e' j" by blast
  next
    fix i k assume "(i, k) \<in> captured s' \<union> synced s'"
    then have "(i, k) \<in> captured s \<union> synced s" using fields by simp
    then obtain e where "tasks s i = Some e" using inv unfolding svc_inv_def by fast
    from stay [OF this] show "tasks s' i \<noteq> None" by auto
  next
    show "adm_ok s'" using c inv by (simp add: calm_def svc_inv_def)
    have "dom (tasks s') = dom (tasks s)" using step stay by blast
    then show "index_ok s'" using c inv by (simp add: calm_def svc_inv_def index_ok_def)
  qed
qed


subsection \<open>Operations on one entry's document\<close>

definition samecore :: "taskService \<Rightarrow> taskService \<Rightarrow> bool" where
  "samecore s s' \<longleftrightarrow> (\<forall>j. map_option core (tasks s' j) = map_option core (tasks s j)) \<and> docs s' = docs s \<and> durable s' = durable s
     \<and> jobs s' = jobs s \<and> captured s' = captured s \<and> synced s' = synced s \<and> adm s' = adm s \<and> task_ids s' = task_ids s"

lemma samecore_refl [simp]: "samecore s s"
  by (simp add: samecore_def)

lemma samecore_trans: "samecore a b \<Longrightarrow> samecore b c \<Longrightarrow> samecore a c"
  by (simp add: samecore_def)

lemma samecore_put: "samecore s0 s \<Longrightarrow> tasks s i = Some e \<Longrightarrow> core e' = core e \<Longrightarrow> samecore s0 (put i e' s)"
  by (erule samecore_trans) (auto simp: samecore_def put_def)

lemma samecore_modE: "samecore s0 s \<Longrightarrow> (\<And>e. core (f e) = core e) \<Longrightarrow> samecore s0 (modE i f s)"
  by (auto simp: modE_def split: option.split intro: samecore_put)

lemma samecore_fold: "samecore s0 s \<Longrightarrow> (\<And>x s. samecore s0 s \<Longrightarrow> samecore s0 (f x s)) \<Longrightarrow> samecore s0 (fold f xs s)"
  by (induction xs arbitrary: s) auto

lemma samecore_fields [simp]:
  "samecore s0 (s\<lparr>counts := a1\<rparr>) = samecore s0 s" "samecore s0 (s\<lparr>blocked := a2\<rparr>) = samecore s0 s"
  "samecore s0 (s\<lparr>releases := a3\<rparr>) = samecore s0 s" "samecore s0 (s\<lparr>woken := a4\<rparr>) = samecore s0 s"
  "samecore s0 (s\<lparr>ctlNodes := a5\<rparr>) = samecore s0 s" "samecore s0 (s\<lparr>regs := a6\<rparr>) = samecore s0 s"
  "samecore s0 (s\<lparr>waits := a7\<rparr>) = samecore s0 s"
  by (simp_all add: samecore_def)

lemma samecore_refresh: "samecore s0 s \<Longrightarrow> samecore s0 (refreshLocked i s)"
  by (erule samecore_trans) (auto simp: refreshLocked_def Let_def samecore_def core_def split: option.split)

lemma samecore_wake: "samecore s0 s \<Longrightarrow> samecore s0 (wakeLocked i s)"
  by (auto simp: wakeLocked_def core_def intro!: samecore_modE)

lemma samecore_notify: "samecore s0 s \<Longrightarrow> samecore s0 (notifyLocked i s)"
  by (auto simp: notifyLocked_def core_def split: option.split intro!: samecore_put)

lemma samecore_want: "samecore s0 s \<Longrightarrow> samecore s0 (wantControlLocked i s)"
  by (auto simp: wantControlLocked_def split: option.split)

lemma samecore_dropControl: "samecore s0 s \<Longrightarrow> samecore s0 (dropControlLocked i s)"
  by (auto simp: dropControlLocked_def core_def split: option.split intro!: samecore_put)

lemma samecore_dropWait: "samecore s0 s \<Longrightarrow> samecore s0 (dropWaitLocked r s)"
  by (auto simp: dropWaitLocked_def core_def split: option.split intro!: samecore_fold samecore_modE)

lemma samecore_wakeWaits: "samecore s0 s \<Longrightarrow> samecore s0 (wakeWaitsLocked i s)"
  by (auto simp: wakeWaitsLocked_def win_wait_def split: option.split intro!: samecore_fold samecore_dropWait)

lemmas samecore_prims = samecore_refresh samecore_wake samecore_notify samecore_want samecore_dropControl samecore_dropWait samecore_wakeWaits

text \<open>The entry a confirmed publication leaves.\<close>

definition finished :: "taskEntry \<Rightarrow> taskEntry" where
  "finished e =
     (let e1 = (if rec_StopIntent (te_rec e) \<noteq> None then e\<lparr>te_intentDurable := True\<rparr> else e) in
      if terminal e then e1\<lparr>te_released := True, te_rec := clear_late (clear_log (te_rec e))\<rparr>
      else if te_ring e \<noteq> None then e1\<lparr>te_rec := clear_log (te_rec e)\<rparr> else e1)"

lemma finish_intent_core:
  assumes "tasks s i = Some e"
  shows "\<exists>e1. tasks (finish_intent i s) i = Some e1 \<and> core e1 = core (if rec_StopIntent (te_rec e) \<noteq> None then e\<lparr>te_intentDurable := True\<rparr> else e)
    \<and> te_ring e1 = te_ring e \<and> te_released e1 = te_released e \<and> samecore (put i e1 s) (finish_intent i s)"
proof (cases "rec_StopIntent (te_rec e) \<noteq> None \<and> \<not> te_intentDurable e")
  case True
  have "samecore (put i (intent_committed e) s) (wantControlLocked i (put i (intent_committed e) s))"
    by (intro samecore_want) simp
  moreover have "tasks (wantControlLocked i (put i (intent_committed e) s)) i = Some (intent_committed e)"
    by (simp add: wantControlLocked_def put_def)
  ultimately show ?thesis using assms True
    by (auto simp: finish_intent_def intent_committed_def core_def split: option.split)
next
  case False
  then have "core e = core (if rec_StopIntent (te_rec e) \<noteq> None then e\<lparr>te_intentDurable := True\<rparr> else e)" by (auto simp: core_def)
  then show ?thesis using assms False by (auto simp: finish_intent_def samecore_def put_def)
qed

lemma finish_core:
  assumes "tasks s i = Some e"
  shows "samecore (put i (finished e) s) (finishPublicationLocked i s)"
proof -
  obtain e1 where e1: "tasks (finish_intent i s) i = Some e1" "te_ring e1 = te_ring e" "te_released e1 = te_released e"
    "core e1 = core (if rec_StopIntent (te_rec e) \<noteq> None then e\<lparr>te_intentDurable := True\<rparr> else e)"
    and sc: "samecore (put i e1 s) (finish_intent i s)" using finish_intent_core [OF assms] by blast
  have r: "te_rec e1 = te_rec e" using e1(4) by (simp add: core_def split: if_splits)
  then have t: "terminal e1 = terminal e" by (simp add: terminal_def)
  have put: "samecore (put i x s) (put i y (finish_intent i s))" if "core y = core x" for x y
    using sc that by (auto simp: samecore_def put_def)
  have 1: "samecore (put i (finished e) s) (put i (terminal_committed e1) (finish_intent i s))" if "terminal e"
    using that e1(4) r by (intro put) (auto simp: finished_def Let_def terminal_committed_def core_def split: if_splits)
  have 2: "samecore (put i (finished e) s) (put i (e1\<lparr>te_rec := clear_log (te_rec e1)\<rparr>) (finish_intent i s))"
    if "\<not> terminal e" "te_ring e \<noteq> None"
    using that e1(4) r by (intro put) (auto simp: finished_def Let_def core_def split: if_splits)
  have 3: "samecore (put i (finished e) s) (finish_intent i s)" if "\<not> terminal e" "te_ring e = None"
  proof -
    have "put i e1 (finish_intent i s) = finish_intent i s" using e1(1) by (simp add: put_def fun_upd_idem)
    then show ?thesis using that e1(4) put [of e1 "finished e"] by (simp add: finished_def Let_def)
  qed
  show ?thesis using e1(1) t 1 2 3 e1(2)
    by (auto simp: finishPublicationLocked_def Let_def intro!: samecore_notify samecore_dropControl samecore_wakeWaits)
qed

end
