(* ===== verification/Task_Invariant.thy ===== *)
theory Task_Invariant
  imports Task_Store
begin

section \<open>Every event preserves the store invariant\<close>

text \<open>
  The events that install a document, cover it by a sync or insert a new task. Together with the calm
  operations they give the invariant \<open>svc_inv\<close> of every run.
\<close>

lemma store_ok_core: "core e' = core e \<Longrightarrow> store_ok s i e' = store_ok s i e"
  by (simp add: store_ok_def core_def)

lemma job_ok_core: "core e' = core e \<Longrightarrow> job_ok e' j = job_ok e j"
  by (cases "pj_kind j") (simp_all add: job_ok_def core_def next_rec_def terminal_def)

lemma svc_invD:
  assumes "svc_inv s" and "tasks s i = Some e"
  shows "entry_ok e" "store_ok s i e" "jobs s i = Some j \<Longrightarrow> job_ok e j"
proof -
  show "entry_ok e" "store_ok s i e" using assms by (auto simp: svc_inv_def)
  assume "jobs s i = Some j"
  then obtain x where "tasks s i = Some x" "job_ok x j" using assms(1) unfolding svc_inv_def by blast
  then show "job_ok e j" using assms(2) by simp
qed

lemma svc_inv_none:
  assumes "svc_inv s" and "tasks s i = None"
  shows "(i, k) \<notin> captured s \<union> synced s" "jobs s i = None"
proof -
  show "(i, k) \<notin> captured s \<union> synced s" using assms unfolding svc_inv_def by blast
  have "jobs s i = Some j \<Longrightarrow> tasks s i \<noteq> None" for j using assms(1) unfolding svc_inv_def by blast
  then show "jobs s i = None" using assms(2) by (cases "jobs s i") auto
qed

lemma svc_inv_index: "svc_inv s \<Longrightarrow> index_ok s"
  by (simp add: svc_inv_def)

lemma index_put: "svc_inv s \<Longrightarrow> tasks s i = Some x \<Longrightarrow> tasks s1 = tasks s \<Longrightarrow> task_ids s1 = task_ids s \<Longrightarrow> index_ok (put i e s1)"
  by (auto simp: svc_inv_def index_ok_def put_def)

lemma svc_inv_adm: "svc_inv s \<Longrightarrow> adm_ok s"
  by (simp add: svc_inv_def)

lemma calm_entry:
  assumes "calm s s'" and "tasks s i = Some e" and "entry_ok e"
  shows "\<exists>e'. tasks s' i = Some e' \<and> quiet e e' \<and> entry_ok e'"
proof -
  have "rel_option good (tasks s i) (tasks s' i)" using assms(1) by (simp add: calm_def)
  then show ?thesis using assms(2,3) by (cases "tasks s' i") (auto simp: good_def)
qed

text \<open>One entry replaced, with its document; a job in flight is over.\<close>

lemma svc_inv_at:
  assumes inv: "svc_inv s"
    and t: "\<And>j. map_option core (tasks s' j) = map_option core (((tasks s)(i \<mapsto> e')) j)"
    and ok: "entry_ok e'" "store_ok s' i e'"
    and other: "\<And>j. j \<noteq> i \<Longrightarrow> docs s' j = docs s j \<and> durable s' j = durable s j"
    and sy: "captured s' = captured s" "synced s' = synced s" and js: "jobs s' = (jobs s)(i := None)" and ad: "adm_ok s'" and ix: "index_ok s'"
  shows "svc_inv s'"
  unfolding svc_inv_def
proof (intro conjI allI impI)
  fix j x assume x: "tasks s' j = Some x"
  have "entry_ok x \<and> store_ok s' j x"
  proof (cases "j = i")
    case True
    then have "core x = core e'" using t [of i] x by simp
    then show ?thesis using ok True entry_ok_core store_ok_core by blast
  next
    case False
    then obtain y where y: "tasks s j = Some y" "core x = core y" using t [of j] x by (cases "tasks s j") auto
    then have "entry_ok y" "store_ok s j y" using inv by (auto simp: svc_inv_def)
    moreover have "store_ok s' j y = store_ok s j y" using other [OF False] sy by (simp add: store_ok_def)
    ultimately show ?thesis using y(2) entry_ok_core store_ok_core by blast
  qed
  then show "entry_ok x" "store_ok s' j x" by auto
next
  fix j w assume w: "jobs s' j = Some w"
  then have n: "j \<noteq> i" "jobs s j = Some w" using js by (auto split: if_splits)
  then obtain y where y: "tasks s j = Some y" "job_ok y w" using inv unfolding svc_inv_def by blast
  then obtain x where "tasks s' j = Some x" "core x = core y" using t [of j] n(1) by auto
  then show "\<exists>x. tasks s' j = Some x \<and> job_ok x w" using y(2) job_ok_core by blast
next
  fix j k assume "(j, k) \<in> captured s' \<union> synced s'"
  then have "tasks s j \<noteq> None" using inv sy unfolding svc_inv_def by (metis (no_types, lifting))
  then show "tasks s' j \<noteq> None" using t [of j] by (cases "j = i") auto
next
  show "adm_ok s'" "index_ok s'" by (rule ad, rule ix)
qed

lemma samecore_dom: "samecore s s' \<Longrightarrow> dom (tasks s') = dom (tasks s)"
  unfolding samecore_def dom_def by (metis (no_types, lifting) map_option_is_None)

lemma svc_inv_put:
  assumes inv: "svc_inv s" and sc: "samecore (put i e' s1) s'" and t: "\<And>j. j \<noteq> i \<Longrightarrow> tasks s1 j = tasks s j"
    and ok: "entry_ok e'" "store_ok s1 i e'"
    and other: "\<And>j. j \<noteq> i \<Longrightarrow> docs s1 j = docs s j \<and> durable s1 j = durable s j"
    and sy: "captured s1 = captured s" "synced s1 = synced s" and js: "jobs s1 = (jobs s)(i := None)" and ad: "adm_ok s1" and ix: "index_ok (put i e' s1)"
  shows "svc_inv s'"
proof -
  have f: "docs s' = docs s1" "durable s' = durable s1" "captured s' = captured s" "synced s' = synced s" "jobs s' = (jobs s)(i := None)"
    using sc sy js by (simp_all add: samecore_def put_def)
  have "map_option core (tasks s' j) = map_option core (((tasks s)(i \<mapsto> e')) j)" for j
    using sc t [of j] by (simp add: samecore_def put_def)
  moreover have "store_ok s' i e'" using ok(2) f(1-4) sy by (simp add: store_ok_def)
  moreover have "adm_ok s'" using sc ad by (simp add: samecore_def put_def adm_ok_def)
  moreover have "index_ok s'" using sc ix samecore_dom [OF sc] by (simp add: samecore_def index_ok_def)
  ultimately show ?thesis using svc_inv_at [OF inv _ ok(1)] f other by simp
qed

lemma svc_inv_samecore: "svc_inv s \<Longrightarrow> samecore s s' \<Longrightarrow> svc_inv s'"
proof -
  assume inv: "svc_inv s" and sc: "samecore s s'"
  have "rel_option good (tasks s i) (tasks s' i)" for i
  proof -
    have "map_option core (tasks s' i) = map_option core (tasks s i)" using sc by (simp add: samecore_def)
    then show ?thesis by (cases "tasks s i"; cases "tasks s' i") (auto intro: good_core)
  qed
  then have "calm s s'" using sc by (simp add: calm_def samecore_def adm_ok_def)
  with inv show ?thesis by (rule svc_inv_calm)
qed

subsection \<open>Syncs\<close>

lemma svc_inv_capture: "svc_inv s \<Longrightarrow> svc_inv (captureSync s)"
proof -
  assume inv: "svc_inv s"
  have f: "tasks (captureSync s) = tasks s" "jobs (captureSync s) = jobs s" "docs (captureSync s) = docs s"
    "durable (captureSync s) = durable s" "synced (captureSync s) = synced s"
    "adm_ok (captureSync s) = adm_ok s" "index_ok (captureSync s) = index_ok s"
    by (simp_all add: captureSync_def adm_ok_def index_ok_def)
  have "store_ok (captureSync s) i e" if "tasks s i = Some e" "store_ok s i e" for i e
    using that captureSync_mem [of i _ s] unfolding store_ok_def f by auto
  moreover have "tasks s i \<noteq> None" if "(i, k) \<in> captured (captureSync s) \<union> synced s" for i k
    using that captureSync_mem [of i k s] svc_inv_none(1) [OF inv, of i k] by auto
  ultimately show ?thesis using inv unfolding svc_inv_def f by blast
qed

lemma svc_inv_sync: "svc_inv s \<Longrightarrow> svc_inv (syncStore s)"
proof -
  assume inv: "svc_inv s"
  have "store_ok (syncStore s) i e" if "store_ok s i e" for i e
    using that unfolding store_ok_def syncStore_def by (auto dest: bare_outcome)
  moreover have "tasks (syncStore s) = tasks s" "jobs (syncStore s) = jobs s"
    "captured (syncStore s) \<union> synced (syncStore s) = captured s \<union> synced s" "adm_ok (syncStore s) = adm_ok s" "index_ok (syncStore s) = index_ok s"
    by (auto simp: syncStore_def adm_ok_def index_ok_def)
  ultimately show ?thesis using inv unfolding svc_inv_def by presburger
qed

lemma finished_sel [simp]:
  "te_cand (finished e) = te_cand e" "te_pendingIntent (finished e) = te_pendingIntent e" "te_pendingPub (finished e) = te_pendingPub e"
  "te_late (finished e) = te_late e" "te_key (finished e) = te_key e" "te_confirmed (finished e) = te_confirmed e"
  "te_released (finished e) = (te_released e \<or> terminal e)" "State (te_rec (finished e)) = State (te_rec e)"
  "rec_StopIntent (te_rec (finished e)) = rec_StopIntent (te_rec e)" "Publication (te_rec (finished e)) = Publication (te_rec e)"
  "Workspace (te_rec (finished e)) = Workspace (te_rec e)" "ResultDigest (te_rec (finished e)) = ResultDigest (te_rec e)"
  "Role (te_rec (finished e)) = Role (te_rec e)" "Revision (te_rec (finished e)) = Revision (te_rec e)"
  "(Late (te_rec (finished e)) = None) = (Late (te_rec e) = None)" "bare (te_rec (finished e)) = bare (te_rec e)"
  "te_intentDurable (finished e) = (te_intentDurable e \<or> rec_StopIntent (te_rec e) \<noteq> None)"
  "outcome_of (te_rec (finished e)) = outcome_of (te_rec e)" "te_send (finished e) = te_send e" "te_loaded (finished e) = te_loaded e"
  "te_seq (finished e) = te_seq e" "te_gen (finished e) = te_gen e"
  by (simp_all add: finished_def Let_def)

lemma finished_flat [simp]: "terminal (finished e) = terminal e" "intentLocked (finished e) = intentLocked e" "pubLocked (finished e) = pubLocked e"
    "undecided (finished e) = undecided e"
  by (simp_all add: flat_preds)

lemma finished_ok [simp]: "cand_ok (finished e) = cand_ok e" "pub_ok (finished e) = pub_ok e"
  by (simp_all add: fun_eq_iff cand_ok_def pub_ok_def)

lemma entry_ok_finished: "entry_ok e \<Longrightarrow> entry_ok (finished e)"
  unfolding entry_ok_def finished_sel finished_flat finished_ok by blast

lemma entry_ok_confirmed [simp]: "entry_ok (e\<lparr>te_confirmed := a, te_fault := b\<rparr>) = entry_ok e"
  by (simp add: entry_ok_def cand_ok_def pub_ok_def flat_preds)

lemma store_ok_finished: "store_ok s i e \<Longrightarrow> te_confirmed e \<Longrightarrow> store_ok s i (finished e)"
  unfolding store_ok_def finished_sel by (blast dest: bare_outcome)

lemma svc_inv_confirm:
  assumes inv: "svc_inv s" and sy: "(i, rv) \<in> synced s"
  shows "svc_inv (confirm i rv s)"
proof (cases "tasks s i")
  case None
  then show ?thesis using inv by (simp add: confirm_def)
next
  case (Some e)
  show ?thesis
  proof (cases "te_confirmed e \<or> Revision (te_rec e) \<noteq> rv")
    case True
    then show ?thesis using inv Some by (simp add: confirm_def)
  next
    case False
    let ?x = "e\<lparr>te_confirmed := True, te_fault := False\<rparr>"
    let ?s = "finishPublicationLocked i (put i ?x s)"
    note ok = svc_invD(1,2) [OF inv Some]
    have x: "entry_ok ?x" using ok(1) by simp
    have "store_ok s i ?x" using ok(2) sy False unfolding store_ok_def by simp
    then have f: "entry_ok (finished ?x)" "store_ok s i (finished ?x)" using entry_ok_finished [OF x] store_ok_finished by auto
    have "jobs s i = None" using svc_invD(3) [OF inv Some] False unfolding job_ok_def by (cases "jobs s i") auto
    moreover have "samecore (put i (finished ?x) s) ?s" using finish_core [of "put i ?x s" i ?x] by (simp add: put_def)
    ultimately have "svc_inv ?s" using f svc_inv_adm [OF inv] index_put [OF inv Some]
      by (intro svc_inv_put [OF inv]) auto
    then show ?thesis using Some False svc_inv_calm calm_wake calm_refresh by (simp add: confirm_def)
  qed
qed


subsection \<open>The writer\<close>

lemma core_checkpointed [simp]: "core (checkpointed now e) = core e"
  by (simp add: checkpointed_def core_def)

lemma observe_fields [simp]:
  "tasks (fst (observeLocked now t s)) = tasks s" "jobs (fst (observeLocked now t s)) = jobs s"
  by (simp_all add: observeLocked_def Let_def)

lemma calm_fst_if: "calm s (fst a) \<Longrightarrow> calm s (fst b) \<Longrightarrow> calm s (fst (if c then a else b))"
  by simp

lemma calm_nextJob: "calm s (fst (nextJobLocked now i s))"
proof (cases "tasks s i")
  case (Some e)
  have p: "calm s (put i e' s)" if "core e' = core e" for e' using Some that by (intro calm_put good_core) auto
  have f: "core (e\<lparr>te_fault := a, te_commitFailed := b\<rparr>) = core e" for a b by (simp add: core_def)
  show ?thesis unfolding nextJobLocked_def Some option.case Let_def split_beta
    by (intro calm_fst_if) (simp_all add: p calm_refresh f)
qed (simp add: nextJobLocked_def)

lemma with_live_log_eq: "\<exists>l. with_live_log e r = r\<lparr>Log := l\<rparr>"
  by (cases "te_ring e") (auto simp: with_live_log_def intro: exI [of _ "Log r"])

lemma job_sel [simp]: "pj_kind (job k r) = k" "pj_rec (job k r) = r"
  by (simp_all add: job_def)

definition job_good :: "taskEntry \<Rightarrow> taskService \<times> publicationJob option \<times> bool \<Rightarrow> bool" where
  "job_good e r \<longleftrightarrow> (\<forall>j. fst (snd r) = Some j \<longrightarrow> job_ok e j)"

lemma job_good_if: "(c \<Longrightarrow> job_good e a) \<Longrightarrow> (\<not> c \<Longrightarrow> job_good e b) \<Longrightarrow> job_good e (if c then a else b)"
  by simp

lemma job_good_none [simp]: "job_good e (s, None, d)"
  by (simp add: job_good_def)

lemma job_good_some [simp]: "job_good e (s, Some j, d) = job_ok e j"
  by (simp add: job_good_def)

lemma job_ok_live:
  assumes "te_confirmed e" and "\<not> terminal e"
  shows "job_ok e (job JobRunning (with_live_log e ((next_rec e)\<lparr>State := TaskRunning, StartedAt := Some t\<rparr>)))"
    and "te_pendingIntent e \<noteq> None \<Longrightarrow> job_ok e (job JobStopIntent (with_live_log e ((next_rec e)\<lparr>rec_StopIntent := te_pendingIntent e\<rparr>)))"
    and "te_pendingPub e \<noteq> None \<Longrightarrow> job_ok e (job JobPublicationIntent (with_live_log e ((next_rec e)\<lparr>Publication := te_pendingPub e\<rparr>)))"
    and "job_ok e (job JobCheckpoint (with_live_log e (next_rec e)))"
  using assms with_live_log_eq [of e] by (simp_all add: job_ok_def) blast+

lemma job_ok_terminal:
  assumes "te_cand e \<noteq> None" and "te_confirmed e" "\<not> terminal e" "te_pendingIntent e = None" "te_pendingPub e = None"
  shows "job_ok e (job (candKindName (cd_kind (the (te_cand e)))) (terminal_record (the (te_cand e)) (next_rec e) cands))"
  using assms by (cases "cd_kind (the (te_cand e))") (auto simp: job_ok_def candKindName_def)

lemma running_not_terminal: "State (te_rec e) = TaskRunning \<Longrightarrow> \<not> terminal e"
  by (simp add: terminal_def)

lemma nextJob_job:
  assumes "tasks s i = Some e"
  shows "job_good e (nextJobLocked now i s)"
  unfolding nextJobLocked_def assms option.case Let_def split_beta next_rec_def [symmetric]
  by (intro job_good_if) (simp_all add: job_ok_live job_ok_terminal running_not_terminal, simp_all add: job_ok_def)


lemma svc_inv_jobs:
  assumes inv: "svc_inv s" and e: "tasks s i = Some e" "job_ok e j"
  shows "svc_inv (s\<lparr>jobs := (jobs s)(i \<mapsto> j)\<rparr>)"
proof -
  have "store_ok (s\<lparr>jobs := (jobs s)(i \<mapsto> j)\<rparr>) = store_ok s" "adm_ok (s\<lparr>jobs := (jobs s)(i \<mapsto> j)\<rparr>) = adm_ok s"
    "index_ok (s\<lparr>jobs := (jobs s)(i \<mapsto> j)\<rparr>) = index_ok s"
    by (simp_all add: store_ok_def adm_ok_def index_ok_def fun_eq_iff)
  then show ?thesis using assms unfolding svc_inv_def by simp
qed

lemma svc_inv_take: "svc_inv s \<Longrightarrow> svc_inv (writer_take now i s)"
proof (cases "\<exists>e. tasks s i = Some e \<and> te_writer e \<and> jobs s i = None")
  case False
  assume "svc_inv s"
  then show ?thesis using False by (auto simp: writer_take_def split: option.split)
next
  case True
  assume inv: "svc_inv s"
  from True obtain e where e: "tasks s i = Some e" "te_writer e" "jobs s i = None" by blast
  obtain s1 j d where n: "nextJobLocked now i s = (s1, j, d)" by (metis surj_pair)
  have c: "calm s s1" using calm_nextJob [of s now i] n by simp
  then have inv1: "svc_inv s1" using inv svc_inv_calm by blast
  have off: "svc_inv (modE i (\<lambda>e. e\<lparr>te_writer := False\<rparr>) s1)"
    using inv1 by (rule svc_inv_calm) (auto intro!: calm_modE good_core simp: core_def)
  have on: "svc_inv (s1\<lparr>jobs := (jobs s1)(i \<mapsto> k)\<rparr>)" if "j = Some k" for k
  proof -
    have "job_ok e k" using nextJob_job [OF e(1), of now] n that by simp
    moreover obtain e1 where "tasks s1 i = Some e1" "quiet e e1"
      using calm_entry [OF c e(1) svc_invD(1) [OF inv e(1)]] by blast
    ultimately show ?thesis using inv1 job_ok_quiet svc_inv_jobs by blast
  qed
  have w: "writer_take now i s = (if d then modE i (\<lambda>e. e\<lparr>te_writer := False\<rparr>) s1 else case j of Some k \<Rightarrow> s1\<lparr>jobs := (jobs s1)(i \<mapsto> k)\<rparr>
      | None \<Rightarrow> if svc_closed s1 then modE i (\<lambda>e. e\<lparr>te_writer := False\<rparr>) s1 else s1)"
    using e n by (cases d; cases j) (simp_all add: writer_take_def)
  show ?thesis
  proof (cases j)
    case None
    then show ?thesis unfolding w using off inv1 by simp
  next
    case (Some k)
    then show ?thesis unfolding w using off on [OF Some] by simp
  qed
qed

definition ident :: "TaskRecord \<Rightarrow> _" where
  "ident r = (TaskID r, Request r, Role r, RolesRevision r, Effective r, Execution r, CreatedAt r, StartDigest r, TimeoutPolicy r, Workspace r)"

lemma ident_upd [simp]: "ident (r\<lparr>State := a\<rparr>) = ident r" "ident (r\<lparr>StartedAt := b\<rparr>) = ident r" "ident (r\<lparr>Log := c\<rparr>) = ident r"
    "ident (r\<lparr>rec_StopIntent := d\<rparr>) = ident r" "ident (r\<lparr>Publication := f\<rparr>) = ident r" "ident (r\<lparr>Revision := g\<rparr>) = ident r"
  by (simp_all add: ident_def)

lemma install_sel [simp]:
  "te_rec (install_job now j ok e) = pj_rec j" "te_released (install_job now j ok e) = te_released e"
  "te_key (install_job now j ok e) = te_key e" "te_loaded (install_job now j ok e) = te_loaded e" "te_seq (install_job now j ok e) = te_seq e"
  "te_gen (install_job now j ok e) = te_gen e" "te_send (install_job now j ok e) = te_send e" "te_confirmed (install_job now j ok e) = ok"
  "te_intentDurable (install_job now j ok e) = te_intentDurable e"
  "te_pendingIntent (install_job now j ok e) = (if pj_kind j = JobStopIntent then None else te_pendingIntent e)"
  "te_pendingPub (install_job now j ok e) = (if pj_kind j = JobPublicationIntent then None else te_pendingPub e)"
  "te_cand (install_job now j ok e) = (if pj_kind j \<in> {JobTerminal, JobLost, JobRejected} then None else te_cand e)"
  "te_late (install_job now j ok e) = (if pj_kind j = JobLate then None else te_late e)"
  by (cases "pj_kind j"; simp add: install_job_def job_installed_def)+

lemma terminal_record_sel [simp]:
  "ident (terminal_record c r cands) = ident r" "Revision (terminal_record c r cands) = Revision r"
  "State (terminal_record c r cands) = to_state (cd_outcome c)" "rec_StopIntent (terminal_record c r cands) = rec_StopIntent r"
  "Role (terminal_record c r cands) = Role r" "Workspace (terminal_record c r cands) = Workspace r" "Late (terminal_record c r cands) = Late r"
  by (simp_all add: terminal_record_def apply_outcome_def Let_def split_beta ident_def split: option.split)

lemma terminal_record_pub:
  "Publication (terminal_record c r cands) = (if Workspace r = None \<or> cd_pub c = None then Publication r else cd_pub c)"
  by (simp add: terminal_record_def apply_outcome_def workspaceTerminal_def Let_def split_beta split: option.split)

lemma next_rec_sel [simp]:
  "State (next_rec e) = State (te_rec e)" "rec_StopIntent (next_rec e) = rec_StopIntent (te_rec e)" "Publication (next_rec e) = Publication (te_rec e)"
  "Workspace (next_rec e) = Workspace (te_rec e)" "ResultDigest (next_rec e) = ResultDigest (te_rec e)" "Role (next_rec e) = Role (te_rec e)"
  "Revision (next_rec e) = Revision (te_rec e) + 1" "Late (next_rec e) = Late (te_rec e)" "ident (next_rec e) = ident (te_rec e)"
  by (simp_all add: next_rec_def ident_def)


text \<open>A nonterminal document keeps the entry's decisions.\<close>

lemma entry_ok_step:
  assumes ok: "entry_ok e" and nt: "\<not> terminal e" "\<not> terminal x"
    and same: "intentLocked x = intentLocked e" "pubLocked x = pubLocked e" "te_cand x = te_cand e" "te_late x = te_late e"
      "Workspace (te_rec x) = Workspace (te_rec e)" "Role (te_rec x) = Role (te_rec e)" "ResultDigest (te_rec x) = ResultDigest (te_rec e)"
      "Late (te_rec x) = Late (te_rec e)" "te_key x = te_key e" "te_released x = te_released e"
    and new: "rec_StopIntent (te_rec x) \<noteq> None \<longrightarrow> te_pendingIntent x = None" "te_intentDurable x \<longrightarrow> rec_StopIntent (te_rec x) \<noteq> None"
      "Publication (te_rec x) \<noteq> None \<longrightarrow> te_pendingPub x = None"
    and valid: "ValidTaskState (State (te_rec x))"
  shows "entry_ok x"
proof -
  have "stopIntentState (State (te_rec x))" using nt(2) valid
    by (cases "State (te_rec x)") (auto simp: terminal_def TaskTerminal_def ValidTaskState_def stopIntentState_def)
  moreover have "cand_ok x = cand_ok e" "pub_ok x = pub_ok e" "undecided x = undecided e"
    using nt same by (simp_all add: fun_eq_iff cand_ok_def pub_ok_def undecided_def)
  ultimately show ?thesis using ok nt new valid unfolding entry_ok_def same by simp
qed

lemma entry_okD:
  assumes "entry_ok e"
  shows "te_released e \<Longrightarrow> terminal e"
    and "terminal e \<Longrightarrow> te_cand e = None \<and> te_pendingIntent e = None \<and> te_pendingPub e = None"
    and "rec_StopIntent (te_rec e) \<noteq> None \<Longrightarrow> te_pendingIntent e = None"
    and "te_intentDurable e \<Longrightarrow> rec_StopIntent (te_rec e) \<noteq> None"
    and "te_cand e = Some c \<Longrightarrow> cand_ok e c"
    and "Publication (te_rec e) \<noteq> None \<Longrightarrow> te_pendingPub e = None"
    and "pubLocked e = Some p \<Longrightarrow> pub_ok e p"
    and "te_late e \<noteq> None \<Longrightarrow> \<not> undecided e \<and> Late (te_rec e) = None \<and> ResultDigest (te_rec e) = None"
    and "te_late e \<noteq> None \<Longrightarrow> te_cand e = Some c \<Longrightarrow> cd_digest c = ''''"
    and "\<not> terminal e \<Longrightarrow> ResultDigest (te_rec e) = None \<and> Late (te_rec e) = None"
    and "te_key e = keyOf (Role (te_rec e))"
    and "rec_StopIntent (te_rec e) \<noteq> None \<Longrightarrow> stopIntentState (State (te_rec e))"
    and "ValidTaskState (State (te_rec e))"
  using assms unfolding entry_ok_def by blast+

lemma install_live_flat:
  assumes ok: "entry_ok e" and j: "job_ok e j" and k: "pj_kind j \<in> {JobRunning, JobStopIntent, JobPublicationIntent, JobCheckpoint}"
  shows "intentLocked (install_job now j b e) = intentLocked e" "pubLocked (install_job now j b e) = pubLocked e"
  using entry_okD(3,6) [OF ok] j k by (auto simp: job_ok_def intentLocked_def pubLocked_def split: option.split)

lemma install_live_ok:
  assumes ok: "entry_ok e" and j: "job_ok e j" and k: "pj_kind j \<in> {JobRunning, JobStopIntent, JobPublicationIntent, JobCheckpoint}"
  shows "entry_ok (install_job now j b e)" (is "entry_ok ?x")
proof (rule entry_ok_step [OF ok])
  show nt: "\<not> terminal e" using j k by (auto simp: job_ok_def)
  then show "\<not> terminal ?x" using j k by (auto simp: job_ok_def terminal_def)
  show "intentLocked ?x = intentLocked e" "pubLocked ?x = pubLocked e" by (rule install_live_flat [OF ok j k])+
  show "te_cand ?x = te_cand e" "te_late ?x = te_late e" "te_key ?x = te_key e" "te_released ?x = te_released e" using k by auto
  show "Workspace (te_rec ?x) = Workspace (te_rec e)" "Role (te_rec ?x) = Role (te_rec e)"
    "ResultDigest (te_rec ?x) = ResultDigest (te_rec e)" "Late (te_rec ?x) = Late (te_rec e)"
    using j k by (auto simp: job_ok_def)
  show "rec_StopIntent (te_rec ?x) \<noteq> None \<longrightarrow> te_pendingIntent ?x = None" "Publication (te_rec ?x) \<noteq> None \<longrightarrow> te_pendingPub ?x = None"
    "te_intentDurable ?x \<longrightarrow> rec_StopIntent (te_rec ?x) \<noteq> None"
    using entry_okD(3,4,6) [OF ok] j k by (auto simp: job_ok_def)
  show "ValidTaskState (State (te_rec ?x))" using entry_okD(13) [OF ok] j k by (auto simp: job_ok_def ValidTaskState_def)
qed

lemma terminal_job:
  assumes "job_ok e j" and "pj_kind j \<in> {JobTerminal, JobLost, JobRejected}"
  obtains c cands where "te_cand e = Some c" "pj_rec j = terminal_record c (next_rec e) cands" "te_pendingIntent e = None" "te_pendingPub e = None"
    "\<not> terminal e"
  using assms by (auto simp: job_ok_def)

lemma terminal_pub:
  assumes ok: "entry_ok e" and c: "te_cand e = Some c" and nt: "\<not> terminal e" and pp: "te_pendingPub e = None"
    and p: "Publication (terminal_record c (next_rec e) cands) = Some p"
  shows "Workspace (te_rec e) \<noteq> None \<and> p_Phase p = PubPhaseSettled \<and> cd_pub c = Some p"
proof -
  have none: "Publication (te_rec e) = None" if "Workspace (te_rec e) = None \<or> cd_pub c = None"
  proof (rule ccontr)
    assume "Publication (te_rec e) \<noteq> None"
    then obtain q where "pubLocked e = Some q" using pp by (auto simp: pubLocked_def)
    from entry_okD(7) [OF ok this] show False using that nt c by (auto simp: pub_ok_def settles_def)
  qed
  show ?thesis using entry_okD(5) [OF ok c] p none by (auto simp: terminal_record_pub cand_ok_def split: if_splits)
qed

lemma install_terminal_ok:
  assumes ok: "entry_ok e" and j: "job_ok e j" and k: "pj_kind j \<in> {JobTerminal, JobLost, JobRejected}"
  shows "entry_ok (install_job now j b e)" (is "entry_ok ?x")
proof -
  obtain c cands where c: "te_cand e = Some c" "pj_rec j = terminal_record c (next_rec e) cands" "te_pendingIntent e = None" "te_pendingPub e = None"
    "\<not> terminal e" using terminal_job [OF j k] by blast
  have t: "terminal ?x" using entry_okD(5) [OF ok c(1)] c(2) by (simp add: terminal_def cand_ok_def)
  have n: "te_cand ?x = None" "te_pendingIntent ?x = None" "te_pendingPub ?x = None" "te_late ?x = te_late e" using c k by auto
  have "pub_ok ?x p" if "pubLocked ?x = Some p" for p
    using terminal_pub [OF ok c(1) c(5) c(4)] that n(3) t c(2) by (auto simp: pub_ok_def pubLocked_def)
  moreover have "te_late e \<noteq> None \<longrightarrow> ResultDigest (te_rec ?x) = None \<and> Late (te_rec ?x) = None"
    using entry_okD(8,9) [OF ok] c(1,2)
    by (auto simp: terminal_record_def apply_outcome_def Let_def split_beta split: option.split)
  moreover have "te_intentDurable ?x \<longrightarrow> rec_StopIntent (te_rec ?x) \<noteq> None" "te_key ?x = keyOf (Role (te_rec ?x))"
    using entry_okD(4,11) [OF ok] c(2) by simp_all
  moreover have "ValidTaskState (State (te_rec ?x))" "rec_StopIntent (te_rec ?x) \<noteq> None \<longrightarrow> stopIntentState (State (te_rec ?x))"
    using entry_okD(5) [OF ok c(1)] c(2,3)
    by (auto simp: cand_ok_def TaskTerminal_def ValidTaskState_def stopIntentState_def intentLocked_def)
  ultimately show ?thesis using t n unfolding entry_ok_def by (simp add: undecided_def)
qed


definition late_doc :: "taskEntry \<Rightarrow> TaskRecord \<Rightarrow> bool" where
  "late_doc e r \<longleftrightarrow> (\<exists>l d lg. te_late e = Some l \<and> r = (te_rec e)\<lparr>Revision := Revision (te_rec e) + 1, Log := (Log (te_rec e))\<lparr>Data := d\<rparr>,
     Late := Some (LateFrom (lc_result l) (lc_at l) lg)\<rparr>)"

lemma composeLate_doc: "composeLate rd i j s = Inr j' \<Longrightarrow> tasks s i = Some e \<Longrightarrow> pj_kind j' = JobLate \<and> late_doc e (pj_rec j')"
  by (clarsimp simp: composeLate_def late_doc_def Let_def split: option.splits if_splits) blast

lemma late_docD:
  assumes "late_doc e r"
  shows "outcome_of r = outcome_of (te_rec e)" "Revision r = Revision (te_rec e) + 1" "ident r = ident (te_rec e)" "State r = State (te_rec e)"
    "rec_StopIntent r = rec_StopIntent (te_rec e)" "Publication r = Publication (te_rec e)" "ResultDigest r = ResultDigest (te_rec e)"
    "Role r = Role (te_rec e)" "Workspace r = Workspace (te_rec e)" "te_late e \<noteq> None"
  using assms by (auto simp: late_doc_def outcome_of_def ident_def)

lemma entry_ok_clear_late: "entry_ok (x\<lparr>te_rec := clear_late (te_rec x)\<rparr>) = entry_ok x"
  by (simp add: entry_ok_def cand_ok_def pub_ok_def flat_preds)

lemma install_late_ok:
  assumes ok: "entry_ok e" and t: "terminal e" and r: "late_doc e (pj_rec j)" and k: "pj_kind j = JobLate"
  shows "entry_ok (install_job now j b e)" (is "entry_ok ?x")
proof -
  note d = late_docD [OF r]
  have f: "terminal ?x = terminal e" "intentLocked ?x = intentLocked e" "pubLocked ?x = pubLocked e"
    using k d by (simp_all add: flat_preds)
  then have "pub_ok ?x = pub_ok e" "cand_ok ?x = cand_ok e" using d k by (simp_all add: fun_eq_iff pub_ok_def cand_ok_def)
  then show ?thesis using ok t f d k unfolding entry_ok_def install_sel by simp
qed

text \<open>The document a writer's job becomes.\<close>

definition doc_ok :: "taskEntry \<Rightarrow> publicationJob \<Rightarrow> bool" where
  "doc_ok e j \<longleftrightarrow> (if pj_kind j = JobLate then terminal e \<and> te_released e \<and> late_doc e (pj_rec j) else job_ok e j)"

lemma install_ok:
  assumes "entry_ok e" and "doc_ok e j"
  shows "entry_ok (install_job now j b e)"
  using assms install_late_ok [of e j now b] install_live_ok [of e j now b] install_terminal_ok [of e j now b]
  by (cases "pj_kind j") (auto simp: doc_ok_def)

lemma doc_ident:
  assumes "doc_ok e j"
  shows "ident (pj_rec j) = ident (te_rec e)" "Revision (pj_rec j) = Revision (te_rec e) + 1"
proof -
  have "ident (pj_rec j) = ident (te_rec e) \<and> Revision (pj_rec j) = Revision (te_rec e) + 1"
  proof (cases "pj_kind j = JobLate")
    case True
    then show ?thesis using assms late_docD [of e "pj_rec j"] by (simp add: doc_ok_def)
  next
    case False
    then have "job_ok e j" using assms by (simp add: doc_ok_def)
    then show ?thesis using False by (cases "pj_kind j") (auto simp: job_ok_def)
  qed
  then show "ident (pj_rec j) = ident (te_rec e)" "Revision (pj_rec j) = Revision (te_rec e) + 1" by auto
qed


lemma store_ok_install:
  assumes "store_ok s i e" and "doc_ok e j" and r: "te_released e \<longrightarrow> pj_kind j = JobLate"
    and s: "docs s' i = Some (pj_rec j)" "captured s' = captured s" "synced s' = synced s"
    and x: "bare (te_rec x) = bare (pj_rec j)" "te_released x = te_released e"
    and d: "te_confirmed x \<longrightarrow> durable s' i = Some (pj_rec j)" "\<not> te_confirmed x \<longrightarrow> durable s' i = durable s i"
  shows "store_ok s' i x"
proof -
  have rv: "Revision (te_rec x) = Revision (te_rec e) + 1" using x(1) doc_ident(2) [OF assms(2)] by (metis bare_sel(2))
  have o: "outcome_of (te_rec x) = outcome_of (pj_rec j)" using x(1) by (metis bare_sel(4))
  have le: "k \<le> Revision (te_rec e)" if "(i, k) \<in> captured s \<union> synced s" for k using assms(1) that by (auto simp: store_ok_def)
  have rel: "\<exists>d. durable s' i = Some d \<and> outcome_of d = outcome_of (te_rec x)" if "te_released x"
  proof (cases "te_confirmed x")
    case True
    then show ?thesis using d(1) o by simp
  next
    case False
    have "late_doc e (pj_rec j)" using that x(2) r assms(2) by (simp add: doc_ok_def)
    then have "outcome_of (te_rec x) = outcome_of (te_rec e)" using o late_docD(1) by simp
    then show ?thesis using False d(2) assms(1) that x(2) by (auto simp: store_ok_def)
  qed
  have "(i, Revision (te_rec x)) \<notin> synced s" using le [of "Revision (te_rec x)"] rv by auto
  moreover have "k \<le> Revision (te_rec x)" if "(i, k) \<in> captured s \<union> synced s" for k using le [OF that] rv by simp
  ultimately show ?thesis using rel s x(1) d unfolding store_ok_def by simp
qed

lemma svc_inv_failed:
  assumes inv: "svc_inv s" and e: "tasks s i = Some e"
  shows "svc_inv (applyLocked now i j DiskFailed (s\<lparr>jobs := (jobs s)(i := None)\<rparr>))"
proof -
  let ?s = "s\<lparr>jobs := (jobs s)(i := None)\<rparr>"
  let ?x = "job_failed (pj_kind j) (e\<lparr>te_fault := True, te_retryAt := Some (now + storageRetry)\<rparr>)"
  have c: "core ?x = core e" by (cases "pj_kind j") (simp_all add: job_failed_def core_def)
  have "store_ok ?s i ?x" "entry_ok ?x" "adm_ok ?s" using svc_invD [OF inv e] store_ok_core [OF c] entry_ok_core [OF c] svc_inv_adm [OF inv]
    by (simp_all add: store_ok_def adm_ok_def)
  then have "svc_inv (put i ?x ?s)" using index_put [OF inv e, of ?s]
    by (intro svc_inv_put [OF inv, where i = i and e' = ?x and ?s1.0 = ?s]) auto
  then have "svc_inv (refreshLocked i (put i ?x ?s))" by (rule svc_inv_calm) (simp add: calm_refresh)
  then show ?thesis using e by (simp add: applyLocked_def modE_def)
qed

lemma svc_inv_apply:
  assumes inv: "svc_inv s" and e: "tasks s i = Some e" and j: "doc_ok e j"
  shows "svc_inv (applyLocked now i j disk (update_store i (pj_rec j) disk (s\<lparr>jobs := (jobs s)(i := None)\<rparr>)))"
proof -
  let ?s0 = "s\<lparr>jobs := (jobs s)(i := None)\<rparr>"
  let ?u = "update_store i (pj_rec j) disk ?s0"
  note ok = svc_invD(1,2) [OF inv e]
  have rel: "te_released e \<longrightarrow> pj_kind j = JobLate" using entry_okD(1) [OF ok(1)] j by (auto simp: doc_ok_def job_ok_def split: if_splits)
  note io = install_ok [OF ok(1) j]
  have u: "tasks ?u = tasks s" "captured ?u = captured s" "synced ?u = synced s" "jobs ?u = (jobs s)(i := None)" "adm_ok ?u"
    "task_ids ?u = task_ids s"
    "\<And>j. j \<noteq> i \<Longrightarrow> docs ?u j = docs s j \<and> durable ?u j = durable s j"
    using svc_inv_adm [OF inv] by (auto simp: update_store_def adm_ok_def split: disk_outcome.split)
  note fin = svc_inv_put [OF inv, where ?s1.0 = ?u and i = i]
  have m: "modE i f ?u = put i (f e) ?u" for f using e u(1) by (simp add: modE_def)
  have re: "svc_inv (refreshLocked i x)" if "svc_inv x" for x using that by (rule svc_inv_calm) (simp add: calm_refresh)
  show ?thesis
  proof (cases disk)
    case DiskOk
    let ?x = "install_job now j True e"
    have "store_ok ?u i ?x" by (rule store_ok_install [OF ok(2) j rel]) (simp_all add: DiskOk update_store_def)
    then have "entry_ok (finished ?x)" "store_ok ?u i (finished ?x)" using io entry_ok_finished store_ok_finished by auto
    moreover have "samecore (put i (finished ?x) ?u) (finishPublicationLocked i (put i ?x ?u))"
      using finish_core [of "put i ?x ?u" i ?x] by (simp add: put_def)
    ultimately have "svc_inv (finishPublicationLocked i (put i ?x ?u))" using u index_put [OF inv e u(1,6)] by (intro fin) auto
    then show ?thesis using DiskOk m re by (simp add: applyLocked_def)
  next
    case DiskUnconfirmed
    let ?x = "(install_job now j False e)\<lparr>te_rec := clear_late (pj_rec j)\<rparr>"
    have "store_ok ?u i ?x" by (rule store_ok_install [OF ok(2) j rel]) (simp_all add: DiskUnconfirmed update_store_def)
    moreover have "entry_ok ?x" using io [of now False] entry_ok_clear_late [of "install_job now j False e"] by simp
    ultimately have "svc_inv (put i ?x ?u)" using u index_put [OF inv e u(1,6)] by (intro fin) auto
    then show ?thesis using DiskUnconfirmed m re by (simp add: applyLocked_def)
  next
    case DiskFailed
    then show ?thesis using svc_inv_failed [OF inv e] by (simp add: update_store_def)
  qed
qed


lemma svc_inv_write: "svc_inv s \<Longrightarrow> svc_inv (writer_write rd disk now i s)"
proof (cases "jobs s i")
  case (Some j)
  assume inv: "svc_inv s"
  then obtain e where e: "tasks s i = Some e" using Some unfolding svc_inv_def by blast
  note j = svc_invD(3) [OF inv e Some]
  show ?thesis
  proof (cases "pj_kind j = JobLate")
    case False
    then have "doc_ok e j" using j by (simp add: doc_ok_def)
    from svc_inv_apply [OF inv e this] show ?thesis using Some False by (simp add: writer_write_def Let_def)
  next
    case True
    then have t: "terminal e" "te_released e" using j by (auto simp: job_ok_def)
    show ?thesis
    proof (cases "composeLate rd i j s")
      case (Inl err)
      then show ?thesis using svc_inv_failed [OF inv e] Some True by (simp add: writer_write_def Let_def)
    next
      case (Inr j')
      then have "doc_ok e j'" using composeLate_doc [OF Inr e] t by (simp add: doc_ok_def)
      from svc_inv_apply [OF inv e this] show ?thesis using Some True Inr by (simp add: writer_write_def Let_def)
    qed
  qed
qed (simp add: writer_write_def)

subsection \<open>Admission and the whole system\<close>

lemma admitted_sel [simp]:
  "te_rec (admittedEntry a ok v n) = ad_rec a" "te_released (admittedEntry a ok v n) = False" "te_cand (admittedEntry a ok v n) = None"
  "te_pendingIntent (admittedEntry a ok v n) = None" "te_pendingPub (admittedEntry a ok v n) = None" "te_late (admittedEntry a ok v n) = None"
  "te_intentDurable (admittedEntry a ok v n) = False" "te_key (admittedEntry a ok v n) = keyOf (ad_role a)"
  "te_confirmed (admittedEntry a ok v n) = ok" "te_seq (admittedEntry a ok v n) = n" "te_send (admittedEntry a ok v n) = sendNone"
  "te_loaded (admittedEntry a ok v n) = False"
  by (simp_all add: admittedEntry_def blankEntry_def)

lemma entry_ok_admitted: "pending_ok a \<Longrightarrow> entry_ok (admittedEntry a ok v n)"
  by (simp add: entry_ok_def pending_ok_def flat_preds ValidTaskState_def)

lemma svc_inv_docs: "svc_inv s \<Longrightarrow> docs s i = None \<Longrightarrow> tasks s i = None"
  using svc_invD(2) [of s i] by (cases "tasks s i") (auto simp: store_ok_def)



lemma svc_inv_publish:
  assumes inv: "svc_inv s"
  shows "svc_inv (fst (admit_publish disk v s))"
proof (cases "adm s")
  case (Some a)
  let ?i = "TaskID (ad_rec a)"
  have a: "pending_ok a" using svc_inv_adm [OF inv] Some by (simp add: adm_ok_def)
  have ab: "svc_inv (admit_abort a s)" using inv calm_abort [OF calm_refl] by (rule svc_inv_calm)
  have "calm s (s\<lparr>adm := Some (a\<lparr>ad_attempt := ad_attempt a + 1, ad_checks := 0\<rparr>)\<rparr>)"
    using a by (intro calm_adm) (auto simp: pending_ok_def)
  then have re: "svc_inv (s\<lparr>adm := Some (a\<lparr>ad_attempt := ad_attempt a + 1, ad_checks := 0\<rparr>)\<rparr>)" by (rule svc_inv_calm [OF inv])
  let ?e = "admittedEntry a (disk = DiskOk) v (admitted s + 1)"
  let ?s = "s\<lparr>admitted := admitted s + 1, tasks := (tasks s)(?i \<mapsto> ?e), task_ids := insort ?i (task_ids s),
     docs := (docs s)(?i \<mapsto> ad_rec a), durable := (if disk = DiskOk then (durable s)(?i \<mapsto> ad_rec a) else durable s),
     gate := False, adm := None\<rparr>"
  have new: "svc_inv ?s" if "docs s ?i = None"
  proof -
    have t: "tasks s ?i = None" using svc_inv_docs [OF inv that] .
    note n = svc_inv_none [OF inv t]
    have "store_ok ?s ?i ?e" using n(1) by (auto simp: store_ok_def)
    moreover have "index_ok (put ?i ?e ?s)" using svc_inv_index [OF inv] t
      by (auto simp: index_ok_def put_def sorted_insort distinct_insort set_insort_key)
    ultimately show ?thesis using n(2) entry_ok_admitted [OF a]
      by (intro svc_inv_put [OF inv, where i = ?i and e' = ?e and ?s1.0 = ?s]) (auto simp: samecore_def put_def adm_ok_def)
  qed
  have "svc_inv (modE ?i (\<lambda>e. e\<lparr>te_writer := True\<rparr>) (refreshLocked ?i ?s))" if "docs s ?i = None"
    by (rule svc_inv_calm [OF new [OF that]]) (auto intro!: calm_modE calm_refresh good_core simp: core_def)
  then show ?thesis using Some inv ab re by (simp add: admit_publish_def Let_def)
qed (simp add: admit_publish_def inv)

end
