(* ===== verification/Task_Lifecycle.thy ===== *)
theory Task_Lifecycle
  imports Task_Invariant
begin

section \<open>The history of one task\<close>

text \<open>
  \<open>hist\<close> relates an entry to the same task's entry after any number of events: its identity is fixed, its
  revision grows, a terminal outcome is final, a latched candidate or an authorized publication becomes
  exactly the outcome it fixed, a selected stop intent is never replaced, the first recorded worker digest
  is the only one and a start that was sent, answered or withdrawn stays so. \<open>exec_hist\<close> proves it for
  every event, \<open>run_hist\<close> for every run.
\<close>

definition decided_by :: "terminalCand \<Rightarrow> TaskRecord \<Rightarrow> bool" where
  "decided_by c r \<longleftrightarrow> State r = to_state (cd_outcome c) \<and> StartedAt r = to_started (cd_outcome c) \<and> FinishedAt r = Some (to_finished (cd_outcome c))
     \<and> ExitCode r = to_exit (cd_outcome c) \<and> Signal r = to_signal (cd_outcome c) \<and> FinalMessage r = to_final (cd_outcome c)
     \<and> FinalMessageTruncated r = to_truncated (cd_outcome c) \<and> Reason r = to_reason (cd_outcome c)
     \<and> ResultDigest r = (if cd_digest c = '''' then None else Some (cd_digest c))"

definition settled_by :: "TaskPublication \<Rightarrow> TaskRecord \<Rightarrow> bool" where
  "settled_by p r \<longleftrightarrow> State r = p_State p
     \<and> (case Publication r of None \<Rightarrow> False | Some q \<Rightarrow> p_ID q = p_ID p \<and> p_Phase q = PubPhaseSettled \<and> p_State q = p_State p)"

definition recorded :: "taskEntry \<Rightarrow> string set" where
  "recorded e = (case te_cand e of None \<Rightarrow> {} | Some c \<Rightarrow> if cd_digest c = '''' then {} else {cd_digest c})
     \<union> set_option (ResultDigest (te_rec e)) \<union> (r_Digest \<circ> lc_result) ` set_option (te_late e) \<union> l_Digest ` set_option (Late (te_rec e))"

definition hist :: "taskEntry \<Rightarrow> taskEntry \<Rightarrow> bool" where
  "hist e e' \<longleftrightarrow> ident (te_rec e') = ident (te_rec e) \<and> te_key e' = te_key e \<and> te_loaded e' = te_loaded e \<and> te_seq e' = te_seq e
     \<and> Revision (te_rec e) \<le> Revision (te_rec e')
     \<and> (terminal e \<longrightarrow> outcome_of (te_rec e') = outcome_of (te_rec e))
     \<and> (te_released e \<longrightarrow> te_released e') \<and> (te_intentDurable e \<longrightarrow> te_intentDurable e')
     \<and> (intentLocked e \<noteq> None \<longrightarrow> intentLocked e' = intentLocked e)
     \<and> (\<forall>c. te_cand e = Some c \<longrightarrow> te_cand e' = Some c \<or> terminal e' \<and> decided_by c (te_rec e'))
     \<and> (\<forall>p. pubLocked e = Some p \<and> p_Phase p = PubPhaseAuthorized \<longrightarrow> pubLocked e' = Some p \<or> terminal e' \<and> settled_by p (te_rec e'))
     \<and> (recorded e \<noteq> {} \<longrightarrow> recorded e' = recorded e)
     \<and> send_rank (te_send e) \<le> send_rank (te_send e') \<and> (send_rank (te_send e) = 3 \<longrightarrow> te_send e' = te_send e)"

lemma histD:
  assumes "hist e e'"
  shows "ident (te_rec e') = ident (te_rec e)" "te_key e' = te_key e" "te_loaded e' = te_loaded e" "te_seq e' = te_seq e"
    "Revision (te_rec e) \<le> Revision (te_rec e')" "terminal e \<Longrightarrow> outcome_of (te_rec e') = outcome_of (te_rec e)"
    "te_released e \<Longrightarrow> te_released e'" "te_intentDurable e \<Longrightarrow> te_intentDurable e'"
    "intentLocked e \<noteq> None \<Longrightarrow> intentLocked e' = intentLocked e"
    "te_cand e = Some c \<Longrightarrow> te_cand e' = Some c \<or> terminal e' \<and> decided_by c (te_rec e')"
    "pubLocked e = Some p \<Longrightarrow> p_Phase p = PubPhaseAuthorized \<Longrightarrow> pubLocked e' = Some p \<or> terminal e' \<and> settled_by p (te_rec e')"
    "recorded e \<noteq> {} \<Longrightarrow> recorded e' = recorded e"
    "send_rank (te_send e) \<le> send_rank (te_send e')" "send_rank (te_send e) = 3 \<Longrightarrow> te_send e' = te_send e"
  using assms unfolding hist_def by blast+

lemma outcome_of_eqD:
  assumes "outcome_of r' = outcome_of r"
  shows "State r' = State r" "decided_by c r' = decided_by c r" "settled_by p r' = settled_by p r"
proof -
  note o = assms [unfolded outcome_of_def prod.inject]
  have f: "State r' = State r" "StartedAt r' = StartedAt r" "FinishedAt r' = FinishedAt r" "ExitCode r' = ExitCode r" "Signal r' = Signal r"
    "FinalMessage r' = FinalMessage r" "FinalMessageTruncated r' = FinalMessageTruncated r" "Reason r' = Reason r"
    "ResultDigest r' = ResultDigest r" "Publication r' = Publication r" using o by blast+
  then show "State r' = State r" by blast
  show "decided_by c r' = decided_by c r" unfolding decided_by_def f by (rule refl)
  show "settled_by p r' = settled_by p r" unfolding settled_by_def f by (rule refl)
qed

lemma hist_terminal: "hist e e' \<Longrightarrow> terminal e \<Longrightarrow> terminal e'"
  using outcome_of_eqD(1) [OF histD(6) [of e e']] by (simp add: terminal_def)

lemma hist_refl: "hist e e"
  by (simp add: hist_def)

lemma hist_trans:
  assumes a: "hist a b" and b: "hist b c"
  shows "hist a c"
proof -
  have t: "outcome_of (te_rec c) = outcome_of (te_rec a)" if "terminal a"
    using histD(6) [OF a that] histD(6) [OF b hist_terminal [OF a that]] by simp
  have u: "terminal c \<and> decided_by d (te_rec c) = decided_by d (te_rec b) \<and> settled_by p (te_rec c) = settled_by p (te_rec b)" if "terminal b" for d p
    using hist_terminal [OF b that] outcome_of_eqD(2,3) [OF histD(6) [OF b that]] by simp
  have i: "intentLocked c = intentLocked a" if "intentLocked a \<noteq> None" using histD(9) [OF a that] histD(9) [OF b] that by simp
  have d: "te_cand c = Some x \<or> terminal c \<and> decided_by x (te_rec c)" if "te_cand a = Some x" for x
    using histD(10) [OF a that] histD(10) [OF b, of x] u by blast
  have p: "pubLocked c = Some x \<or> terminal c \<and> settled_by x (te_rec c)" if "pubLocked a = Some x" "p_Phase x = PubPhaseAuthorized" for x
    using histD(11) [OF a that] histD(11) [OF b _ that(2)] u by blast
  have r: "recorded c = recorded a" if "recorded a \<noteq> {}" using histD(12) [OF a that] histD(12) [OF b] that by simp
  have s: "te_send c = te_send a" if "send_rank (te_send a) = 3" using histD(14) [OF a that] histD(14) [OF b] that by simp
  show ?thesis unfolding hist_def using t i d p r s histD(1-5,7,8,13) [OF a] histD(1-5,7,8,13) [OF b] by auto
qed

subsection \<open>Quiet steps\<close>

lemma recorded_late:
  assumes "entry_ok e" and "te_late e = Some l"
  shows "recorded e = {r_Digest (lc_result l)}"
  using entry_okD(8,9) [OF assms(1)] assms(2) by (auto simp: recorded_def split: option.split)

lemma quiet_recorded:
  assumes q: "quiet e e'" and ok: "entry_ok e" "entry_ok e'" and r: "recorded e \<noteq> {}"
  shows "recorded e' = recorded e"
proof (cases "te_late e'")
  case (Some l)
  have s: "ResultDigest (te_rec e) = None" "Late (te_rec e) = None"
    using entry_okD(8) [OF ok(2)] Some same_but_logD [OF quiet_rec [OF q]] by auto
  have "te_late e = Some l"
  proof (rule ccontr)
    assume n: "te_late e \<noteq> Some l"
    then have "te_late e = None" using quiet_late [OF q] Some by (cases "te_late e") auto
    then obtain c where c: "te_cand e = Some c" "cd_digest c \<noteq> ''''" using r s by (auto simp: recorded_def split: option.splits if_splits)
    then have "te_cand e' = Some c" using quiet_cand [OF q] by (simp add: undecided_def)
    then show False using entry_okD(9) [OF ok(2)] Some c(2) by simp
  qed
  then show ?thesis using recorded_late ok Some by metis
next
  case None
  then have l: "te_late e = None" using quiet_late [OF q] by (cases "te_late e") auto
  have "\<not> undecided e"
  proof
    assume "undecided e"
    then show False using r l entry_okD(10) [OF ok(1)] by (simp add: recorded_def undecided_def)
  qed
  then show ?thesis using quiet_cand [OF q] l None same_but_logD [OF quiet_rec [OF q]] by (simp add: recorded_def)
qed

lemma same_but_log_ident: "same_but_log r r' \<Longrightarrow> ident r' = ident r \<and> outcome_of r' = outcome_of r"
  by (auto simp: same_but_log_def outcome_of_def)

lemma quiet_hist:
  assumes q: "quiet e e'" and ok: "entry_ok e" "entry_ok e'"
  shows "hist e e'"
proof -
  note r = same_but_log_ident [OF quiet_rec [OF q]] same_but_logD(8) [OF quiet_rec [OF q]]
  have c: "te_cand e' = Some x" if "te_cand e = Some x" for x using quiet_cand [OF q] that by (simp add: undecided_def)
  have p: "pubLocked e' = Some x" if "pubLocked e = Some x" for x using quiet_pub [OF q] that by simp
  show ?thesis unfolding hist_def
    using r c p quiet_same [OF q] quiet_intent [OF q] quiet_recorded [OF q ok] quiet_send [OF q] by auto
qed


subsection \<open>Documents and confirmations\<close>

lemma ident_clear [simp]: "ident (clear_log r) = ident r" "ident (clear_late r) = ident r"
  by (simp_all add: ident_def clear_log_def clear_late_def)

lemma late_digest_clear [simp]: "Late (clear_log r) = Late r" "l_Digest ` set_option (Late (clear_late r)) = l_Digest ` set_option (Late r)"
  by (cases "Late r"; simp add: clear_log_def clear_late_def)+

lemma late_digest_finished [simp]: "l_Digest ` set_option (Late (te_rec (finished e))) = l_Digest ` set_option (Late (te_rec e))"
  by (simp add: finished_def Let_def)

lemma finished_hist: "hist e (finished e)"
proof -
  have "recorded (finished e) = recorded e" "ident (te_rec (finished e)) = ident (te_rec e)"
    by (simp_all add: recorded_def) (simp add: finished_def Let_def)
  then show ?thesis by (simp add: hist_def)
qed

lemma clear_late_hist: "hist e (e\<lparr>te_rec := clear_late (te_rec e)\<rparr>)"
  by (simp add: hist_def recorded_def flat_preds)

lemma core_hist: "core e' = core e \<Longrightarrow> hist e e'"
proof -
  assume c: "core e' = core e"
  then have "recorded e' = recorded e" "intentLocked e' = intentLocked e" "pubLocked e' = pubLocked e" by (simp_all add: core_def recorded_def flat_preds)
  then show ?thesis using c by (simp add: hist_def core_def)
qed

lemma install_live_hist:
  assumes ok: "entry_ok e" and j: "job_ok e j" and k: "pj_kind j \<in> {JobRunning, JobStopIntent, JobPublicationIntent, JobCheckpoint}"
  shows "hist e (install_job now j b e)" (is "hist e ?x")
proof -
  have d: "doc_ok e j" using j k by (auto simp: doc_ok_def)
  have n: "\<not> terminal e" using j k by (auto simp: job_ok_def)
  have c: "te_cand ?x = te_cand e" "te_late ?x = te_late e" using k by auto
  have r: "ResultDigest (pj_rec j) = ResultDigest (te_rec e)" "Late (pj_rec j) = Late (te_rec e)" using j k by (auto simp: job_ok_def)
  have "recorded ?x = recorded e" using c r by (simp add: recorded_def)
  then show ?thesis using n c doc_ident [OF d] install_live_flat [OF ok j k] by (simp add: hist_def)
qed

lemma terminal_record_decided:
  assumes "ResultDigest r = None"
  shows "decided_by c (terminal_record c r cands)"
  using assms by (simp add: decided_by_def terminal_record_def apply_outcome_def Let_def split_beta split: option.split)

lemma install_terminal_hist:
  assumes ok: "entry_ok e" and j: "job_ok e j" and k: "pj_kind j \<in> {JobTerminal, JobLost, JobRejected}"
  shows "hist e (install_job now j b e)" (is "hist e ?x")
proof -
  obtain c cands where c: "te_cand e = Some c" "pj_rec j = terminal_record c (next_rec e) cands" "te_pendingIntent e = None" "te_pendingPub e = None"
    "\<not> terminal e" using terminal_job [OF j k] by blast
  have d: "doc_ok e j" using j k by (auto simp: doc_ok_def)
  have dec: "decided_by c (te_rec ?x)" using terminal_record_decided entry_okD(10) [OF ok c(5)] c(2) by simp
  have t: "terminal ?x" using entry_okD(5) [OF ok c(1)] c(2) by (simp add: terminal_def cand_ok_def)
  have n: "te_cand ?x = None" "te_late ?x = te_late e" "intentLocked ?x = intentLocked e" using c k by (auto simp: intentLocked_def)
  have "settled_by p (te_rec ?x)" if p: "pubLocked e = Some p" "p_Phase p = PubPhaseAuthorized" for p
  proof -
    have "pub_ok e p" by (rule entry_okD(7) [OF ok p(1)])
    then have "settles p c" "Workspace (te_rec e) \<noteq> None" using p(2) c(1) by (auto simp: pub_ok_def)
    then show ?thesis using c(2) by (auto simp: settled_by_def settles_def terminal_record_pub)
  qed
  moreover have "recorded ?x = recorded e"
    using dec n(1,2) c(1,2) entry_okD(10) [OF ok c(5)] by (auto simp: recorded_def decided_by_def)
  ultimately show ?thesis using n t dec c(1,5) doc_ident [OF d] by (simp add: hist_def)
qed

lemma install_late_hist:
  assumes ok: "entry_ok e" and t: "terminal e" and r: "late_doc e (pj_rec j)" and k: "pj_kind j = JobLate"
  shows "hist e (install_job now j b e)" (is "hist e ?x")
proof -
  note d = late_docD [OF r]
  obtain l lg where l: "te_late e = Some l" "Late (pj_rec j) = Some (LateFrom (lc_result l) (lc_at l) lg)" using r by (auto simp: late_doc_def)
  have c: "te_cand e = None" "te_pendingPub e = None" using entry_okD(2) [OF ok t] by auto
  have "recorded ?x = {r_Digest (lc_result l)}" using l c k d(7) entry_okD(8) [OF ok] by (simp add: recorded_def LateFrom_def)
  then have "recorded ?x = recorded e" using recorded_late [OF ok l(1)] by simp
  moreover have "pubLocked ?x = pubLocked e" "intentLocked ?x = intentLocked e" using k d by (simp_all add: flat_preds)
  ultimately show ?thesis using c d by (simp add: hist_def)
qed

lemma install_hist:
  assumes "entry_ok e" and "doc_ok e j"
  shows "hist e (install_job now j b e)"
  using assms install_late_hist [of e j now b] install_live_hist [of e j now b] install_terminal_hist [of e j now b]
  by (cases "pj_kind j") (auto simp: doc_ok_def)


subsection \<open>Every event\<close>

definition hist_svc :: "taskService \<Rightarrow> taskService \<Rightarrow> bool" where
  "hist_svc s s' \<longleftrightarrow> (\<forall>i e. tasks s i = Some e \<longrightarrow> (\<exists>e'. tasks s' i = Some e' \<and> hist e e'))"

lemma hist_svc_refl: "hist_svc s s"
  using hist_refl by (auto simp: hist_svc_def)

lemma hist_svc_trans: "hist_svc a b \<Longrightarrow> hist_svc b c \<Longrightarrow> hist_svc a c"
  unfolding hist_svc_def using hist_trans by meson

lemma hist_svc_calm: "svc_inv s \<Longrightarrow> calm s s' \<Longrightarrow> hist_svc s s'"
  unfolding hist_svc_def using calm_entry quiet_hist svc_invD(1) by meson

lemma hist_svc_put:
  assumes sc: "samecore (put i x s1) s'" and t: "\<And>j. j \<noteq> i \<Longrightarrow> tasks s1 j = tasks s j"
    and h: "\<And>e. tasks s i = Some e \<Longrightarrow> hist e x"
  shows "hist_svc s s'"
  unfolding hist_svc_def
proof (intro allI impI)
  fix j e assume e: "tasks s j = Some e"
  have m: "map_option core (tasks s' j) = map_option core (tasks (put i x s1) j)" using sc by (simp add: samecore_def)
  show "\<exists>e'. tasks s' j = Some e' \<and> hist e e'"
  proof (cases "j = i")
    case True
    then obtain e' where "tasks s' j = Some e'" "core e' = core x" using m by (auto simp: put_def)
    then show ?thesis using h e True core_hist hist_trans by blast
  next
    case False
    then obtain e' where "tasks s' j = Some e'" "core e' = core e" using m e t [OF False] by (auto simp: put_def)
    then show ?thesis using core_hist by blast
  qed
qed

lemma hist_confirm: "hist_svc s (confirm i rv s)"
proof (cases "\<exists>e. tasks s i = Some e \<and> \<not> te_confirmed e \<and> Revision (te_rec e) = rv")
  case False
  then show ?thesis using hist_svc_refl by (auto simp: confirm_def split: option.split)
next
  case True
  then obtain e where e: "tasks s i = Some e" "\<not> te_confirmed e" "Revision (te_rec e) = rv" by blast
  let ?x = "e\<lparr>te_confirmed := True, te_fault := False\<rparr>"
  have "hist e ?x" by (simp add: hist_def recorded_def flat_preds)
  then have h: "hist e (finished ?x)" using finished_hist hist_trans by blast
  have "samecore (put i (finished ?x) s) (finishPublicationLocked i (put i ?x s))" using finish_core [of "put i ?x s" i ?x] by (simp add: put_def)
  then have "samecore (put i (finished ?x) s) (confirm i rv s)" using e by (auto simp: confirm_def intro!: samecore_wake samecore_refresh)
  then show ?thesis by (rule hist_svc_put) (use e(1) h in auto)
qed

lemma hist_apply:
  assumes ok: "entry_ok e" and e: "tasks s i = Some e" and j: "disk = DiskFailed \<or> doc_ok e j" and t: "tasks s1 = tasks s"
  shows "hist_svc s (applyLocked now i j disk s1)"
proof (cases disk)
  case DiskOk
  let ?x = "install_job now j True e"
  have "samecore (put i (finished ?x) s1) (finishPublicationLocked i (put i ?x s1))" using finish_core [of "put i ?x s1" i ?x] by (simp add: put_def)
  then have sc: "samecore (put i (finished ?x) s1) (applyLocked now i j disk s1)"
    using e t DiskOk by (auto simp: applyLocked_def modE_def intro!: samecore_refresh)
  have "hist e (finished ?x)" using j DiskOk install_hist [OF ok] finished_hist hist_trans by blast
  with sc show ?thesis using e t by (elim hist_svc_put) auto
next
  case DiskUnconfirmed
  let ?x = "(install_job now j False e)\<lparr>te_rec := clear_late (pj_rec j)\<rparr>"
  have sc: "samecore (put i ?x s1) (applyLocked now i j disk s1)"
    using e t DiskUnconfirmed by (auto simp: applyLocked_def modE_def intro!: samecore_refresh)
  have "hist e ?x"
    using j DiskUnconfirmed install_hist [OF ok, of j now False] clear_late_hist [of "install_job now j False e"] hist_trans by auto
  with sc show ?thesis using e t by (elim hist_svc_put) auto
next
  case DiskFailed
  let ?x = "job_failed (pj_kind j) (e\<lparr>te_fault := True, te_retryAt := Some (now + storageRetry)\<rparr>)"
  have c: "core ?x = core e" by (cases "pj_kind j") (simp_all add: job_failed_def core_def)
  have "samecore (put i ?x s1) (applyLocked now i j disk s1)"
    using e t DiskFailed by (auto simp: applyLocked_def modE_def intro!: samecore_refresh)
  then show ?thesis using e t core_hist [OF c] by (elim hist_svc_put) auto
qed

lemma update_store_tasks [simp]: "tasks (update_store i r disk s) = tasks s"
  by (simp add: update_store_def split: disk_outcome.split)

lemma hist_write:
  assumes inv: "svc_inv s"
  shows "hist_svc s (writer_write rd disk now i s)"
proof (cases "jobs s i")
  case (Some j)
  then obtain e where e: "tasks s i = Some e" using inv unfolding svc_inv_def by blast
  note j = svc_invD(3) [OF inv e Some] and a = hist_apply [OF svc_invD(1) [OF inv e] e]
  have late: "doc_ok e j'" if "composeLate rd i j s = Inr j'" "pj_kind j = JobLate" for j'
    using composeLate_doc [OF that(1) e] j that(2) by (auto simp: doc_ok_def job_ok_def)
  have "pj_kind j \<noteq> JobLate \<Longrightarrow> doc_ok e j" using j by (simp add: doc_ok_def)
  then show ?thesis using Some late
    by (auto simp: writer_write_def Let_def split: sum.split intro!: a)
qed (simp add: writer_write_def hist_svc_refl)

lemma hist_take: "svc_inv s \<Longrightarrow> hist_svc s (writer_take now i s)"
proof -
  assume inv: "svc_inv s"
  obtain s1 j d where n: "nextJobLocked now i s = (s1, j, d)" by (metis surj_pair)
  have c: "calm s s1" using calm_nextJob [of s now i] n by simp
  then have h: "hist_svc s s1" using inv hist_svc_calm by blast
  have off: "hist_svc s (modE i (\<lambda>e. e\<lparr>te_writer := False\<rparr>) s1)"
    using inv c by (intro hist_svc_calm calm_modE good_core) (auto simp: core_def)
  have "hist_svc s (s1\<lparr>jobs := k\<rparr>)" for k using h by (simp add: hist_svc_def)
  then show ?thesis using n h off hist_svc_refl [of s] unfolding writer_take_def
    by (auto split: option.split bool.split)
qed

lemma hist_insert: "tasks s i = None \<Longrightarrow> tasks x = (tasks s)(i \<mapsto> e) \<Longrightarrow> hist_svc s (modE i f (refreshLocked i x))"
  using hist_refl by (auto simp: hist_svc_def modE_def put_def refreshLocked_def Let_def split: option.split)

lemma hist_publish: "svc_inv s \<Longrightarrow> hist_svc s (fst (admit_publish disk v s))"
proof (cases "adm s")
  case (Some a)
  assume inv: "svc_inv s"
  have ab: "hist_svc s (admit_abort a s)" using inv calm_abort [OF calm_refl] by (rule hist_svc_calm)
  have "hist_svc s (s\<lparr>adm := x\<rparr>)" for x using hist_refl by (simp add: hist_svc_def)
  then show ?thesis using Some ab hist_svc_refl [of s] svc_inv_docs [OF inv]
    by (auto simp: admit_publish_def Let_def intro: hist_insert)
qed (simp add: admit_publish_def hist_svc_refl)


definition calm_event :: "event \<Rightarrow> bool" where
  "calm_event ev \<longleftrightarrow> (case ev of EvCapture \<Rightarrow> False | EvSync \<Rightarrow> False | EvConfirm _ _ \<Rightarrow> False | EvTake _ _ \<Rightarrow> False
     | EvWrite _ _ _ _ \<Rightarrow> False | EvPublish _ _ \<Rightarrow> False | _ \<Rightarrow> True)"

lemma exec_calm: "calm_event ev \<Longrightarrow> calm s (exec ev s)"
  by (cases ev) (simp_all add: calm_event_def close_service_def calm_admit_begin calm_attempt calm_prepare calm_submit calm_enqueue calm_claim
      calm_unsent calm_uncertain calm_replied calm_detached calm_tick calm_receiveLog calm_receiveResult calm_losses calm_inventory
      calm_cancel calm_requestCancel calm_waiter calm_dropWaiter calm_takeControl calm_controlDone calm_reserveWait calm_releaseLocked
      calm_wait_begin calm_wait_decide calm_prepared calm_preparedRecheck calm_Authorize calm_Settle)

theorem exec_hist: "svc_inv s \<Longrightarrow> svc_inv (exec ev s) \<and> hist_svc s (exec ev s)"
proof (cases "calm_event ev")
  case True
  assume inv: "svc_inv s"
  show ?thesis using svc_inv_calm [OF inv exec_calm [OF True]] hist_svc_calm [OF inv exec_calm [OF True]] by blast
next
  case False
  assume inv: "svc_inv s"
  have "hist_svc s (captureSync s)" "hist_svc s (syncStore s)" using hist_svc_refl [of s] by (simp_all add: captureSync_def syncStore_def hist_svc_def)
  then show ?thesis using False inv
    by (cases ev) (auto simp: calm_event_def svc_inv_capture svc_inv_sync svc_inv_confirm svc_inv_take svc_inv_write svc_inv_publish
        hist_confirm hist_take hist_write hist_publish hist_svc_refl)
qed

lemmas exec_inv = exec_hist [THEN conjunct1]

lemma run_svc_inv: "svc_inv s \<Longrightarrow> svc_inv (run evs s)"
  by (rule run_inv [where P = svc_inv]) (auto intro: exec_inv)

lemma run_hist: "svc_inv s \<Longrightarrow> hist_svc s (run evs s)"
  by (rule run_rel [where P = svc_inv and R = hist_svc]) (auto intro: hist_svc_refl hist_svc_trans exec_hist [THEN conjunct1] exec_hist [THEN conjunct2])

lemma run_entry:
  assumes "svc_inv s" and "tasks s i = Some e"
  obtains e' where "tasks (run evs s) i = Some e'" "hist e e'" "entry_ok e'" "store_ok (run evs s) i e'"
  using run_hist [OF assms(1), of evs] assms(2) svc_invD [OF run_svc_inv [OF assms(1)]] unfolding hist_svc_def by blast

text \<open>The reservation ledger along a run: a visible document covers every task, so an admission never replaces one.\<close>

lemma svc_inv_dom: "svc_inv s \<Longrightarrow> dom (tasks s) \<subseteq> dom (docs s)"
proof
  fix i assume "svc_inv s" and "i \<in> dom (tasks s)"
  then show "i \<in> dom (docs s)" using svc_inv_docs [of s i] by (cases "docs s i") auto
qed

lemma exec_ledger: "svc_inv s \<Longrightarrow> ledger_inv s \<Longrightarrow> ledger_inv (exec ev s)"
  by (cases ev) (simp_all add: ledger_admit_begin ledger_attempt ledger_prepare ledger_admit_publish svc_inv_dom ledger_submit ledger_enqueue
      ledger_claim ledger_unsent ledger_uncertain ledger_replied ledger_detached ledger_tick ledger_receiveLog ledger_receiveResult ledger_losses
      ledger_inventory ledger_cancel ledger_requestCancel ledger_waiter ledger_dropWaiter ledger_takeControl ledger_controlDone ledger_reserveWait
      ledger_releaseLocked ledger_wait_begin ledger_wait_decide ledger_prepared ledger_preparedRecheck ledger_Authorize ledger_Settle
      ledger_confirm ledger_take ledger_write captureSync_def syncStore_def close_service_def)

lemma run_ledger: "svc_inv s \<Longrightarrow> ledger_inv s \<Longrightarrow> ledger_inv (run evs s)"
  using run_inv [where P = "\<lambda>s. svc_inv s \<and> ledger_inv s"] exec_inv exec_ledger by blast

end
