(* ===== verification/Task_Load.thy ===== *)
theory Task_Load
  imports Task_Lifecycle
begin

section \<open>Loading the task directory\<close>

text \<open>
  The startup half of \<open>internal/plane/task_store.go\<close> and the schema checks of
  \<open>internal/contract/task_record.go\<close>: each document is validated by its schema's rules
  (\<open>ParseTaskRecord\<close>), checked against the role registry and the enrolled nodes (\<open>loadTasks\<close>), a legacy
  execution is resolved lost (\<open>migrate\<close>), and the service starts from the result (\<open>newTaskService\<close>).

  The directory is an argument: \<open>files i\<close> is the decoded content of \<open>tasks/i.json\<close> with its schema
  number, or the error of reading or decoding it. \<open>load_inv\<close> shows that a service so started satisfies
  the invariants of the runs.
\<close>

record taskDoc =
  td_schema :: int
  td_rec :: TaskRecord

record loadEnv =
  le_roleLen :: "RoleConfig \<Rightarrow> nat"
  le_lookup :: AdapterLookup
  le_dtoLen :: "TaskWorkspaceResult \<Rightarrow> nat"
  le_digest :: "TaskResultBody \<Rightarrow> string"

definition finish_with :: "loadEnv \<Rightarrow> TaskRecord \<Rightarrow> unit res" where
  "finish_with env r = finishRecord (le_roleLen env) (le_lookup env) (le_dtoLen env) r"

definition late_workspace :: "TaskRecord \<Rightarrow> bool" where
  "late_workspace r = (case Late r of None \<Rightarrow> False | Some l \<Rightarrow> l_Workspace l \<noteq> None)"

text \<open>The fields an older schema does not have.\<close>

definition schema2_rec :: "TaskRecord \<Rightarrow> TaskRecord" where
  "schema2_rec r = r\<lparr>rec_StopIntent := None, Workspace := None, Publication := None, WorkspaceResult := None\<rparr>"

definition schema3_rec :: "TaskRecord \<Rightarrow> TaskRecord" where
  "schema3_rec r = r\<lparr>Workspace := None, Publication := None, WorkspaceResult := None\<rparr>"

definition legacy_rec :: "TaskRecord \<Rightarrow> TaskRecord" where
  "legacy_rec r = (schema2_rec r)\<lparr>StartDigest := None, ResultDigest := None, Late := None, TimeoutPolicy := TimeoutPolicyLegacy\<rparr>"

definition parseLegacyTaskRecord :: "loadEnv \<Rightarrow> TaskRecord \<Rightarrow> TaskRecord res" where
  "parseLegacyTaskRecord env r =
     (if State r = TaskLost \<or> State r = TaskCancelled \<or> State r = TaskTimedOut then errInvalid
      else if q_Workspace (Request r) \<noteq> None then errInvalid
      else (case commonRecord (le_roleLen env) (le_lookup env) r of Inl e \<Rightarrow> Inl e | Inr _ \<Rightarrow> Inr (legacy_rec r)))"

definition parse_schema2 :: "loadEnv \<Rightarrow> TaskRecord \<Rightarrow> TaskRecord res" where
  "parse_schema2 env r =
     (if TimeoutPolicy r \<noteq> TimeoutPolicyLegacy then errInvalid
      else if State r = TaskCancelled \<or> State r = TaskTimedOut then errInvalid
      else if q_Workspace (Request r) \<noteq> None \<or> late_workspace r then errInvalid
      else (case finish_with env (schema2_rec r) of
          Inl e \<Rightarrow> Inl e
        | Inr _ \<Rightarrow>
            if (case Late r of None \<Rightarrow> False | Some l \<Rightarrow> l_Outcome l \<noteq> OutcomeNatural \<and> l_Outcome l \<noteq> OutcomeLost) then errInvalid
            else Inr (schema2_rec r)))"

definition parse_schema3 :: "loadEnv \<Rightarrow> TaskRecord \<Rightarrow> TaskRecord res" where
  "parse_schema3 env r =
     (if q_Workspace (Request r) \<noteq> None \<or> late_workspace r then errInvalid
      else (case finish_with env (schema3_rec r) of Inl e \<Rightarrow> Inl e | Inr _ \<Rightarrow> Inr (schema3_rec r)))"

text \<open>The strict decoder validates a publication intent before the record is checked.\<close>

definition parse_schema4 :: "loadEnv \<Rightarrow> TaskRecord \<Rightarrow> TaskRecord res" where
  "parse_schema4 env r =
     (case firstErr [case Publication r of None \<Rightarrow> Inr () | Some p \<Rightarrow> TaskPublication_Validate (le_digest env) (le_dtoLen env) p,
                     finish_with env r, checkWorkspaceRecord r] of
        Inl e \<Rightarrow> Inl e
      | Inr _ \<Rightarrow> Inr r)"

definition ParseTaskRecord :: "loadEnv \<Rightarrow> taskDoc \<Rightarrow> TaskRecord res" where
  "ParseTaskRecord env d =
     (if td_schema d = 1 then parseLegacyTaskRecord env (td_rec d)
      else if td_schema d = 2 then parse_schema2 env (td_rec d)
      else if td_schema d = 3 then parse_schema3 env (td_rec d)
      else if td_schema d = 4 then parse_schema4 env (td_rec d)
      else errInvalid)"

definition taskCorrupt :: "'a res" where "taskCorrupt = Inl (Error CodeConflict '''')"

definition readTaskFile :: "loadEnv \<Rightarrow> (string \<Rightarrow> taskDoc res) \<Rightarrow> string \<Rightarrow> taskDoc res" where
  "readTaskFile env files i =
     (case files i of
        Inl e \<Rightarrow> Inl e
      | Inr d \<Rightarrow>
          (case ParseTaskRecord env d of
             Inl _ \<Rightarrow> taskCorrupt
           | Inr r \<Rightarrow> if TaskID r \<noteq> i then taskCorrupt else Inr \<lparr>td_schema = td_schema d, td_rec = r\<rparr>))"

definition isTaskFile :: "string \<Rightarrow> string option" where
  "isTaskFile name =
     (if HasSuffix name ''.json'' \<and> ValidTaskID (take (length name - 5) name) then Some (take (length name - 5) name) else None)"

definition byOrder :: "roleDoc \<Rightarrow> int \<Rightarrow> RoleRecord option" where
  "byOrder doc k = find (\<lambda>r. RegistrationOrder r = k) (List.rev (doc_roles doc))"

definition check_loaded :: "roleDoc \<Rightarrow> (string \<Rightarrow> bool) \<Rightarrow> RoleRecord \<Rightarrow> unit res" where
  "check_loaded doc enrolled role =
     (if \<not> enrolled (r_Node role) then taskCorrupt
      else if RegistrationOrder role \<ge> nextOrder doc then taskCorrupt
      else (case byOrder doc (RegistrationOrder role) of
          None \<Rightarrow> Inr ()
        | Some cur \<Rightarrow> if r_ID cur \<noteq> r_ID role \<or> r_Node cur \<noteq> r_Node role then taskCorrupt else Inr ()))"

definition loaded_of :: "int \<Rightarrow> TaskRecord \<Rightarrow> loadedTask" where
  "loaded_of sch r =
     \<lparr>lt_schema = sch, lt_rec = clear_late (if TaskTerminal (State r) then clear_log r else r), lt_retained = length (Data (Log r)),
      lt_lateRetained = (case Late r of None \<Rightarrow> 0 | Some l \<Rightarrow> length (Data (l_Log l)))\<rparr>"

fun loadTasks :: "loadEnv \<Rightarrow> (string \<Rightarrow> taskDoc res) \<Rightarrow> roleDoc \<Rightarrow> (string \<Rightarrow> bool) \<Rightarrow> string list \<Rightarrow> loadedTask list res" where
  "loadTasks env files doc enrolled [] = Inr []"
| "loadTasks env files doc enrolled (n # ns) =
     (case isTaskFile n of
        None \<Rightarrow> loadTasks env files doc enrolled ns
      | Some i \<Rightarrow>
          (case readTaskFile env files i of
             Inl e \<Rightarrow> Inl e
           | Inr d \<Rightarrow>
               (case check_loaded doc enrolled (Role (td_rec d)) of
                  Inl e \<Rightarrow> Inl e
                | Inr _ \<Rightarrow>
                    (case loadTasks env files doc enrolled ns of Inl e \<Rightarrow> Inl e | Inr lts \<Rightarrow> Inr (loaded_of (td_schema d) (td_rec d) # lts)))))"


subsection \<open>Migration\<close>

definition legacyReason :: TaskReason where
  "legacyReason = \<lparr>tr_Code = ''legacy_execution_unrecoverable'', tr_Message =
     ''an iteration 05 execution cannot be reconciled after the upgrade; its outcome is unconfirmed''\<rparr>"

definition legacyPending :: "loadedTask list \<Rightarrow> nat" where
  "legacyPending lts = length (filter (\<lambda>t. lt_schema t = 1 \<and> \<not> TaskTerminal (State (lt_rec t))) lts)"

definition migrated_rec :: "instant \<Rightarrow> TaskRecord \<Rightarrow> TaskRecord" where
  "migrated_rec now r = r\<lparr>State := TaskLost, FinishedAt := Some now, Revision := Revision r + 1, Reason := Some legacyReason,
     TimeoutPolicy := TimeoutPolicyLegacy\<rparr>"

text \<open>
  \<open>upd\<close> is the outcome of each document's replacement, \<open>resynced\<close> whether the retry of its directory
  sync succeeded. The documents replaced before a failure stay replaced.
\<close>

fun migrate :: "instant \<Rightarrow> (string \<Rightarrow> disk_outcome) \<Rightarrow> (string \<Rightarrow> bool) \<Rightarrow> loadedTask list \<Rightarrow> (string \<Rightarrow> TaskRecord option)
    \<Rightarrow> (string \<Rightarrow> TaskRecord option) \<times> loadedTask list res" where
  "migrate now upd resynced [] ds = (ds, Inr [])"
| "migrate now upd resynced (t # ts) ds =
     (let r = lt_rec t; i = TaskID r in
      if lt_schema t \<noteq> 1 \<or> TaskTerminal (State r)
      then (case migrate now upd resynced ts ds of (ds', Inl e) \<Rightarrow> (ds', Inl e) | (ds', Inr us) \<Rightarrow> (ds', Inr (t # us)))
      else if Revision r \<ge> MaxSafeInteger then (ds, Inl (Error CodeConflict ''''))
      else let r' = migrated_rec now r;
               ds1 = (if upd i = DiskFailed then ds else ds(i \<mapsto> r'));
               ok = (upd i = DiskOk \<or> upd i = DiskUnconfirmed \<and> resynced i)
           in if \<not> ok then (ds1, Inl (Error CodeInternal ''''))
              else (case migrate now upd resynced ts ds1 of
                  (ds', Inl e) \<Rightarrow> (ds', Inl e)
                | (ds', Inr us) \<Rightarrow>
                    (ds', Inr (\<lparr>lt_schema = 4, lt_rec = clear_log r', lt_retained = length (Data (Log r)), lt_lateRetained = 0\<rparr> # us))))"

text \<open>Startup: load, migrate, then construct the service; the surviving documents are visible and durable.\<close>

definition doc_of :: "loadEnv \<Rightarrow> (string \<Rightarrow> taskDoc res) \<Rightarrow> string \<Rightarrow> TaskRecord option" where
  "doc_of env files i = (case readTaskFile env files i of Inl _ \<Rightarrow> None | Inr d \<Rightarrow> Some (td_rec d))"

record startEnv =
  se_now :: instant
  se_upd :: "string \<Rightarrow> disk_outcome"
  se_resynced :: "string \<Rightarrow> bool"
  se_epoch :: string
  se_maxWait :: duration

definition startup :: "loadEnv \<Rightarrow> startEnv \<Rightarrow> (string \<Rightarrow> taskDoc res) \<Rightarrow> (string \<Rightarrow> bool) \<Rightarrow> nodeRegistry \<Rightarrow> roleState \<Rightarrow> string list \<Rightarrow> taskService res" where
  "startup env st files enrolled nr rs names =
     (case loadTasks env files (rs_visible rs) enrolled names of
        Inl e \<Rightarrow> Inl e
      | Inr lts \<Rightarrow>
          (case migrate (se_now st) (se_upd st) (se_resynced st) lts (doc_of env files) of
             (_, Inl e) \<Rightarrow> Inl e
           | (ds, Inr us) \<Rightarrow> newTaskService nr rs (se_epoch st) (se_maxWait st) ds us))"


subsection \<open>What a loaded record satisfies\<close>

definition loaded_ok :: "TaskRecord \<Rightarrow> bool" where
  "loaded_ok r \<longleftrightarrow> ValidTaskState (State r) \<and> (\<not> TaskTerminal (State r) \<longrightarrow> ResultDigest r = None \<and> Late r = None)
     \<and> (rec_StopIntent r \<noteq> None \<longrightarrow> stopIntentState (State r))
     \<and> (\<forall>p. Publication r = Some p \<longrightarrow> Workspace r \<noteq> None \<and> publishableState (p_State p)
          \<and> (p_Phase p = PubPhaseAuthorized \<longrightarrow> \<not> TaskTerminal (State r))
          \<and> (p_Phase p \<noteq> PubPhaseAuthorized \<longrightarrow> p_Phase p = PubPhaseSettled \<and> TaskTerminal (State r)))"

text \<open>The plane authorizes only a cancellation under a stop intent; the loader does not check this again.\<close>

definition intent_fixed :: "TaskRecord \<Rightarrow> bool" where
  "intent_fixed r \<longleftrightarrow> (case (rec_StopIntent r, Publication r) of
     (Some _, Some p) \<Rightarrow> p_Phase p = PubPhaseAuthorized \<longrightarrow> p_State p = TaskCancelled | _ \<Rightarrow> True)"

lemma common_valid: "commonRecord rl lk r = Inr () \<Longrightarrow> ValidTaskState (State r)"
proof -
  assume "commonRecord rl lk r = Inr ()"
  then have "validLifecycle (State r) (StartedAt r \<noteq> None) (FinishedAt r \<noteq> None) (ExitCode r) (Signal r) (FinalMessage r)
      (FinalMessageTruncated r) (Reason r \<noteq> None) (length (Candidates r)) = Inr ()"
    unfolding commonRecord_def firstErr_ok_iff by simp
  then show ?thesis by (cases "State r") (simp_all add: validLifecycle_def ValidTaskState_def split: if_splits)
qed

lemma finish_valid:
  assumes "finish_with env r = Inr ()"
  shows "ValidTaskState (State r)" "\<not> TaskTerminal (State r) \<Longrightarrow> ResultDigest r = None \<and> Late r = None"
    "rec_StopIntent r \<noteq> None \<Longrightarrow> stopIntentState (State r)"
proof -
  note f = assms [unfolded finish_with_def finishRecord_def firstErr_ok_iff list.set ball_simps]
  from f show "ValidTaskState (State r)" using common_valid by blast
  from f have "(if ResultDigest r \<noteq> None \<and> \<not> TaskTerminal (State r) then errInvalid else Inr ()) = Inr ()"
    "(if Late r \<noteq> None \<and> \<not> TaskTerminal (State r) then errInvalid else Inr ()) = Inr ()"
    "(if rec_StopIntent r \<noteq> None \<and> \<not> stopIntentState (State r) then errInvalid else Inr ()) = Inr ()" by blast+
  then show "\<not> TaskTerminal (State r) \<Longrightarrow> ResultDigest r = None \<and> Late r = None" "rec_StopIntent r \<noteq> None \<Longrightarrow> stopIntentState (State r)"
    by (simp_all split: if_splits)
qed

lemma finish_loaded: "finish_with env r = Inr () \<Longrightarrow> Publication r = None \<Longrightarrow> loaded_ok r"
  using finish_valid [of env r] by (simp add: loaded_ok_def)

lemma validate_pub: "TaskPublication_Validate dg dl p = Inr () \<Longrightarrow> publishableState (p_State p) \<and> (p_Phase p = PubPhaseAuthorized \<or> p_Phase p = PubPhaseSettled)"
  by (cases "p_Phase p") (auto simp: TaskPublication_Validate_def firstErr_ok_iff check_phase_def split: if_splits)

lemma schema4_loaded:
  assumes "parse_schema4 env r = Inr r'"
  shows "r' = r \<and> loaded_ok r"
proof -
  have r: "r' = r" and v: "\<And>p. Publication r = Some p \<Longrightarrow> TaskPublication_Validate (le_digest env) (le_dtoLen env) p = Inr ()"
    and f: "finish_with env r = Inr ()" and w: "checkWorkspaceRecord r = Inr ()"
    using assms by (auto simp: parse_schema4_def firstErr_ok_iff split: sum.splits)
  have "Workspace r \<noteq> None" if "Publication r \<noteq> None"
    using w that by (auto simp: checkWorkspaceRecord_def firstErr_ok_iff split: if_splits)
  moreover have "(p_Phase p = PubPhaseAuthorized \<longrightarrow> \<not> TaskTerminal (State r)) \<and> (p_Phase p = PubPhaseSettled \<longrightarrow> TaskTerminal (State r))"
    if p: "Publication r = Some p" "Workspace r = Some b" for p b
    using w p by (auto simp: checkWorkspaceRecord_def check_rec_publication_def firstErr_ok_iff split: if_splits)
  ultimately have "loaded_ok r" using finish_valid [OF f] validate_pub v unfolding loaded_ok_def by fastforce
  with r show ?thesis by blast
qed

lemma parse_loaded: "ParseTaskRecord env d = Inr r \<Longrightarrow> loaded_ok r"
proof -
  assume p: "ParseTaskRecord env d = Inr r"
  consider "parseLegacyTaskRecord env (td_rec d) = Inr r" | "parse_schema2 env (td_rec d) = Inr r" | "parse_schema3 env (td_rec d) = Inr r"
    | "parse_schema4 env (td_rec d) = Inr r" using p by (auto simp: ParseTaskRecord_def split: if_splits)
  then show ?thesis
  proof cases
    case 1
    then show ?thesis using common_valid
      by (auto simp: parseLegacyTaskRecord_def legacy_rec_def schema2_rec_def loaded_ok_def split: if_splits sum.splits)
  next
    case 2
    then have "finish_with env r = Inr ()" "Publication r = None"
      by (auto simp: parse_schema2_def schema2_rec_def split: if_splits sum.splits)
    then show ?thesis by (rule finish_loaded)
  next
    case 3
    then have "finish_with env r = Inr ()" "Publication r = None"
      by (auto simp: parse_schema3_def schema3_rec_def split: if_splits sum.splits)
    then show ?thesis by (rule finish_loaded)
  next
    case 4
    then show ?thesis using schema4_loaded by blast
  qed
qed


subsection \<open>The started service satisfies the invariants\<close>

abbreviation lt_id :: "loadedTask \<Rightarrow> string" where "lt_id lt \<equiv> TaskID (lt_rec lt)"

definition load_good :: "(string \<Rightarrow> TaskRecord option) \<Rightarrow> loadedTask \<Rightarrow> bool" where
  "load_good ds lt \<longleftrightarrow> loaded_ok (lt_rec lt) \<and> intent_fixed (lt_rec lt) \<and> (\<exists>d. ds (lt_id lt) = Some d \<and> bare d = bare (lt_rec lt))
     \<and> (lt_schema lt = 1 \<longrightarrow> Publication (lt_rec lt) = None)"

lemma loaded_of_sel [simp]:
  "TaskID (lt_rec (loaded_of n r)) = TaskID r" "bare (lt_rec (loaded_of n r)) = bare r" "Publication (lt_rec (loaded_of n r)) = Publication r"
  "lt_schema (loaded_of n r) = n" "State (lt_rec (loaded_of n r)) = State r" "ResultDigest (lt_rec (loaded_of n r)) = ResultDigest r"
  "(Late (lt_rec (loaded_of n r)) = None) = (Late r = None)" "rec_StopIntent (lt_rec (loaded_of n r)) = rec_StopIntent r"
  "Workspace (lt_rec (loaded_of n r)) = Workspace r"
  by (simp_all add: loaded_of_def)

lemma loaded_ok_of: "loaded_ok (lt_rec (loaded_of n r)) = loaded_ok r"
  by (simp only: loaded_ok_def loaded_of_sel)

lemma intent_fixed_of: "intent_fixed (lt_rec (loaded_of n r)) = intent_fixed r"
  by (simp add: intent_fixed_def loaded_of_def)

lemma readTaskFile_ok: "readTaskFile env files i = Inr d \<Longrightarrow> TaskID (td_rec d) = i \<and> loaded_ok (td_rec d) \<and> (td_schema d = 1 \<longrightarrow> Publication (td_rec d) = None)"
proof -
  assume "readTaskFile env files i = Inr d"
  then obtain d0 where d0: "ParseTaskRecord env d0 = Inr (td_rec d)" "TaskID (td_rec d) = i" "td_schema d = td_schema d0"
    by (auto simp: readTaskFile_def taskCorrupt_def split: sum.splits if_splits)
  have "Publication (td_rec d) = None" if "td_schema d0 = 1"
  proof -
    have "td_rec d = legacy_rec (td_rec d0)"
      using d0(1) that by (auto simp: ParseTaskRecord_def parseLegacyTaskRecord_def split: sum.splits if_splits)
    then show ?thesis by (simp add: legacy_rec_def schema2_rec_def)
  qed
  then show ?thesis using parse_loaded [OF d0(1)] d0(2,3) by simp
qed

lemma loadTasks_good:
  assumes "loadTasks env files doc enrolled ns = Inr lts"
    and "\<And>i d. readTaskFile env files i = Inr d \<Longrightarrow> intent_fixed (td_rec d)"
  shows "map lt_id lts = List.map_filter isTaskFile ns \<and> list_all (load_good (doc_of env files)) lts"
  using assms(1)
proof (induction ns arbitrary: lts)
  case (Cons n ns)
  show ?case
  proof (cases "isTaskFile n")
    case None
    then show ?thesis using Cons by simp
  next
    case (Some i)
    then obtain d us where d: "readTaskFile env files i = Inr d" "loadTasks env files doc enrolled ns = Inr us"
      "lts = loaded_of (td_schema d) (td_rec d) # us" using Cons.prems by (auto split: sum.splits)
    have "load_good (doc_of env files) (loaded_of (td_schema d) (td_rec d))"
      using readTaskFile_ok [OF d(1)] assms(2) [OF d(1)] d(1) by (simp add: load_good_def loaded_ok_of intent_fixed_of doc_of_def)
    then show ?thesis using Cons.IH [OF d(2)] d Some readTaskFile_ok [OF d(1)] by simp
  qed
qed simp

lemma distinct_head: "distinct (map f (t # ts)) \<Longrightarrow> x \<in> set ts \<Longrightarrow> f x \<noteq> f t"
  by (auto simp: image_iff)

lemma migrated_good:
  assumes "load_good ds lt" and "lt_schema lt = 1"
  shows "load_good (ds(lt_id lt \<mapsto> migrated_rec now (lt_rec lt)))
    \<lparr>lt_schema = 4, lt_rec = clear_log (migrated_rec now (lt_rec lt)), lt_retained = a, lt_lateRetained = b\<rparr>"
  using assms by (simp add: load_good_def loaded_ok_def intent_fixed_def migrated_rec_def ValidTaskState_def stopIntentState_def split: option.split)

lemma load_good_upd: "load_good ds lt \<Longrightarrow> lt_id lt \<noteq> i \<Longrightarrow> load_good (ds(i := x)) lt"
  by (simp add: load_good_def)

lemma migrate_step_fst: "fst (case r of (ds', Inl e) \<Rightarrow> (ds', Inl e) | (ds', Inr us) \<Rightarrow> (ds', Inr (f us))) = fst r"
  by (auto split: prod.split sum.split)

lemma migrate_other: "i \<notin> set (map lt_id ts) \<Longrightarrow> fst (migrate now upd rs ts ds) i = ds i"
proof (induction ts arbitrary: ds)
  case (Cons t ts)
  then have i: "i \<noteq> lt_id t" "fst (migrate now upd rs ts ds1) i = ds1 i" for ds1 by auto
  show ?case unfolding migrate.simps Let_def using i by (simp add: migrate_step_fst)
qed simp

lemma migrate_good:
  assumes "migrate now upd rs lts ds = (ds', Inr us)" and "distinct (map lt_id lts)" and "list_all (load_good ds) lts"
  shows "map lt_id us = map lt_id lts \<and> list_all (load_good ds') us"
  using assms
proof (induction lts arbitrary: ds us)
  case (Cons t ts)
  have keep: "load_good ds' x" if "load_good ds1 x" "ds' (lt_id x) = ds1 (lt_id x)" for ds1 x using that by (simp add: load_good_def)
  show ?case
  proof (cases "lt_schema t \<noteq> 1 \<or> TaskTerminal (State (lt_rec t))")
    case True
    then obtain vs where v: "migrate now upd rs ts ds = (ds', Inr vs)" "us = t # vs" using Cons.prems(1) by (auto simp: Let_def split: prod.splits sum.splits)
    then show ?thesis using Cons.IH [OF v(1)] Cons.prems(2,3) keep [of ds t] migrate_other [of "lt_id t" ts now upd rs ds] by simp
  next
    case False
    let ?r = "migrated_rec now (lt_rec t)"
    let ?ds = "ds(lt_id t \<mapsto> ?r)"
    let ?u = "\<lparr>lt_schema = 4, lt_rec = clear_log ?r, lt_retained = length (Data (Log (lt_rec t))), lt_lateRetained = 0\<rparr>"
    obtain vs where v: "migrate now upd rs ts ?ds = (ds', Inr vs)" "us = ?u # vs"
      using Cons.prems(1) False by (auto simp: Let_def split: prod.splits sum.splits if_splits disk_outcome.splits)
    have "lt_id x \<noteq> lt_id t" if "x \<in> set ts" for x by (rule distinct_head [OF Cons.prems(2) that])
    then have "list_all (load_good ?ds) ts" using Cons.prems(3) by (auto simp: list_all_iff intro!: load_good_upd)
    moreover have "distinct (map lt_id ts)" using Cons.prems(2) by simp
    ultimately have "map lt_id vs = map lt_id ts \<and> list_all (load_good ds') vs" by (intro Cons.IH [OF v(1)])
    moreover have "load_good ?ds ?u" using Cons.prems(3) False by (intro migrated_good) auto
    then have "load_good ds' ?u"
    proof (rule keep)
      have "ds' (lt_id t) = ?ds (lt_id t)" using migrate_other [of "lt_id t" ts now upd rs ?ds] v(1) Cons.prems(2) by simp
      then show "ds' (lt_id ?u) = ?ds (lt_id ?u)" by (simp add: migrated_rec_def)
    qed
    ultimately show ?thesis using v(2) by (simp add: migrated_rec_def)
  qed
qed simp


lemma loadedEntry_sel [simp]:
  "te_rec (loadedEntry lt) = lt_rec lt" "te_key (loadedEntry lt) = keyOf (Role (lt_rec lt))" "te_confirmed (loadedEntry lt)"
  "te_loaded (loadedEntry lt)" "te_released (loadedEntry lt) = TaskTerminal (State (lt_rec lt))" "te_cand (loadedEntry lt) = None"
  "te_intentDurable (loadedEntry lt) = (rec_StopIntent (lt_rec lt) \<noteq> None)" "te_pendingIntent (loadedEntry lt) = None"
  "te_pendingPub (loadedEntry lt) = None" "te_late (loadedEntry lt) = None" "\<not> te_contribHeld (loadedEntry lt)" "\<not> te_contribRec (loadedEntry lt)"
  by (simp_all add: loadedEntry_def blankEntry_def Let_def)

lemma entry_ok_loaded:
  assumes "loaded_ok (lt_rec lt)" and "intent_fixed (lt_rec lt)"
  shows "entry_ok (loadedEntry lt)"
proof -
  have "pub_ok (loadedEntry lt) p" if "pubLocked (loadedEntry lt) = Some p" for p
    using assms that by (auto simp: pub_ok_def flat_preds loaded_ok_def intent_fixed_def split: option.splits)
  then show ?thesis using assms(1) by (simp add: entry_ok_def undecided_def terminal_def loaded_ok_def)
qed

definition frame_eq :: "taskService \<Rightarrow> taskService \<Rightarrow> bool" where
  "frame_eq s s' \<longleftrightarrow> docs s' = docs s \<and> durable s' = durable s \<and> captured s' = captured s \<and> synced s' = synced s \<and> jobs s' = jobs s \<and> adm s' = adm s"

lemma load_entries_inv:
  assumes "load_entries lts s0 = Inr s" and "distinct (map lt_id lts)" and "\<And>lt. lt \<in> set lts \<Longrightarrow> tasks s0 (lt_id lt) = None" and "ledger_inv s0"
  shows "ledger_inv s \<and> frame_eq s0 s \<and> task_ids s = task_ids s0 @ map lt_id lts
    \<and> (\<forall>i. map_option core (tasks s i) = (case map_of (map (\<lambda>lt. (lt_id lt, lt)) lts) i of
          Some lt \<Rightarrow> Some (core (loadedEntry lt)) | None \<Rightarrow> map_option core (tasks s0 i)))"
  using assms
proof (induction lts arbitrary: s0)
  case (Cons lt lts)
  let ?i = "lt_id lt" and ?e = "loadedEntry lt"
  let ?t = "s0\<lparr>tasks := (tasks s0)(?i \<mapsto> ?e), task_ids := task_ids s0 @ [?i]\<rparr>"
  let ?s = "refreshLocked ?i ?t"
  have l: "load_entries lts ?s = Inr s" using Cons.prems(1) by (simp add: Let_def split: if_splits)
  have led: "ledger_inv ?s" using Cons.prems(3,4) by (intro ledger_inserted [where s = s0 and e = ?e]) auto
  have t: "map_option core (tasks ?s j) = (if j = ?i then Some (core ?e) else map_option core (tasks s0 j))" for j
    by (simp add: refreshLocked_def Let_def core_def)
  have f: "frame_eq s0 ?s" "task_ids ?s = task_ids s0 @ [?i]" by (simp_all add: refreshLocked_def Let_def frame_eq_def)
  have n: "tasks ?s (lt_id x) = None" if "x \<in> set lts" for x
  proof -
    have "lt_id x \<noteq> ?i" by (rule distinct_head [OF Cons.prems(2) that])
    then show ?thesis using t [of "lt_id x"] Cons.prems(3) [of x] that by simp
  qed
  have ih: "ledger_inv s \<and> frame_eq ?s s \<and> task_ids s = task_ids ?s @ map lt_id lts
    \<and> (\<forall>i. map_option core (tasks s i) = (case map_of (map (\<lambda>lt. (lt_id lt, lt)) lts) i of
          Some lt \<Rightarrow> Some (core (loadedEntry lt)) | None \<Rightarrow> map_option core (tasks ?s i)))"
    using Cons.prems(2) by (intro Cons.IH l led n) auto
  have "map_of (map (\<lambda>lt. (lt_id lt, lt)) lts) ?i = None" using Cons.prems(2) by (auto simp: map_of_eq_None_iff)
  then show ?case using ih f t by (auto simp: frame_eq_def split: option.split)
qed (simp add: frame_eq_def)

context derived_count
begin

lemma exact_empty: "ents s = (\<lambda>_. None) \<Longrightarrow> (\<And>k. count s k = 0) \<Longrightarrow> exact s \<and> current s i"
  by (simp add: exact_def total_def flagged_def current_def)

end

lemma ledger_empty: "ledger_inv ((emptyService nr rs ep mw)\<lparr>docs := ds, durable := ds\<rparr>)" (is "ledger_inv ?s")
proof -
  have "tasks ?s = (\<lambda>_. None)" "heldLocked ?s k = (0, 0)" "blocked ?s = {}" for k by (simp_all add: emptyService_def heldLocked_def)
  then show ?thesis using heldL.exact_empty [of ?s] recL.exact_empty [of ?s] by (simp add: ledger_at_def fresh_def blk_ok_def)
qed

lemma new_service_inv:
  assumes n: "newTaskService nr rs ep mw ds lts = Inr s" and d: "distinct (map lt_id lts)" and g: "list_all (load_good ds) lts"
  shows "svc_inv s \<and> ledger_inv s"
proof -
  let ?s0 = "(emptyService nr rs ep mw)\<lparr>docs := ds, durable := ds\<rparr>"
  obtain s1 where l: "load_entries lts ?s0 = Inr s1" and s: "s = s1\<lparr>task_ids := sort (task_ids s1)\<rparr>"
    using n by (auto simp: newTaskService_def split: sum.splits)
  note inv = load_entries_inv [OF l d _ ledger_empty]
  have i: "ledger_inv s1" "frame_eq ?s0 s1" "task_ids s1 = map lt_id lts"
    and t: "\<And>i. map_option core (tasks s1 i) = (case map_of (map (\<lambda>lt. (lt_id lt, lt)) lts) i of
          Some lt \<Rightarrow> Some (core (loadedEntry lt)) | None \<Rightarrow> None)"
    using inv by (simp_all add: emptyService_def)
  have f: "docs s = ds" "durable s = ds" "captured s = {}" "synced s = {}" "jobs s = (\<lambda>_. None)" "adm s = None" "tasks s = tasks s1"
    using i(2) s by (simp_all add: frame_eq_def emptyService_def)
  have e: "\<exists>lt \<in> set lts. lt_id lt = i \<and> core e = core (loadedEntry lt)" if "tasks s i = Some e" for i e
    using t [of i] that f(7) by (auto split: option.splits dest!: map_of_SomeD)
  have "entry_ok e \<and> store_ok s i e" if te: "tasks s i = Some e" for i e
  proof -
    obtain lt where lt: "lt \<in> set lts" "lt_id lt = i" "core e = core (loadedEntry lt)" using e [OF te] by blast
    then have gd: "load_good ds lt" using g by (simp add: list_all_iff)
    then have "entry_ok (loadedEntry lt)" by (intro entry_ok_loaded) (auto simp: load_good_def)
    moreover have "store_ok s i (loadedEntry lt)" using gd lt(2) f by (auto simp: store_ok_def load_good_def dest: bare_outcome)
    ultimately show ?thesis using lt(3) entry_ok_core store_ok_core by blast
  qed
  moreover have "index_ok s"
  proof -
    have "dom (tasks s) = set (map lt_id lts)"
    proof (rule set_eqI)
      fix i
      have "i \<in> dom (tasks s) \<longleftrightarrow> map_option core (tasks s1 i) \<noteq> None" using f(7) by auto
      also have "\<dots> \<longleftrightarrow> map_of (map (\<lambda>lt. (lt_id lt, lt)) lts) i \<noteq> None" unfolding t by (cases "map_of (map (\<lambda>lt. (lt_id lt, lt)) lts) i") simp_all
      also have "\<dots> \<longleftrightarrow> i \<in> set (map lt_id lts)" by (auto simp: map_of_eq_None_iff image_iff)
      finally show "i \<in> dom (tasks s) \<longleftrightarrow> i \<in> set (map lt_id lts)" .
    qed
    then show ?thesis using d i(3) s by (simp add: index_ok_def)
  qed
  moreover have "ledger_inv s = ledger_inv s1" using s by (intro ledger_cong) simp_all
  ultimately show ?thesis using f i(1) by (simp add: svc_inv_def adm_ok_def)
qed


lemma isTaskFile_inj: "isTaskFile a = Some i \<Longrightarrow> isTaskFile b = Some i \<Longrightarrow> a = b"
proof -
  assume a: "isTaskFile a = Some i" and b: "isTaskFile b = Some i"
  have "a = i @ ''.json''" if "isTaskFile a = Some i" for a
  proof -
    have s: "drop (length a - 5) a = ''.json''" "i = take (length a - 5) a" using that by (auto simp: isTaskFile_def HasSuffix_def numeral_eq_Suc split: if_splits)
    then show ?thesis by (metis append_take_drop_id)
  qed
  with a b show ?thesis by metis
qed

lemma distinct_names: "distinct ns \<Longrightarrow> distinct (List.map_filter isTaskFile ns)"
proof (induction ns)
  case (Cons n ns)
  have "i \<notin> set (List.map_filter isTaskFile ns)" if "isTaskFile n = Some i" for i
    using that Cons.prems isTaskFile_inj by (auto simp: map_filter_def) fastforce
  then show ?case using Cons by (auto split: option.split)
qed simp

lemma startup_inv:
  assumes s: "startup env st files enrolled nr rs names = Inr s" and d: "distinct names"
    and f: "\<And>i d. readTaskFile env files i = Inr d \<Longrightarrow> intent_fixed (td_rec d)"
  shows "svc_inv s \<and> ledger_inv s"
proof -
  obtain lts ds us where l: "loadTasks env files (rs_visible rs) enrolled names = Inr lts"
    and m: "migrate (se_now st) (se_upd st) (se_resynced st) lts (doc_of env files) = (ds, Inr us)"
    and n: "newTaskService nr rs (se_epoch st) (se_maxWait st) ds us = Inr s"
    using s by (auto simp: startup_def split: sum.splits prod.splits)
  have g: "map lt_id lts = List.map_filter isTaskFile names" "list_all (load_good (doc_of env files)) lts"
    using loadTasks_good [OF l] f by auto
  then have dl: "distinct (map lt_id lts)" using distinct_names [OF d] by simp
  have "map lt_id us = map lt_id lts" "list_all (load_good ds) us" using migrate_good [OF m dl g(2)] by auto
  with dl show ?thesis by (intro new_service_inv [OF n]) auto
qed

end
