(* ===== verification/Task_Reach.thy ===== *)
theory Task_Reach
  imports Task_Load
begin

section \<open>Reachable services, restarts included\<close>

text \<open>
  \<open>reachable\<close>: a service started from a task directory, after any events, and after any number of crashes
  each followed by a start from what was durable. A restart reads, for each task, either the durable record
  or an error (\<open>directory\<close>); in memory nothing survives. \<open>reachable_inv\<close> carries the invariants over all
  of it, by rule induction, so the properties below hold across restarts.
\<close>

definition directory :: "loadEnv \<Rightarrow> (string \<Rightarrow> taskDoc res) \<Rightarrow> taskService \<Rightarrow> bool" where
  "directory env files s \<longleftrightarrow> (\<forall>i d. readTaskFile env files i = Inr d \<longrightarrow> durable s i = Some (td_rec d))"

inductive reachable :: "taskService \<Rightarrow> bool" where
  start: "startup env st files enrolled nr rs names = Inr s \<Longrightarrow> distinct names
    \<Longrightarrow> (\<And>i d. readTaskFile env files i = Inr d \<Longrightarrow> intent_fixed (td_rec d)) \<Longrightarrow> reachable s"
| step: "reachable s \<Longrightarrow> reachable (exec ev s)"
| restart: "reachable s \<Longrightarrow> directory env files s \<Longrightarrow> startup env st files enrolled nr rs names = Inr s'
    \<Longrightarrow> distinct names \<Longrightarrow> reachable s'"

inductive_cases reachableE: "reachable s"

subsection \<open>What a document on disk satisfies\<close>

definition fixed_at :: "TaskRecord option \<Rightarrow> bool" where
  "fixed_at d = (case d of None \<Rightarrow> True | Some r \<Rightarrow> intent_fixed r)"

definition docs_fixed :: "taskService \<Rightarrow> bool" where
  "docs_fixed s \<longleftrightarrow> (\<forall>i. fixed_at (docs s i) \<and> fixed_at (durable s i))"

lemma intent_fixed_bare: "intent_fixed (bare r) = intent_fixed r"
  by (simp add: intent_fixed_def bare_def)

lemma entry_fixed:
  assumes ok: "entry_ok e"
  shows "intent_fixed (te_rec e)"
proof -
  have "p_State p = TaskCancelled"
    if "rec_StopIntent (te_rec e) = Some si" "Publication (te_rec e) = Some p" "p_Phase p = PubPhaseAuthorized" for si p
  proof -
    have "te_pendingPub e = None" "te_pendingIntent e = None" using entry_okD(3,6) [OF ok] that by auto
    then have "pubLocked e = Some p" "intentLocked e = Some si" using that by (simp_all add: pubLocked_def intentLocked_def)
    then show ?thesis using entry_okD(7) [OF ok] that(3) by (simp add: pub_ok_def)
  qed
  then show ?thesis by (auto simp: intent_fixed_def split: option.split)
qed

lemma docs_of_task: "svc_inv s \<Longrightarrow> tasks s i \<noteq> None \<Longrightarrow> fixed_at (docs s i)"
proof -
  assume inv: "svc_inv s" and "tasks s i \<noteq> None"
  then obtain e d where "entry_ok e" "docs s i = Some d" "bare d = bare (te_rec e)"
    using svc_invD(1,2) [OF inv] unfolding store_ok_def by blast
  then show ?thesis using entry_fixed [of e] by (metis fixed_at_def intent_fixed_bare option.case(2))
qed

text \<open>An event changes no document of a task it does not know, and what becomes durable is the visible document.\<close>



lemma samecore_docs: "samecore s s' \<Longrightarrow> docs s' = docs s \<and> durable s' = durable s"
  by (simp add: samecore_def)

lemma refresh_docs [simp]: "docs (refreshLocked i s) = docs s" "durable (refreshLocked i s) = durable s"
  by (simp_all add: refreshLocked_def Let_def split: option.split)

lemma samecore_confirm: "docs (confirm i rv s) = docs s \<and> durable (confirm i rv s) = durable s"
proof (cases "tasks s i")
  case (Some e)
  let ?e = "e\<lparr>te_confirmed := True, te_fault := False\<rparr>"
  have t: "tasks (put i ?e s) i = Some ?e" by (simp add: put_def)
  have "samecore (put i (finished ?e) (put i ?e s)) (wakeLocked i (refreshLocked i (finishPublicationLocked i (put i ?e s))))"
    by (intro samecore_wake samecore_refresh finish_core t)
  then show ?thesis using Some by (auto simp: confirm_def samecore_def put_def)
qed (simp add: confirm_def)

lemma applyLocked_docs: "docs (applyLocked now i j disk s) = docs s \<and> durable (applyLocked now i j disk s) = durable s"
proof (cases "tasks s i")
  case (Some e)

  have p: "docs (put i x s) = docs s" "durable (put i x s) = durable s" for x by (simp_all add: put_def)
  have f: "docs (finishPublicationLocked i (put i x s)) = docs s \<and> durable (finishPublicationLocked i (put i x s)) = durable s" for x
    using samecore_docs [OF finish_core [of "put i x s" i x]] by (simp add: put_def)
  show ?thesis using Some p f
    by (cases disk) (auto simp: applyLocked_def modE_def)
qed (simp add: applyLocked_def modE_def finishPublicationLocked_def finish_intent_def split: disk_outcome.split)

lemma exec_docs:
  assumes inv: "svc_inv s"
  shows "(docs (exec ev s) i = docs s i \<or> tasks (exec ev s) i \<noteq> None)
    \<and> (durable (exec ev s) i = durable s i \<or> durable (exec ev s) i = docs (exec ev s) i)"
proof (cases "calm_event ev")
  case True
  then show ?thesis using exec_calm [OF True, of s] by (simp add: calm_def)
next
  case False
  have stay: "tasks (exec ev s) i \<noteq> None" if "tasks s i \<noteq> None" for i
    using exec_hist [OF inv, of ev] that unfolding hist_svc_def by fastforce
  have w: "docs (writer_write rd disk now j s) i = docs s i \<or> i = j" "durable (writer_write rd disk now j s) i = durable s i
      \<or> durable (writer_write rd disk now j s) i = docs (writer_write rd disk now j s) i" for rd disk now j
    by (auto simp: writer_write_def Let_def applyLocked_docs update_store_def split: option.split sum.split disk_outcome.split)
  have wj: "docs (writer_write rd disk now j s) = docs s" if "jobs s j = None" for rd disk now j
    using that by (simp add: writer_write_def)
  have jt: "tasks s j \<noteq> None" if "jobs s j \<noteq> None" for j using inv that unfolding svc_inv_def by blast
  have wr: "?thesis" if "ev = EvWrite rd disk now j" for rd disk now j
    using w [of rd disk now j] wj [of j rd disk now] jt [of j] stay [of i] that by (cases "jobs s j") auto
  have nj: "docs (fst (nextJobLocked now j s)) = docs s \<and> durable (fst (nextJobLocked now j s)) = durable s" for now j
    using calm_nextJob [of s now j] by (simp add: calm_def)
  have take: "docs (writer_take now j s) = docs s \<and> durable (writer_take now j s) = durable s" for now j
    using nj [of now j] by (auto simp: writer_take_def modE_def put_def split: option.split prod.split bool.split)
  show ?thesis using False wr samecore_confirm take
    by (cases ev) (auto simp: calm_event_def captureSync_def syncStore_def admit_publish_def Let_def admit_abort_def release_token_def
        modE_def put_def refreshLocked_def split: option.split)
qed

lemma docs_fixed_exec: "svc_inv s \<Longrightarrow> docs_fixed s \<Longrightarrow> docs_fixed (exec ev s)"
  unfolding docs_fixed_def using exec_docs [of s ev] docs_of_task [OF exec_inv [of s ev]] by metis

subsection \<open>What a start installs\<close>

lemma startup_parts:
  assumes "startup env st files enrolled nr rs names = Inr s"
  obtains lts ds us where "loadTasks env files (rs_visible rs) enrolled names = Inr lts"
    "migrate (se_now st) (se_upd st) (se_resynced st) lts (doc_of env files) = (ds, Inr us)"
    "newTaskService nr rs (se_epoch st) (se_maxWait st) ds us = Inr s"
  using assms by (auto simp: startup_def split: sum.splits prod.splits)

lemma loadTasks_files:
  "loadTasks env files doc enrolled ns = Inr lts \<Longrightarrow> lt \<in> set lts \<Longrightarrow>
     \<exists>d. readTaskFile env files (lt_id lt) = Inr d \<and> lt = loaded_of (td_schema d) (td_rec d)"
proof (induction ns arbitrary: lts)
  case (Cons n ns)
  show ?case
  proof (cases "isTaskFile n")
    case None
    then show ?thesis using Cons by simp
  next
    case (Some i)
    then obtain d us where d: "readTaskFile env files i = Inr d" "loadTasks env files doc enrolled ns = Inr us"
      "lts = loaded_of (td_schema d) (td_rec d) # us" using Cons.prems(1) by (auto split: sum.splits)
    then show ?thesis using Cons.IH [OF d(2)] Cons.prems(2) readTaskFile_ok [OF d(1)] by auto
  qed
qed simp

lemma migrate_kept:
  "migrate now upd rs lts ds = (ds', Inr us) \<Longrightarrow>
     list_all2 (\<lambda>lt u. lt_id u = lt_id lt \<and> (lt_schema lt \<noteq> 1 \<or> TaskTerminal (State (lt_rec lt)) \<longrightarrow> u = lt)) lts us"
proof (induction lts arbitrary: ds us)
  case (Cons t ts)
  then show ?case by (auto simp: Let_def migrated_rec_def split: prod.splits sum.splits if_splits)
qed simp

lemma new_service_entry:
  assumes n: "newTaskService nr rs ep mw ds us = Inr s" and d: "distinct (map lt_id us)"
  shows "docs s = ds" "durable s = ds" "u \<in> set us \<Longrightarrow> \<exists>e. tasks s (lt_id u) = Some e \<and> core e = core (loadedEntry u)"
proof -
  obtain s1 where l: "load_entries us ((emptyService nr rs ep mw)\<lparr>docs := ds, durable := ds\<rparr>) = Inr s1"
    and s: "s = s1\<lparr>task_ids := sort (task_ids s1)\<rparr>" using n by (auto simp: newTaskService_def split: sum.splits)
  note inv = load_entries_inv [OF l d _ ledger_empty]
  show "docs s = ds" "durable s = ds" using inv s by (simp_all add: frame_eq_def emptyService_def)
  assume u: "u \<in> set us"
  have "distinct (map fst (map (\<lambda>lt. (lt_id lt, lt)) us))" using d by (simp add: comp_def)
  then have "map_of (map (\<lambda>lt. (lt_id lt, lt)) us) (lt_id u) = Some u" using u by (intro map_of_is_SomeI) auto
  then have "map_option core (tasks s1 (lt_id u)) = Some (core (loadedEntry u))" using inv by (simp add: emptyService_def)
  then show "\<exists>e. tasks s (lt_id u) = Some e \<and> core e = core (loadedEntry u)" using s by auto
qed

lemma startup_loaded:
  assumes "loadTasks env files doc enrolled names = Inr lts" and "distinct names"
    and "\<And>i d. readTaskFile env files i = Inr d \<Longrightarrow> intent_fixed (td_rec d)"
  shows "map lt_id lts = List.map_filter isTaskFile names" "list_all (load_good (doc_of env files)) lts" "distinct (map lt_id lts)"
  using loadTasks_good [OF assms(1)] assms(3) distinct_names [OF assms(2)] by auto

lemma startup_docs:
  assumes s: "startup env st files enrolled nr rs names = Inr s" and d: "distinct names"
    and f: "\<And>i d. readTaskFile env files i = Inr d \<Longrightarrow> intent_fixed (td_rec d)"
  shows "docs_fixed s"
proof -
  obtain lts ds us where l: "loadTasks env files (rs_visible rs) enrolled names = Inr lts"
    and m: "migrate (se_now st) (se_upd st) (se_resynced st) lts (doc_of env files) = (ds, Inr us)"
    and n: "newTaskService nr rs (se_epoch st) (se_maxWait st) ds us = Inr s" using startup_parts [OF s] by blast
  have g: "list_all (load_good (doc_of env files)) lts" "distinct (map lt_id lts)" using startup_loaded(2,3) [OF l d] f by blast+
  have u: "map lt_id us = map lt_id lts" "list_all (load_good ds) us" using migrate_good [OF m g(2,1)] by auto
  have "fixed_at (ds i)" for i
  proof (cases "i \<in> set (map lt_id lts)")
    case True
    then have "i \<in> lt_id ` set us" using u(1) by (metis list.set_map)
    then obtain x where "x \<in> set us" "lt_id x = i" by blast
    then obtain r where "intent_fixed (lt_rec x)" "ds i = Some r" "bare r = bare (lt_rec x)" using u(2) by (auto simp: list_all_iff load_good_def)
    then show ?thesis by (metis fixed_at_def intent_fixed_bare option.case(2))
  next
    case False
    then have "ds i = doc_of env files i" using migrate_other [OF False, of "se_now st" "se_upd st" "se_resynced st" "doc_of env files"] m by simp
    then show ?thesis using f by (auto simp: fixed_at_def doc_of_def split: sum.splits)
  qed
  moreover have "distinct (map lt_id us)" using u(1) g(2) by simp
  ultimately show ?thesis using new_service_entry(1,2) [OF n] by (simp add: docs_fixed_def)
qed

lemma isTaskFile_json: "ValidTaskID i \<Longrightarrow> isTaskFile (i @ ''.json'') = Some i"
  by (simp add: isTaskFile_def HasSuffix_def)

lemma startup_entry:
  assumes s: "startup env st files enrolled nr rs names = Inr s" and d: "distinct names"
    and f: "\<And>i d. readTaskFile env files i = Inr d \<Longrightarrow> intent_fixed (td_rec d)"
    and i: "ValidTaskID i" "i @ ''.json'' \<in> set names"
  obtains d e where "readTaskFile env files i = Inr d" "tasks s i = Some e"
    "td_schema d \<noteq> 1 \<or> TaskTerminal (State (td_rec d)) \<Longrightarrow> core e = core (loadedEntry (loaded_of (td_schema d) (td_rec d)))"
proof -
  obtain lts ds us where l: "loadTasks env files (rs_visible rs) enrolled names = Inr lts"
    and m: "migrate (se_now st) (se_upd st) (se_resynced st) lts (doc_of env files) = (ds, Inr us)"
    and n: "newTaskService nr rs (se_epoch st) (se_maxWait st) ds us = Inr s" using startup_parts [OF s] by blast
  have g: "map lt_id lts = List.map_filter isTaskFile names" "list_all (load_good (doc_of env files)) lts" "distinct (map lt_id lts)"
    using startup_loaded [OF l d] f by blast+
  note k = migrate_kept [OF m]
  have "i \<in> set (List.map_filter isTaskFile names)" using isTaskFile_json [OF i(1)] i(2) by (force simp: map_filter_def)
  then have "i \<in> set (map lt_id lts)" unfolding g(1) .
  then obtain lt where lt: "lt \<in> set lts" "lt_id lt = i" by auto
  obtain x where x: "readTaskFile env files i = Inr x" "lt = loaded_of (td_schema x) (td_rec x)" using loadTasks_files [OF l lt(1)] lt(2) by auto
  obtain u where u: "u \<in> set us" "lt_id u = i" "lt_schema lt \<noteq> 1 \<or> TaskTerminal (State (lt_rec lt)) \<longrightarrow> u = lt"
    using k lt by (fastforce simp: list_all2_conv_all_nth in_set_conv_nth)
  have "distinct (map lt_id us)" using migrate_good [OF m g(3,2)] g(3) by simp
  then obtain e where e: "tasks s i = Some e" "core e = core (loadedEntry u)" using new_service_entry(3) [OF n _ u(1)] u(2) by blast
  have "core e = core (loadedEntry (loaded_of (td_schema x) (td_rec x)))" if "td_schema x \<noteq> 1 \<or> TaskTerminal (State (td_rec x))"
  proof -
    have "u = lt" using u(3) x(2) that by simp
    then show ?thesis using e(2) x(2) by simp
  qed
  then show ?thesis using that x(1) e(1) by blast
qed

subsection \<open>The invariants of every reachable service\<close>

lemma directory_fixed: "docs_fixed s \<Longrightarrow> directory env files s \<Longrightarrow> readTaskFile env files i = Inr d \<Longrightarrow> intent_fixed (td_rec d)"
  unfolding directory_def docs_fixed_def fixed_at_def by (metis option.case(2))

lemma reachable_inv: "reachable s \<Longrightarrow> svc_inv s \<and> ledger_inv s \<and> docs_fixed s"
proof (induction rule: reachable.induct)
  case (start env st files enrolled nr rs names s)
  then show ?case using startup_inv startup_docs by metis
next
  case (step s ev)
  then show ?case using exec_inv exec_ledger docs_fixed_exec by blast
next
  case (restart s env files st enrolled nr rs names s')
  have f: "intent_fixed (td_rec d)" if "readTaskFile env files i = Inr d" for i d
    using directory_fixed [OF _ restart.hyps(2) that] restart.IH by blast
  show ?case using startup_inv [OF restart.hyps(3,4)] startup_docs [OF restart.hyps(3,4)] f by blast
qed

lemma reachable_run: "reachable s \<Longrightarrow> reachable (run evs s)"
  by (rule run_inv [where P = reachable]) (auto intro: reachable.step)

lemma reachable_entry:
  assumes "reachable s" and "tasks s i = Some e"
  obtains e' where "tasks (run evs s) i = Some e'" "hist e e'" "entry_ok e'" "store_ok (run evs s) i e'"
  using run_entry [of s i e evs] reachable_inv [OF assms(1)] assms(2) by blast

end
