(* ===== verification/Task_Demo.thy ===== *)
theory Task_Demo
  imports Task_Reach
begin

section \<open>A concrete task directory\<close>

text \<open>
  Three documents a plane restarts from: a running task, a finished one, and a running workspace task whose
  publication is authorized. The properties of the task service are instantiated here, on states the kernel
  evaluates.
\<close>

definition demo_node :: string where "demo_node = ''n_00000000000000000000000000000001''"
definition demo_a :: string where "demo_a = ''t_0000000000000000000000000000000a''"
definition demo_b :: string where "demo_b = ''t_0000000000000000000000000000000b''"
definition demo_c :: string where "demo_c = ''t_0000000000000000000000000000000c''"
definition demo_token :: string where "demo_token = replicate 32 (CHR ''1'')"
definition demo_hash :: string where "demo_hash = replicate 40 (CHR ''2'')"
definition demo_digest :: string where "demo_digest = replicate 64 (CHR ''3'')"

definition demo_role :: RoleRecord where
  "demo_role = \<lparr>r_Config = \<lparr>c_ID = ''dev'', c_Name = ''dev'', c_Node = demo_node, c_Adapter = ''fake'', c_Instruction = ''/i'',
     c_Runbook = ''/r'', c_Model = ''m'', c_Effort = ''low'', c_Concurrency = 2, c_Timeout = 5, c_HasTimeout = True\<rparr>, RegistrationOrder = 1\<rparr>"

definition demo_req :: DispatchRequest where
  "demo_req = \<lparr>q_Target = TargetID ''dev'', q_Goal = ''g'', q_Payload = [], q_Acceptance = ''a'',
     q_RequestedBy = \<lparr>rb_Name = ''cli'', rb_Version = ''1'', rb_Hostname = ''h''\<rparr>, q_Override = None, q_Workspace = None, q_Base = None,
     q_WorkspaceInstance = None\<rparr>"

definition demo_running :: "string \<Rightarrow> TaskRecord" where
  "demo_running i = (pendingRecord demo_req demo_role 1 \<lparr>ef_Model = ''m'', ef_Effort = ''low'', ef_Timeout = 5\<rparr> demo_token 1 10 None)
     \<lparr>TaskID := i, State := TaskRunning, StartedAt := Some 11, Revision := 2, StartDigest := Some demo_digest\<rparr>"

definition demo_finished :: "string \<Rightarrow> TaskRecord" where
  "demo_finished i = (demo_running i)\<lparr>State := TaskSucceeded, FinishedAt := Some 12, ExitCode := Some 0, Revision := 3, ResultDigest := Some demo_digest\<rparr>"

definition demo_result :: "string \<Rightarrow> TaskResultBody" where
  "demo_result i = \<lparr>r_TaskID = i, r_Execution = \<lparr>Epoch = demo_token, Attachment = 1\<rparr>, r_Outcome = OutcomeNatural, r_ExitCode = Some 0, r_Signal = None,
     r_FinalMessage = None, r_FinalMessageTruncated = False, r_OutputBytes = 0, r_LogIncomplete = False, r_CounterOverflow = False, r_StopID = None,
     r_Workspace = None, r_Digest = demo_digest\<rparr>"

definition demo_binding :: WorkspaceBinding where
  "demo_binding = \<lparr>b_Name = ''w'', b_Instance = demo_token, b_BaseSelector = DefaultBranchRef, b_BaseCommit = Some demo_hash\<rparr>"

definition demo_pub :: "string \<Rightarrow> TaskPublication" where
  "demo_pub i = \<lparr>p_ID = demo_token, p_State = TaskSucceeded, p_Tree = demo_hash, p_Commit = demo_hash, p_Instance = demo_token, p_Deadline = 900,
     p_Phase = PubPhaseAuthorized, p_Candidate = demo_result i, p_Status = None, p_Error = None\<rparr>"

definition demo_publishing :: "string \<Rightarrow> TaskRecord" where
  "demo_publishing i = (demo_running i)\<lparr>Request := demo_req\<lparr>q_Workspace := Some ''w''\<rparr>, Workspace := Some demo_binding, Publication := Some (demo_pub i)\<rparr>"

definition demo_files :: "string \<Rightarrow> taskDoc res" where
  "demo_files i = (if i = demo_a then Inr \<lparr>td_schema = 4, td_rec = demo_running i\<rparr>
     else if i = demo_b then Inr \<lparr>td_schema = 4, td_rec = demo_finished i\<rparr>
     else if i = demo_c then Inr \<lparr>td_schema = 4, td_rec = demo_publishing i\<rparr> else errInvalid)"

definition demo_env :: loadEnv where
  "demo_env = \<lparr>le_roleLen = (\<lambda>_. 100), le_lookup = (\<lambda>a. if a = ''fake'' then Some \<lparr>Efforts = [''low''], TestOnly = True\<rparr> else None),
     le_dtoLen = (\<lambda>_. 100), le_digest = (\<lambda>_. demo_digest)\<rparr>"

definition demo_start :: startEnv where
  "demo_start = \<lparr>se_now = 20, se_upd = (\<lambda>_. DiskOk), se_resynced = (\<lambda>_. True), se_epoch = ''e'', se_maxWait = 60\<rparr>"

definition demo_roles :: roleState where
  "demo_roles = newRoleRegistry \<lparr>exists_doc = True, revision = 1, nextOrder = 2, doc_roles = [demo_role], removals = []\<rparr>"

definition demo_startup :: "taskService res" where
  "demo_startup = startup demo_env demo_start demo_files (\<lambda>n. n = demo_node) (loadNodeRegistry [(demo_node, 1)]) demo_roles
     [demo_c @ ''.json'', demo_a @ ''.json'', ''readme'', demo_b @ ''.json'']"

definition demo_service :: taskService where
  "demo_service = projr demo_startup"


lemmas demo_defs = demo_env_def demo_running_def demo_finished_def demo_publishing_def demo_role_def pendingRecord_def demo_binding_def demo_pub_def demo_result_def
   
lemma demo_texts: "ValidTaskID demo_a" "ValidTaskID demo_b" "ValidTaskID demo_c" "ValidSlug ''dev''" "ValidSlug ''w''" "ValidNodeID demo_node"
   "ValidWorkspaceToken demo_token" "ValidCommitHash demo_hash" "ValidDigest demo_digest" 
  by code_simp+
lemma demo_paths: "ValidRolePath ''/i''"  "ValidRolePath ''/r''" "ValidModel ''m''"
  by (simp_all add: ValidRolePath_def ValidModel_def validText_def maxRoleText_def IsControl_def blank_def IsSpace_def)

lemma demo_role_ok: "parseRoleRecordObject (le_roleLen demo_env) (le_lookup demo_env) demo_role = Inr ()"
  by (simp add: parseRoleRecordObject_def ValidateRoleConfig_def roleFields_def checkField_def checkAdapter_def demo_texts demo_paths demo_defs 
     MaxConcurrency_def MaxRoleConfigBytes_def MaxSafeInteger_def)


lemmas demo_common_simps = demo_texts demo_paths commonRecord_def CheckEffort_def MaxSafeInteger_def validLifecycle_def TaskTerminal_def checkFinalMessage_def
  validateCandidates_def emptyLog_def TaskLog_Validate_def

lemma demo_finish:
  "finish_with demo_env (demo_running demo_a) = Inr ()" "finish_with demo_env (demo_finished demo_b) = Inr ()"
  "finish_with demo_env (demo_publishing demo_c) = Inr ()"
  using demo_role_ok by (simp_all add: finish_with_def finishRecord_def demo_common_simps demo_defs stopIntentState_def)

lemma demo_base: "ParseTaskBase None = Inr (SelBranch DefaultBranchRef)" "WorkspaceBinding_Validate demo_binding = Inr ()"
  by (simp add: ParseTaskBase_def) code_simp

lemma demo_pub_ok: "TaskPublication_Validate (le_digest demo_env) (le_dtoLen demo_env) (demo_pub demo_c) = Inr ()"
  by (simp add: TaskPublication_Validate_def demo_defs demo_texts publishableState_def TaskResultBody_Validate_def validOutcome_def checkFinalMessage_def
      check_phase_def MaxSafeInteger_def)

lemma demo_workspace:
  "checkWorkspaceRecord (demo_running demo_a) = Inr ()" "checkWorkspaceRecord (demo_finished demo_b) = Inr ()"
  "checkWorkspaceRecord (demo_publishing demo_c) = Inr ()"
  using demo_base
  by (simp_all add: checkWorkspaceRecord_def CheckBinding_def demo_defs demo_req_def check_rec_publication_def TaskTerminal_def)

lemma demo_ids: "demo_a \<noteq> demo_b" "demo_a \<noteq> demo_c" "demo_b \<noteq> demo_c"
  by (simp_all add: demo_a_def demo_b_def demo_c_def)

lemma demo_record_sel [simp]: "TaskID (demo_running i) = i" "TaskID (demo_finished i) = i" "TaskID (demo_publishing i) = i"
  "Publication (demo_running i) = None" "Publication (demo_finished i) = None" "Publication (demo_publishing i) = Some (demo_pub i)"
  "State (demo_running i) = TaskRunning" "State (demo_finished i) = TaskSucceeded" "State (demo_publishing i) = TaskRunning"
  "Role (demo_running i) = demo_role" "Role (demo_finished i) = demo_role" "Role (demo_publishing i) = demo_role"
  by (simp_all add: demo_defs)

lemma demo_read:
  "readTaskFile demo_env demo_files demo_a = Inr \<lparr>td_schema = 4, td_rec = demo_running demo_a\<rparr>"
  "readTaskFile demo_env demo_files demo_b = Inr \<lparr>td_schema = 4, td_rec = demo_finished demo_b\<rparr>"
  "readTaskFile demo_env demo_files demo_c = Inr \<lparr>td_schema = 4, td_rec = demo_publishing demo_c\<rparr>"
  using demo_finish demo_workspace demo_ids demo_pub_ok
  by (simp_all add: readTaskFile_def demo_files_def ParseTaskRecord_def parse_schema4_def)

lemma demo_names: "isTaskFile ''readme'' = None"
  by code_simp

lemma demo_check: "check_loaded (rs_visible demo_roles) (\<lambda>n. n = demo_node) demo_role = Inr ()"
  by (simp add: check_loaded_def demo_roles_def newRoleRegistry_def demo_role_def byOrder_def)

lemma demo_load:
  "loadTasks demo_env demo_files (rs_visible demo_roles) (\<lambda>n. n = demo_node) [demo_c @ ''.json'', demo_a @ ''.json'', ''readme'', demo_b @ ''.json'']
   = Inr [loaded_of 4 (demo_publishing demo_c), loaded_of 4 (demo_running demo_a), loaded_of 4 (demo_finished demo_b)]"
  by (simp add: demo_read demo_check demo_names isTaskFile_json demo_texts)

lemma demo_started: "demo_startup = Inr demo_service"
proof -
  have "\<not> isl demo_startup"
    unfolding demo_startup_def startup_def demo_load
    by (simp add: Let_def newTaskService_def emptyService_def heldLocked_def refreshLocked_def MaxSafeInteger_def)
  then show ?thesis unfolding demo_service_def by (cases demo_startup) simp_all
qed

lemma demo_reachable: "reachable demo_service"
proof (rule reachable.start)
  show "startup demo_env demo_start demo_files (\<lambda>n. n = demo_node) (loadNodeRegistry [(demo_node, 1)]) demo_roles
     [demo_c @ ''.json'', demo_a @ ''.json'', ''readme'', demo_b @ ''.json''] = Inr demo_service"
    using demo_started by (simp add: demo_startup_def)
  show "distinct [demo_c @ ''.json'', demo_a @ ''.json'', ''readme'', demo_b @ ''.json'']" by code_simp
  fix i d assume r: "readTaskFile demo_env demo_files i = Inr d"
  have f: "intent_fixed (demo_running i)" "intent_fixed (demo_finished i)" "intent_fixed (demo_publishing i)"
    by (simp_all add: intent_fixed_def demo_running_def demo_finished_def demo_publishing_def pendingRecord_def)
  have "ParseTaskRecord demo_env \<lparr>td_schema = 4, td_rec = x\<rparr> = Inr y \<Longrightarrow> y = x" for x y
    by (auto simp: ParseTaskRecord_def parse_schema4_def split: sum.splits)
  then have "td_rec d = demo_running i \<or> td_rec d = demo_finished i \<or> td_rec d = demo_publishing i"
    using r by (auto simp: readTaskFile_def demo_files_def taskCorrupt_def split: sum.splits if_splits)
  then show "intent_fixed (td_rec d)" using f by auto
qed


text \<open>The three entries, as the start leaves them.\<close>

definition demo_entry :: "TaskRecord \<Rightarrow> bool \<Rightarrow> bool \<Rightarrow> taskEntry" where
  "demo_entry r h c = (loadedEntry (loaded_of 4 r))\<lparr>te_contribHeld := h, te_contribRec := c\<rparr>"

lemma demo_order: "sort [demo_c, demo_a, demo_b] = [demo_a, demo_b, demo_c]"
  by code_simp

lemma demo_parts:
  "tasks demo_service demo_a = Some (demo_entry (demo_running demo_a) True True)"
  "tasks demo_service demo_b = Some (demo_entry (demo_finished demo_b) False False)"
  "tasks demo_service demo_c = Some (demo_entry (demo_publishing demo_c) True False)"
  "task_ids demo_service = [demo_a, demo_b, demo_c]" "reg demo_service = loadNodeRegistry [(demo_node, 1)]"
  "roles demo_service = demo_roles" "adm demo_service = None" "gate demo_service = False"
  "svc_closed demo_service = False" "jobs demo_service = (\<lambda>_. None)"
  using demo_ids demo_order
  unfolding demo_service_def demo_startup_def startup_def demo_load
  by (simp_all add: Let_def newTaskService_def emptyService_def heldLocked_def refreshLocked_def MaxSafeInteger_def demo_entry_def loadedEntry_def
      blankEntry_def TaskTerminal_def held_def terminal_def isReconciling_def publishingLocked_def pubLocked_def demo_pub_def)

lemma demo_entry_sel [simp]:
  "te_cand (demo_entry r h c) = None" "te_seq (demo_entry r h c) = 0" "te_loaded (demo_entry r h c)" "te_confirmed (demo_entry r h c)"
  "te_released (demo_entry r h c) = TaskTerminal (State r)" "te_pendingPub (demo_entry r h c) = None" "te_pendingIntent (demo_entry r h c) = None"
  "te_late (demo_entry r h c) = None" "te_rgen (demo_entry r h c) = 0" "te_send (demo_entry r h c) = sendNone" "te_writer (demo_entry r h c) = False"
  "te_rec (demo_entry r h c) = lt_rec (loaded_of 4 r)" "te_ring (demo_entry r h c) = None"
  by (simp_all add: demo_entry_def loadedEntry_def blankEntry_def Let_def)

lemma demo_rec_role [simp]: "Role (lt_rec (loaded_of n r)) = Role r" "rec_StopIntent (demo_running i) = None" "r_Node demo_role = demo_node"
    "ResultDigest (demo_finished i) = Some demo_digest" "TaskTerminal TaskSucceeded" "\<not> TaskTerminal TaskRunning"
  by (simp_all add: loaded_of_def demo_defs TaskTerminal_def)

text \<open>A lease that expired while the first task ran, then its loss decision.\<close>

lemma settle_entry_task:
  "tasks s i = Some e \<Longrightarrow> \<exists>e'. tasks (settle_entry i f s) = (tasks s)(i \<mapsto> e') \<and> core e' = core (f e)"
  by (auto simp: settle_entry_def modE_def put_def refreshLocked_def wakeLocked_def Let_def core_def)

definition demo_lost :: taskService where
  "demo_lost = run [EvReg ((loadNodeRegistry [(demo_node, 1)])\<lparr>losses := [\<lparr>lf_node = demo_node, lf_reason = ''lease_expired'', lf_loadedOnly = False, lf_maxSeq = 0\<rparr>]\<rparr>),
     EvLosses 30] demo_service"

lemma demo_lost_eq:
  "demo_lost = settle_entry demo_a (latch_lost 30 ''lease_expired'' (loss_message ''lease_expired'')) (demo_service\<lparr>reg := loadNodeRegistry [(demo_node, 1)]\<rparr>)"
proof -
  let ?e = "demo_entry (demo_running demo_a) True True"
  have u: "undecided ?e" "\<not> publishingLocked ?e" by (simp_all add: undecided_def terminal_def publishingLocked_def pubLocked_def)
  have b: "\<not> undecided (demo_entry (demo_finished demo_b) False False)" "publishingLocked (demo_entry (demo_publishing demo_c) True False)"
    by (simp_all add: undecided_def terminal_def publishingLocked_def pubLocked_def demo_pub_def)
  define f where "f = latch_lost 30 ''lease_expired'' (loss_message ''lease_expired'')"
  define s where "s = demo_service\<lparr>reg := (loadNodeRegistry [(demo_node, 1)])\<rparr>"
  obtain e where e: "tasks (settle_entry demo_a f s) = (tasks s)(demo_a \<mapsto> e)"
    using settle_entry_task [of s demo_a ?e f] demo_parts(1) by (auto simp: s_def)
  have "demo_lost = settle_entry demo_a f s"
    using demo_parts demo_ids u b e
    by (simp add: demo_lost_def run_def applyLossesLocked_def apply_loss_def loss_task_def loss_hits_def latchLostLocked_def f_def s_def loadNodeRegistry_def)
  then show ?thesis by (simp only: f_def s_def)
qed

lemma demo_lost_entry:
  "\<exists>e c. tasks demo_lost demo_a = Some e \<and> te_cand e = Some c \<and> to_state (cd_outcome c) = TaskLost \<and> te_confirmed e \<and> \<not> te_fault e \<and> te_writer e
     \<and> Revision (te_rec e) = 2 \<and> jobs demo_lost demo_a = None"
proof -
  let ?e = "demo_entry (demo_running demo_a) True True"
  have v: "Revision (lt_rec (loaded_of 4 (demo_running demo_a))) = 2" by (simp add: loaded_of_def demo_running_def)
  have u: "\<not> terminal ?e" "\<not> publishingLocked ?e" "\<not> te_fault ?e" by (simp_all add: terminal_def publishingLocked_def pubLocked_def) (simp add: demo_entry_def loadedEntry_def blankEntry_def Let_def)
  show ?thesis unfolding demo_lost_eq using demo_parts(1,9,10) u v
    by (simp add: settle_entry_def modE_def put_def refreshLocked_def wakeLocked_def Let_def latch_lost_def plane_cand_def emptyOutcome_def)
qed

lemma demo_lost_reachable: "reachable demo_lost"
  unfolding demo_lost_def by (rule reachable_run [OF demo_reachable])

end
