(* ===== verification/Task_Properties.thy ===== *)
theory Task_Properties
  imports Task_Demo
begin

section \<open>Properties of every task\<close>

text \<open>
  What the plane promises about a task, for every reachable service and every run from it: exact
  reservations, final outcomes, latched decisions, stop intents, result digests, publications, durability and
  restarts. Each is instantiated on the directory of \<open>Task_Demo\<close>.
\<close>

lemma reachable_svc: "reachable s \<Longrightarrow> svc_inv s"
  using reachable_inv by blast

lemma terminal_core: "core e' = core e \<Longrightarrow> terminal e' = terminal e \<and> te_rec e' = te_rec e"
  by (simp add: core_def terminal_def)

text \<open>
  C1. The reservation ledger is exact in every reachable service, over any interleaving of events and any
  restarts: for each role instance the two counters are the number of its held tasks and of those being
  reconciled, and the storage-blocked set is the set of tasks whose document is unconfirmed, failing or overdue.
\<close>

theorem reservations_exact:
  assumes "reachable s"
  shows "heldLocked s k = (int (card {i. \<exists>e. tasks s i = Some e \<and> te_key e = k \<and> held e}),
      int (card {i. \<exists>e. tasks s i = Some e \<and> te_key e = k \<and> held e \<and> isReconciling e}))
    \<and> blocked s = {i. \<exists>e. tasks s i = Some e \<and> entry_blocked e}"
proof -
  have l: "ledger_inv s" using reachable_inv [OF assms] by blast
  then have f: "heldL.current s i \<and> recL.current s i \<and> blk_ok s i" for i by (simp add: ledger_at_def fresh_def)
  have "fst (heldLocked s k) = int (card {i. \<exists>e. tasks s i = Some e \<and> te_key e = k \<and> held e})"
    using l f by (intro heldL.count_is_card) (auto simp: ledger_at_def)
  moreover have "snd (heldLocked s k) = int (card {i. \<exists>e. tasks s i = Some e \<and> te_key e = k \<and> held e \<and> isReconciling e})"
    using l f by (intro recL.count_is_card) (auto simp: ledger_at_def)
  moreover have "blocked s = {i. \<exists>e. tasks s i = Some e \<and> entry_blocked e}" using f unfolding blk_ok_def by blast
  ultimately show ?thesis by (metis prod.collapse)
qed

theorem reservations_exact_witness: "heldLocked demo_service (keyOf demo_role) =
    (int (card {i. \<exists>e. tasks demo_service i = Some e \<and> te_key e = keyOf demo_role \<and> held e}),
     int (card {i. \<exists>e. tasks demo_service i = Some e \<and> te_key e = keyOf demo_role \<and> held e \<and> isReconciling e}))"
  using reservations_exact [OF demo_reachable] by blast

text \<open>
  C2. A terminal outcome is final: whatever happens afterwards, results, losses, cancellations, retries and
  publications included, the task keeps its state, times, exit, signal, message, reason, result digest, stop
  intent and publication, and a released task stays released.
\<close>

theorem terminal_outcome_final:
  assumes "reachable s" and "tasks s i = Some e" and "terminal e"
  shows "\<exists>e'. tasks (run evs s) i = Some e' \<and> outcome_of (te_rec e') = outcome_of (te_rec e) \<and> (te_released e \<longrightarrow> te_released e')"
proof -
  obtain e' where e': "tasks (run evs s) i = Some e'" "hist e e'" using reachable_entry [OF assms(1,2)] by metis
  then show ?thesis using histD(6,7) [OF e'(2)] assms(3) by blast
qed

lemma demo_finished_terminal: "terminal (demo_entry (demo_finished demo_b) False False)"
  by (simp add: terminal_def)

theorem terminal_outcome_final_witness:
  "\<exists>e'. tasks (run [EvResult 40 demo_node 1 (demo_result demo_b), EvCancel 41 True demo_b demo_token] demo_service) demo_b = Some e'
     \<and> outcome_of (te_rec e') = outcome_of (te_rec (demo_entry (demo_finished demo_b) False False))"
  using terminal_outcome_final [OF demo_reachable demo_parts(2) demo_finished_terminal] by blast

text \<open>
  C6. Once a candidate is latched the plane has decided: it stays the candidate until the terminal record with
  exactly its state, times, exit, signal, message, reason and digest is installed; no later result, loss,
  refusal, cancellation or publication changes it.
\<close>

theorem latched_candidate_governs:
  assumes "reachable s" and "tasks s i = Some e" and "te_cand e = Some c"
  shows "\<exists>e'. tasks (run evs s) i = Some e' \<and> (te_cand e' = Some c \<or> terminal e' \<and> decided_by c (te_rec e'))"
proof -
  obtain e' where e': "tasks (run evs s) i = Some e'" "hist e e'" using reachable_entry [OF assms(1,2)] by metis
  then show ?thesis using histD(10) [OF e'(2) assms(3)] by blast
qed

theorem latched_candidate_governs_witness:
  "\<exists>c e'. tasks (run [EvResult 40 demo_node 1 (demo_result demo_a), EvTake 41 demo_a, EvWrite True DiskOk 42 demo_a] demo_lost) demo_a = Some e'
     \<and> (te_cand e' = Some c \<or> terminal e' \<and> decided_by c (te_rec e'))"
proof -
  obtain e c where "tasks demo_lost demo_a = Some e" "te_cand e = Some c" using demo_lost_entry by blast
  then show ?thesis using latched_candidate_governs [OF demo_lost_reachable] by blast
qed


text \<open>
  C7. A selected stop intent is never replaced or dropped, and the task it names can only end cancelled or
  lost: no natural, refused or timed-out end is recorded over an accepted cancellation.
\<close>

theorem stop_intent_kept:
  assumes "reachable s" and "tasks s i = Some e" and "intentLocked e = Some si"
  shows "\<exists>e'. tasks (run evs s) i = Some e' \<and> intentLocked e' = Some si \<and> (terminal e' \<longrightarrow> State (te_rec e') \<in> {TaskLost, TaskCancelled})"
proof -
  obtain e' where e': "tasks (run evs s) i = Some e'" "hist e e'" "entry_ok e'" using reachable_entry [OF assms(1,2)] by metis
  have si: "intentLocked e' = Some si" using histD(9) [OF e'(2)] assms(3) by simp
  have "State (te_rec e') \<in> {TaskLost, TaskCancelled}" if t: "terminal e'"
  proof -
    have "rec_StopIntent (te_rec e') \<noteq> None" using entry_okD(2) [OF e'(3) t] si by (simp add: intentLocked_def)
    then have "stopIntentState (State (te_rec e'))" by (rule entry_okD(12) [OF e'(3)])
    with t show ?thesis by (auto simp: stopIntentState_def terminal_def TaskTerminal_def)
  qed
  with e' si show ?thesis by blast
qed

definition demo_stopping :: taskService where
  "demo_stopping = run [EvCancel 30 True demo_a demo_token] demo_service"

lemma demo_stopping_intent:
  "\<exists>e. tasks demo_stopping demo_a = Some e \<and> intentLocked e = Some \<lparr>s_ID = demo_token, s_Kind = ''cancelled'', s_RequestedAt = 30\<rparr>"
  using demo_parts(1,9)
  by (simp add: demo_stopping_def run_def cancel_def may_select_def intentLocked_def undecided_def terminal_def publishingLocked_def pubLocked_def
      selectIntentLocked_def definitelyUnsentLocked_def put_def wakeLocked_def refreshLocked_def modE_def Let_def)

theorem stop_intent_kept_witness:
  "\<exists>e'. tasks (run [EvResult 40 demo_node 1 (demo_result demo_a), EvTake 41 demo_a] demo_stopping) demo_a = Some e'
     \<and> intentLocked e' = Some \<lparr>s_ID = demo_token, s_Kind = ''cancelled'', s_RequestedAt = 30\<rparr>"
proof -
  have "reachable demo_stopping" unfolding demo_stopping_def by (rule reachable_run [OF demo_reachable])
  then show ?thesis using stop_intent_kept demo_stopping_intent by blast
qed

text \<open>
  C8. An authorized publication fixes the task's outcome: until it is settled it stays as authorized, and the
  terminal record that ends it carries the authorized state and the same publication, settled. In particular
  no loss, refusal, cancellation or late result decides a task that is publishing.
\<close>

theorem authorized_publication_governs:
  assumes "reachable s" and "tasks s i = Some e" and "pubLocked e = Some p" and "p_Phase p = PubPhaseAuthorized"
  shows "\<exists>e'. tasks (run evs s) i = Some e' \<and> (pubLocked e' = Some p \<and> \<not> terminal e' \<or> terminal e' \<and> settled_by p (te_rec e'))"
proof -
  obtain e' where e': "tasks (run evs s) i = Some e'" "hist e e'" "entry_ok e'" using reachable_entry [OF assms(1,2)] by metis
  have "\<not> terminal e'" if "pubLocked e' = Some p" using entry_okD(7) [OF e'(3) that] assms(4) by (simp add: pub_ok_def)
  then show ?thesis using e'(1) histD(11) [OF e'(2) assms(3,4)] by blast
qed

lemma demo_pub_locked: "pubLocked (demo_entry (demo_publishing demo_c) True False) = Some (demo_pub demo_c)" "p_Phase (demo_pub demo_c) = PubPhaseAuthorized"
  by (simp_all add: pubLocked_def demo_pub_def)

theorem authorized_publication_governs_witness:
  "\<exists>e'. tasks (run [EvCancel 30 True demo_c demo_token, EvLosses 31] demo_service) demo_c = Some e'
     \<and> (pubLocked e' = Some (demo_pub demo_c) \<and> \<not> terminal e' \<or> terminal e' \<and> settled_by (demo_pub demo_c) (te_rec e'))"
  by (rule authorized_publication_governs [OF demo_reachable demo_parts(3) demo_pub_locked])

text \<open>
  C9. The first worker result recorded for a task is the only one: once a digest is recorded, as the
  candidate's, the terminal record's or the late evidence's, no other digest is ever recorded for it and none is lost.
\<close>

theorem one_result_digest:
  assumes "reachable s" and "tasks s i = Some e" and "d \<in> recorded e"
  shows "\<exists>e'. tasks (run evs s) i = Some e' \<and> recorded e' = recorded e"
proof -
  obtain e' where e': "tasks (run evs s) i = Some e'" "hist e e'" using reachable_entry [OF assms(1,2)] by metis
  then show ?thesis using histD(12) [OF e'(2)] assms(3) by blast
qed

theorem one_result_digest_witness:
  "\<exists>e'. tasks (run [EvResult 40 demo_node 1 ((demo_result demo_b)\<lparr>r_Digest := ''other''\<rparr>)] demo_service) demo_b = Some e' \<and> recorded e' = {demo_digest}"
proof -
  have r: "recorded (demo_entry (demo_finished demo_b) False False) = {demo_digest}" by (simp add: recorded_def demo_defs loaded_of_def clear_late_def clear_log_def)
  then show ?thesis using one_result_digest [OF demo_reachable demo_parts(2), of demo_digest] by simp
qed

lemma store_okD:
  assumes "store_ok s i e"
  shows "te_released e \<Longrightarrow> \<exists>d. durable s i = Some d \<and> outcome_of d = outcome_of (te_rec e)"
    "te_confirmed e \<Longrightarrow> \<exists>d. durable s i = Some d \<and> bare d = bare (te_rec e)"
  using assms unfolding store_ok_def by blast+

text \<open>
  C12. What is released is durable: a task that no longer holds its reservation has a durable terminal document
  with the outcome the plane reports, and a confirmed record is the durable one up to the log bytes memory drops.
\<close>

theorem released_is_durable:
  assumes "reachable s" and "tasks s i = Some e"
  shows "(\<not> held e \<longrightarrow> (\<exists>d. durable s i = Some d \<and> TaskTerminal (State d) \<and> outcome_of d = outcome_of (te_rec e)))
    \<and> (te_confirmed e \<longrightarrow> (\<exists>d. durable s i = Some d \<and> bare d = bare (te_rec e)))"
proof -
  have st: "store_ok s i e" by (rule svc_invD(2) [OF reachable_svc [OF assms(1)] assms(2)])
  have "\<exists>d. durable s i = Some d \<and> TaskTerminal (State d) \<and> outcome_of d = outcome_of (te_rec e)" if "\<not> held e"
  proof -
    have h: "te_released e" "terminal e" using that by (simp_all add: held_def)
    then obtain d where d: "durable s i = Some d" "outcome_of d = outcome_of (te_rec e)" "terminal e" using store_okD(1) [OF st] by blast
    then show ?thesis using outcome_of_eqD(1) [OF d(2)] by (simp add: terminal_def)
  qed
  with store_okD(2) [OF st] show ?thesis by blast
qed

theorem released_is_durable_witness:
  "\<exists>d. durable demo_service demo_b = Some d \<and> TaskTerminal (State d) \<and> outcome_of d = outcome_of (te_rec (demo_entry (demo_finished demo_b) False False))"
  using released_is_durable [OF demo_reachable demo_parts(2)] demo_finished_terminal by (simp add: held_def)

text \<open>
  C5. A released outcome survives a crash: whenever the plane starts again from the surviving documents, the
  task is terminal, released and has the outcome it was released with.
\<close>

theorem outcome_survives_restart:
  assumes "reachable s" and "tasks s i = Some e" and "te_released e" and "directory env files s"
    and "startup env st files enrolled nr rs names = Inr s'" and "distinct names" and "ValidTaskID i" and "i @ ''.json'' \<in> set names"
  shows "\<exists>e'. tasks s' i = Some e' \<and> terminal e' \<and> te_released e' \<and> outcome_of (te_rec e') = outcome_of (te_rec e)"
proof -
  have inv: "svc_inv s" "docs_fixed s" using reachable_inv [OF assms(1)] by blast+
  have f: "intent_fixed (td_rec d)" if "readTaskFile env files j = Inr d" for j d by (rule directory_fixed [OF inv(2) assms(4) that])
  obtain d e' where d: "readTaskFile env files i = Inr d" "tasks s' i = Some e'"
    "td_schema d \<noteq> 1 \<or> TaskTerminal (State (td_rec d)) \<Longrightarrow> core e' = core (loadedEntry (loaded_of (td_schema d) (td_rec d)))"
    using startup_entry [OF assms(5,6) _ assms(7,8)] f by metis
  have t: "terminal e" using entry_okD(1) [OF svc_invD(1) [OF inv(1) assms(2)] assms(3)] .
  obtain x where "durable s i = Some x" "outcome_of x = outcome_of (te_rec e)"
    using store_okD(1) [OF svc_invD(2) [OF inv(1) assms(2)] assms(3)] by blast
  moreover have "durable s i = Some (td_rec d)" using assms(4) d(1) unfolding directory_def by blast
  ultimately have o1: "outcome_of (td_rec d) = outcome_of (te_rec e)" by simp
  then have o: "outcome_of (td_rec d) = outcome_of (te_rec e)" "TaskTerminal (State (td_rec d))"
    using outcome_of_eqD(1) [OF o1] t by (simp_all add: terminal_def)
  then have c: "core e' = core (loadedEntry (loaded_of (td_schema d) (td_rec d)))" using d(3) by blast
  then have r: "te_rec e' = lt_rec (loaded_of (td_schema d) (td_rec d))" "te_released e'" using o(2) by (simp_all add: core_def)
  then have "outcome_of (te_rec e') = outcome_of (td_rec d)" by (intro bare_outcome) simp
  moreover have "terminal e'" using r(1) o(2) by (simp add: terminal_def)
  ultimately show ?thesis using r(2) o(1) d(2) by auto
qed

lemma demo_distinct: "distinct [demo_c @ ''.json'', demo_a @ ''.json'', ''readme'', demo_b @ ''.json'']"
  by code_simp

lemma demo_directory: "directory demo_env demo_files demo_service"
proof -
  have "durable demo_service = doc_of demo_env demo_files"
    unfolding demo_service_def demo_startup_def startup_def demo_load
    by (simp add: Let_def newTaskService_def emptyService_def heldLocked_def refreshLocked_def MaxSafeInteger_def)
  then show ?thesis by (simp add: directory_def doc_of_def)
qed

theorem outcome_survives_restart_witness:
  "\<exists>e'. tasks demo_service demo_b = Some e' \<and> terminal e' \<and> te_released e'
     \<and> outcome_of (te_rec e') = outcome_of (te_rec (demo_entry (demo_finished demo_b) False False))"
  by (rule outcome_survives_restart [OF demo_reachable demo_parts(2) _ demo_directory demo_started [unfolded demo_startup_def] demo_distinct])
     (simp_all add: demo_texts)


text \<open>
  C4. An acknowledged result is durable: when the plane answers a result as committed, the durable document of
  the task is terminal and carries that result's digest, as its own result or as late evidence.
\<close>

lemma committed_durable:
  assumes "store_ok s i e" and "committedLocked e d"
  shows "\<exists>r. durable s i = Some r \<and> TaskTerminal (State r) \<and> (ResultDigest r = Some d \<or> map_option l_Digest (Late r) = Some d)"
proof -
  have c: "terminal e" "te_released e" using assms(2) by (simp_all add: committedLocked_def)
  show ?thesis
  proof (cases "ResultDigest (te_rec e) = Some d")
    case True
    obtain r where r: "durable s i = Some r" "outcome_of r = outcome_of (te_rec e)" using store_okD(1) [OF assms(1) c(2)] by blast
    from r(2) have "State r = State (te_rec e)" "ResultDigest r = ResultDigest (te_rec e)" by (simp_all add: outcome_of_def)
    then show ?thesis using r(1) True c(1) by (simp add: terminal_def)
  next
    case False
    then have l: "map_option l_Digest (Late (te_rec e)) = Some d" "te_confirmed e"
      using assms(2) by (auto simp: committedLocked_def split: option.splits)
    then obtain r where r: "durable s i = Some r" "bare r = bare (te_rec e)" using store_okD(2) [OF assms(1)] by blast
    have "State r = State (te_rec e)" "map_option l_Digest (Late r) = map_option l_Digest (Late (te_rec e))"
      using r(2) bare_sel(1) bare_sel(5) by metis+
    then show ?thesis using r(1) l c(1) by (simp add: terminal_def)
  qed
qed

lemma authorized_durable [simp]: "durable (fst (authorizedLocked now n g i tok s)) = durable s"
  by (simp add: authorizedLocked_def liveAttachment_def split_beta Let_def split: option.split)

theorem acknowledged_result_durable:
  assumes "reachable s" and "receiveResult now n g b s = (s', Inr True)"
  shows "\<exists>r. durable s' (r_TaskID b) = Some r \<and> TaskTerminal (State r)
    \<and> (ResultDigest r = Some (r_Digest b) \<or> map_option l_Digest (Late r) = Some (r_Digest b))"
proof -
  obtain s1 e where a: "authorizedLocked now n g (r_TaskID b) (r_Execution b) s = (s1, Inr e)"
    using assms(2) by (auto simp: receiveResult_def Let_def split: prod.splits sum.splits)
  then have c: "committedLocked e (r_Digest b)" "s' = s1"
    using assms(2) by (auto simp: receiveResult_def capture_result_def result_conflict_def Let_def split: if_splits)
  have "tasks s (r_TaskID b) = Some e" using authorized_entry [of now n g "r_TaskID b" "r_Execution b" s e] a by simp
  then have "store_ok s (r_TaskID b) e" by (rule svc_invD(2) [OF reachable_svc [OF assms(1)]])
  from committed_durable [OF this c(1)] show ?thesis
    using authorized_durable [of now n g "r_TaskID b" "r_Execution b" s] a c(2) by simp
qed

text \<open>
  C18. The answers to a result for a task that has recorded one: the same digest is answered idempotently, as
  committed exactly when the evidence is durable; a changed digest is \<open>result_conflict\<close>. Neither changes any task.
\<close>

lemma recorded_iff:
  assumes ok: "entry_ok e" and d: "d \<noteq> ''''"
  shows "same_recorded d e \<longleftrightarrow> d \<in> recorded e" "other_recorded e \<longleftrightarrow> recorded e \<noteq> {}"
proof -
  have t: "terminal e" if "ResultDigest (te_rec e) \<noteq> None \<or> Late (te_rec e) \<noteq> None" using entry_okD(10) [OF ok] that by blast
  show "same_recorded d e \<longleftrightarrow> d \<in> recorded e"
    using d t by (auto simp: same_recorded_def recorded_def split: option.splits)
  show "other_recorded e \<longleftrightarrow> recorded e \<noteq> {}"
    using t by (auto simp: other_recorded_def recorded_def split: option.splits)
qed

lemma committed_recorded: "committedLocked e d \<Longrightarrow> d \<in> recorded e"
  by (auto simp: committedLocked_def recorded_def image_iff split: option.splits)


text \<open>
  C13. The start of a task is claimed for sending at most once, and never once a stop intent is selected: after
  either, no run leads to a state in which the dispatcher may send the start.
\<close>

lemma claim_entry: "claimStart i s = (s', True) \<Longrightarrow> \<exists>e. tasks s' i = Some e \<and> te_send e = sendSending"
  by (auto simp: claimStart_def put_def split: option.splits if_splits)

lemma claim_refused:
  assumes "tasks s i = Some e" and "te_send e \<noteq> sendQueued \<or> intentLocked e \<noteq> None"
  shows "claimStart i s = (s, False)"
  using assms by (auto simp: claimStart_def)




text \<open>The demo node attaches and reports the finished task's execution, which the plane then asks to send.\<close>

definition demo_nodes :: nodeRegistry where
  "demo_nodes = fst (attach demo_roles 25 0 demo_node ''v1'' 7 True (loadNodeRegistry [(demo_node, 1)]))"

definition demo_inventory :: TaskInventoryBody where
  "demo_inventory = \<lparr>ib_RunID = demo_token, ib_Page = 0, ib_Final = False, ib_Entries =
     [\<lparr>in_TaskID = demo_b, in_Execution = \<lparr>Epoch = demo_token, Attachment = 1\<rparr>, in_StartDigest = demo_digest, in_Phase = PhaseResult,
       in_StartedAt = None, in_ResultDigest = None\<rparr>]\<rparr>"

definition demo_attached :: taskService where
  "demo_attached = run [EvReg demo_nodes, EvInventory 30 demo_node 1 demo_inventory newReconciliation] demo_service"

lemma demo_nodes_live:
  assumes "now < 5000000025"
  shows "currentAttachment now seq demo_node 1 demo_nodes = (demo_nodes, True)" "losses demo_nodes = []"
  using assms
  by (simp_all add: currentAttachment_def demo_nodes_def attach_def attachLocked_def loadNodeRegistry_def expireLocked_def expire_node_def expire_lease_def
      expire_grace_def expire_att_def newNodeState_def upd_node_def firstHeartbeatWindow_def Let_def fun_upd_twist)


lemma demo_exec [simp]: "Execution (lt_rec (loaded_of n (demo_finished i))) = \<lparr>Epoch = demo_token, Attachment = 1\<rparr>"
    "StartDigest (lt_rec (loaded_of n (demo_finished i))) = Some demo_digest" "Workspace (demo_finished i) = None" "Late (demo_finished i) = None"
  by (simp_all add: loaded_of_def demo_defs clear_late_def clear_log_def)

lemma demo_no_losses: "applyLossesLocked 30 (demo_service\<lparr>reg := demo_nodes\<rparr>) = demo_service\<lparr>reg := demo_nodes\<rparr>"
proof -
  have l: "losses demo_nodes = []" by (rule demo_nodes_live(2) [of 30]) simp
  then have "demo_nodes\<lparr>losses := []\<rparr> = demo_nodes" by simp
  then show ?thesis using l by (simp add: applyLossesLocked_def)
qed

lemma demo_attached_entry:
  "\<exists>e. tasks demo_attached demo_b = Some e \<and> reg demo_attached = demo_nodes \<and> te_rec e = lt_rec (loaded_of 4 (demo_finished demo_b))
     \<and> te_released e \<and> te_rgen e = 1 \<and> te_cand e = None \<and> te_late e = None \<and> te_pendingPub e = None"
  using demo_parts(2) demo_nodes_live(1) [of 30]
  by (simp add: demo_attached_def run_def inventory_def newReconciliation_def demo_inventory_def demo_no_losses liveAttachment_def
      inventory_entry_def disposeLocked_def undecided_def terminal_def put_def active_phase_def Let_def record_action_def)

lemma demo_attached_reachable: "reachable demo_attached"
  unfolding demo_attached_def by (rule reachable_run [OF demo_reachable])

lemma demo_authorized:
  assumes "tasks demo_attached demo_b = Some e" and "te_rgen e = 1" and "te_rec e = lt_rec (loaded_of 4 (demo_finished demo_b))"
  shows "authorizedLocked 31 demo_node 1 demo_b \<lparr>Epoch = demo_token, Attachment = 1\<rparr> demo_attached = (demo_attached, Inr e)"
  using assms demo_attached_entry demo_nodes_live(1) [of 31]
  by (auto simp: authorizedLocked_def liveAttachment_def Let_def)

theorem acknowledged_result_durable_witness:
  "\<exists>r. durable demo_attached demo_b = Some r \<and> TaskTerminal (State r) \<and> (ResultDigest r = Some demo_digest \<or> map_option l_Digest (Late r) = Some demo_digest)"
proof -
  obtain e where e: "tasks demo_attached demo_b = Some e" "te_rec e = lt_rec (loaded_of 4 (demo_finished demo_b))" "te_released e" "te_rgen e = 1"
    "te_pendingPub e = None" using demo_attached_entry by blast
  have "receiveResult 31 demo_node 1 (demo_result demo_b) demo_attached = (demo_attached, Inr True)"
    using demo_authorized [OF e(1,4,2)] e
    by (simp add: receiveResult_def demo_result_def workspace_matches_def claims_published_def capture_result_def committedLocked_def terminal_def
        publishingLocked_def pubLocked_def Let_def)
  from acknowledged_result_durable [OF demo_attached_reachable this] show ?thesis by (simp add: demo_result_def)
qed


end
