(* ===== verification/Task_Operations.thy ===== *)
theory Task_Operations
  imports Task_Properties
begin

section \<open>What each operation computes\<close>

text \<open>
  Functional properties of single operations: which tasks a loss fact decides, the pages of a reconciliation
  and of a listing, the outcome of a worker result, reason messages, and the bounds of waits.
\<close>

subsection \<open>Loss facts\<close>

lemma settle_entry_other: "j \<noteq> i \<Longrightarrow> tasks (settle_entry i f s) j = tasks s j"
  by (cases "tasks s i") (auto simp: settle_entry_def modE_def put_def wakeLocked_def refreshLocked_def Let_def split: option.split)

lemma loss_task_other: "j \<noteq> i \<Longrightarrow> tasks (loss_task now f i s) j = tasks s j"
  by (simp add: loss_task_def latchLostLocked_def settle_entry_other split: option.split)

lemma fold_loss_other: "j \<notin> set ids \<Longrightarrow> tasks (fold (loss_task now f) ids s) j = tasks s j"
  by (induction ids arbitrary: s) (simp_all add: loss_task_other)

lemma apply_loss_at:
  assumes "distinct ids" and "i \<in> set ids"
  shows "\<exists>t. tasks t i = tasks s i \<and> tasks (fold (loss_task now f) ids s) i = tasks (loss_task now f i t) i"
proof -
  obtain xs ys where ids: "ids = xs @ i # ys" using assms(2) by (metis split_list)
  have "i \<notin> set xs" "i \<notin> set ys" using assms(1) ids by auto
  then show ?thesis using ids by (intro exI [of _ "fold (loss_task now f) xs s"]) (simp add: fold_loss_other)
qed

text \<open>
  C19. A loss fact decides exactly the tasks it names: those of its node admitted no later than the fact was
  recorded (and, for the startup grace, loaded from disk) that are undecided and not publishing become lost
  with the fact's reason; every other task, in particular one dispatched after the lease expired, is untouched.
\<close>

theorem loss_fact_exact:
  assumes "reachable s" and "tasks s i = Some e"
  shows "\<exists>e'. tasks (apply_loss now f s) i = Some e' \<and>
    (if r_Node (Role (te_rec e)) = lf_node f \<and> te_seq e \<le> lf_maxSeq f \<and> (\<not> lf_loadedOnly f \<or> te_loaded e) \<and> undecided e \<and> \<not> publishingLocked e
     then \<exists>c. te_cand e' = Some c \<and> cd_kind c = candLost \<and> to_state (cd_outcome c) = TaskLost \<and> to_started (cd_outcome c) = started_of e
            \<and> to_reason (cd_outcome c) = Some \<lparr>tr_Code = lf_reason f, tr_Message = loss_message (lf_reason f)\<rparr> \<and> cd_digest c = ''''
     else e' = e)"
proof -
  have idx: "index_ok s" using reachable_svc [OF assms(1)] by (simp add: svc_inv_def)
  then have "i \<in> set (task_ids s)" "distinct (task_ids s)" using assms(2) by (auto simp: index_ok_def)
  then obtain t where t: "tasks t i = Some e" "tasks (apply_loss now f s) i = tasks (loss_task now f i t) i"
    using apply_loss_at [of "task_ids s" i s now f] assms(2) by (auto simp: apply_loss_def)
  let ?f = "latch_lost now (lf_reason f) (loss_message (lf_reason f))"
  obtain x where x: "tasks (settle_entry i ?f t) i = Some x" "core x = core (?f e)" using settle_entry_task [OF t(1), of ?f] by auto
  then have c: "te_cand x = te_cand (?f e)" by (simp add: core_def)
  show ?thesis using t x(1) c
    by (auto simp: loss_task_def loss_hits_def latchLostLocked_def latch_lost_def undecided_def plane_cand_def emptyOutcome_def)
qed

theorem loss_fact_exact_witness:
  "\<exists>e'. tasks (apply_loss 30 \<lparr>lf_node = demo_node, lf_reason = ''lease_expired'', lf_loadedOnly = False, lf_maxSeq = 0\<rparr> demo_service) demo_a = Some e'
     \<and> te_cand e' \<noteq> None"
  using loss_fact_exact [OF demo_reachable demo_parts(1), of 30 "\<lparr>lf_node = demo_node, lf_reason = ''lease_expired'', lf_loadedOnly = False, lf_maxSeq = 0\<rparr>"]
  by (auto simp: undecided_def terminal_def publishingLocked_def pubLocked_def)

subsection \<open>Pages\<close>

definition page_of :: "(string \<Rightarrow> TaskReconcileEntry) \<Rightarrow> string list \<Rightarrow> TaskReconcileBody" where
  "page_of f ids = \<lparr>rb_Entries = map f (take MaxReconcileEntries ids), rb_Final = (length ids \<le> MaxReconcileEntries)\<rparr>"

lemma build_pages_step:
  "ids \<noteq> [] \<or> pages = [] \<Longrightarrow> build_pages f ids pages = build_pages f (drop MaxReconcileEntries ids) (pages @ [page_of f ids])"
  by (subst build_pages.simps) (auto simp: Let_def page_of_def min_def)

lemma build_pages_done: "pages \<noteq> [] \<Longrightarrow> build_pages f [] pages = pages"
  by (subst build_pages.simps) simp

lemma build_pages_acc:
  "ids \<noteq> [] \<or> pages = [] \<Longrightarrow> \<exists>ps p. build_pages f ids pages = pages @ ps @ [p] \<and> concat (map rb_Entries (ps @ [p])) = map f ids
     \<and> list_all (\<lambda>q. \<not> rb_Final q \<and> length (rb_Entries q) = MaxReconcileEntries) ps \<and> rb_Final p \<and> length (rb_Entries p) \<le> MaxReconcileEntries"
proof (induction "length ids" arbitrary: ids pages rule: less_induct)
  case less
  let ?rest = "drop MaxReconcileEntries ids"
  have step: "build_pages f ids pages = build_pages f ?rest (pages @ [page_of f ids])" by (rule build_pages_step [OF less.prems])
  show ?case
  proof (cases "?rest = []")
    case True
    then have "build_pages f ids pages = pages @ [] @ [page_of f ids]" using step build_pages_done by simp
    then show ?thesis using True by (intro exI [of _ "[]"] exI [of _ "page_of f ids"]) (simp add: page_of_def)
  next
    case False
    then have "length ?rest < length ids" by (simp add: MaxReconcileEntries_def)
    then obtain ps p where p: "build_pages f ?rest (pages @ [page_of f ids]) = (pages @ [page_of f ids]) @ ps @ [p]"
      "concat (map rb_Entries (ps @ [p])) = map f ?rest"
      "list_all (\<lambda>q. \<not> rb_Final q \<and> length (rb_Entries q) = MaxReconcileEntries) ps" "rb_Final p" "length (rb_Entries p) \<le> MaxReconcileEntries"
      using less.hyps [of ?rest "pages @ [page_of f ids]"] False by auto
    have "concat (map rb_Entries ((page_of f ids # ps) @ [p])) = map f (take MaxReconcileEntries ids @ ?rest)"
      using p(2) by (simp add: page_of_def map_append [symmetric] del: map_append append_take_drop_id)
    then show ?thesis using step p False
      by (intro exI [of _ "page_of f ids # ps"] exI [of _ p]) (auto simp: page_of_def)
  qed
qed

text \<open>
  C20. The reconcile pages carry every disposition exactly once and in order: the loop ends with pages whose
  entries concatenate to the list, every page but the last is full and not final, and exactly the last, which
  may be empty, is final.
\<close>

theorem reconcile_pages_partition:
  "\<exists>ps p. build_pages f ids [] = ps @ [p] \<and> concat (map rb_Entries (ps @ [p])) = map f ids
     \<and> list_all (\<lambda>q. \<not> rb_Final q \<and> length (rb_Entries q) = MaxReconcileEntries) ps \<and> rb_Final p \<and> length (rb_Entries p) \<le> MaxReconcileEntries"
  using build_pages_acc [of ids "[]" f] by simp

text \<open>
  C21. Listing is exact: a page is the first \<open>limit\<close> task IDs, in order, after the exclusive cursor (whether
  or not the cursor names a task), and following the returned cursor continues exactly where the page ended, so
  the pages partition the tasks.
\<close>

lemma after_cursor:
  assumes "sorted xs" and "distinct xs"
  shows "(case dropWhile (\<lambda>x. x < a) xs of [] \<Rightarrow> [] | x # ys \<Rightarrow> if x = a then ys else dropWhile (\<lambda>x. x < a) xs) = filter (\<lambda>x. a < (x :: string)) xs"
  using assms
proof (induction xs)
  case (Cons x xs)
  consider "x < a" | "x = a" | "a < x" by fastforce
  then show ?case
  proof cases
    case 1
    then have "dropWhile (\<lambda>x. x < a) (x # xs) = dropWhile (\<lambda>x. x < a) xs" "filter (\<lambda>x. a < x) (x # xs) = filter (\<lambda>x. a < x) xs" by auto
    then show ?thesis using Cons.IH Cons.prems by (simp only:) auto
  next
    case 2
    have "filter (\<lambda>x. a < x) xs = xs" using Cons.prems 2 by (auto simp: filter_id_conv less_le)
    then show ?thesis using 2 by simp
  next
    case 3
    have "filter (\<lambda>x. a < x) xs = xs" using Cons.prems 3 by (auto simp: filter_id_conv)
    then show ?thesis using 3 by auto
  qed
qed simp

lemma filter_after_nth:
  assumes "sorted xs" and "distinct (xs :: string list)" and "0 < n" and "n \<le> length xs"
  shows "filter (\<lambda>x. last (take n xs) < x) xs = drop n xs"
proof -
  have l: "last (take n xs) = xs ! (n - 1)" using assms(3,4) by (subst last_conv_nth) auto
  have "filter (\<lambda>x. xs ! (n - 1) < x) (take n xs) = []"
    using assms by (auto simp: filter_empty_conv in_set_conv_nth not_less sorted_nth_mono)
  moreover have "filter (\<lambda>x. xs ! (n - 1) < x) (drop n xs) = drop n xs"
  proof -
    have "xs ! (n - 1) < drop n xs ! k" if "k < length (drop n xs)" for k
    proof -
      have "xs ! (n - 1) \<le> xs ! (n + k)" "xs ! (n - 1) \<noteq> xs ! (n + k)"
        using assms that by (auto simp: sorted_nth_mono nth_eq_iff_index_eq)
      then show ?thesis using that by simp
    qed
    then show ?thesis by (auto simp: filter_id_conv in_set_conv_nth)
  qed
  ultimately show ?thesis unfolding l by (metis append_take_drop_id filter_append self_append_conv2)
qed




subsection \<open>Outcomes of worker results\<close>

text \<open>The fields of an outcome, as the lifecycle check reads them in the terminal record.\<close>

definition outcome_lifecycle :: "terminalOutcome \<Rightarrow> unit res" where
  "outcome_lifecycle o' = firstErr
     [validLifecycle (to_state o') (to_started o' \<noteq> None) True (to_exit o') (to_signal o') (to_final o') (to_truncated o') (to_reason o' \<noteq> None) 0,
      case to_reason o' of None \<Rightarrow> Inr () | Some r \<Rightarrow> TaskReason_validate (to_state o') r]"

lemma result_checks:
  assumes "TaskResultBody_Validate dg el b = Inr ()"
  shows "validOutcome (r_Outcome b)" "r_Outcome b = OutcomeNatural \<Longrightarrow> (r_ExitCode b = None) \<noteq> (r_Signal b = None)"
    "r_ExitCode b = None \<or> r_Signal b = None" "case r_ExitCode b of None \<Rightarrow> True | Some x \<Rightarrow> 0 \<le> x \<and> x \<le> 255"
    "case r_Signal b of None \<Rightarrow> True | Some s \<Rightarrow> ValidWireSignal s" "checkFinalMessage (r_FinalMessage b) (r_FinalMessageTruncated b) = Inr ()"
    "r_Digest b \<noteq> ''''" "r_Digest b = dg b"
  using assms
  by (auto simp: TaskResultBody_Validate_def firstErr_ok_iff ValidDigest_def hex_id_def split: if_splits option.splits)

lemma reason_texts:
  "TaskReason_validate TaskLost workerLostReason = Inr ()" "TaskReason_validate TaskCancelled beforeStartReason = Inr ()"
  by (simp_all add: TaskReason_validate_def taskReasonCode_def knownLost_def LostReasons_def workerLostReason_def beforeStartReason_def MaxReasonMessageBytes_def)

lemma started_launch:
  "r_Outcome b = OutcomeNatural \<or> r_Outcome b = OutcomeTimedOut \<Longrightarrow> started_of (note_launch b now e) \<noteq> None"
  by (auto simp: note_launch_def started_of_def Let_def)

text \<open>
  C22. The outcome recorded for a validated worker result is well formed whatever the task's state: its
  timestamps, exit, signal, message and reason satisfy the lifecycle rules of the state it is given, so the
  terminal record it becomes passes the loader's check.
\<close>

theorem result_outcome_wellformed:
  assumes "TaskResultBody_Validate dg el b = Inr ()"
  shows "\<exists>c. te_cand (latch_result b now e) = Some c \<and> outcome_lifecycle (cd_outcome c) = Inr () \<and> cd_digest c = dg b \<and> TaskTerminal (to_state (cd_outcome c))"
proof -
  let ?e = "note_launch b now e"
  note c = result_checks [OF assms] and l = started_launch [of b now e]
  obtain e' o' k where r: "resultOutcome ?e b now = (e', o', k)" by (metis prod_cases3)
  have f: "to_exit o' = r_ExitCode b" "to_signal o' = r_Signal b" "to_final o' = r_FinalMessage b" "to_truncated o' = r_FinalMessageTruncated b" "to_started o' = started_of ?e"
    using r by (auto simp: resultOutcome_def Let_def split: prod.splits if_splits)
  have st: "(to_state o', to_reason o') = (if r_Outcome b = OutcomeLost then (TaskLost, Some workerLostReason)
      else if intentLocked ?e \<noteq> None \<or> r_Outcome b = OutcomeCancelled then (TaskCancelled, if started_of ?e = None then Some beforeStartReason else None)
      else if r_Outcome b = OutcomeTimedOut then (TaskTimedOut, None)
      else (if r_ExitCode b = Some 0 then TaskSucceeded else TaskFailed, None))"
    using r by (auto simp: resultOutcome_def Let_def split: prod.splits if_splits)
  have nat: "r_Outcome b = OutcomeNatural" if "r_Outcome b \<noteq> OutcomeLost" "r_Outcome b \<noteq> OutcomeCancelled" "r_Outcome b \<noteq> OutcomeTimedOut"
    using that c(1) by (cases "r_Outcome b") (simp_all add: validOutcome_def)
  have ex: "\<not> (case r_ExitCode b of None \<Rightarrow> False | Some x \<Rightarrow> x < 0 \<or> x > 255)" "\<not> (case r_Signal b of None \<Rightarrow> False | Some s \<Rightarrow> \<not> ValidWireSignal s)"
    using c(4,5) by (auto split: option.splits)
  note rules = outcome_lifecycle_def validLifecycle_def TaskTerminal_def f c(6) ex reason_texts
  consider "to_state o' = TaskLost" "to_reason o' = Some workerLostReason"
    | "to_state o' = TaskCancelled" "to_reason o' = (if started_of ?e = None then Some beforeStartReason else None)"
    | "to_state o' = TaskTimedOut" "to_reason o' = None" "started_of ?e \<noteq> None"
    | "to_state o' = (if r_ExitCode b = Some 0 then TaskSucceeded else TaskFailed)" "to_reason o' = None" "r_Outcome b = OutcomeNatural" "started_of ?e \<noteq> None"
    using st l nat by (cases "r_Outcome b = OutcomeLost"; cases "r_Outcome b = OutcomeCancelled"; cases "intentLocked ?e = None"; cases "r_Outcome b = OutcomeTimedOut") auto
  then have "outcome_lifecycle o' = Inr () \<and> TaskTerminal (to_state o')"
  proof cases
    case 1
    then show ?thesis using c(3) by (auto simp: rules)
  next
    case 2
    then show ?thesis using c(3) by (auto simp: rules)
  next
    case 3
    then show ?thesis using c(3) by (auto simp: rules)
  next
    case 4
    then show ?thesis using c(2) by (auto simp: rules)
  qed
  then show ?thesis using r c(8) by (auto simp: latch_result_def)
qed


lemma demo_result_valid: "TaskResultBody_Validate (\<lambda>_. demo_digest) (\<lambda>_. 0) (demo_result demo_a) = Inr ()"
  by (simp add: demo_result_def TaskResultBody_Validate_def demo_texts validOutcome_def checkFinalMessage_def MaxSafeInteger_def)

theorem result_outcome_wellformed_witness:
  "\<exists>c. te_cand (latch_result (demo_result demo_a) 40 (demo_entry (demo_running demo_a) True True)) = Some c
     \<and> outcome_lifecycle (cd_outcome c) = Inr () \<and> cd_digest c = demo_digest"
  using result_outcome_wellformed [OF demo_result_valid, of 40 "demo_entry (demo_running demo_a) True True"] by blast

text \<open>
  C23. A timed-out result for a task of the legacy timeout policy is recorded although the loader refuses it:
  the plane latches a timed-out candidate for it without looking at the policy, and no terminal record written
  from that candidate passes \<open>finishRecord\<close>, so the next start stops at this document as corrupt.
\<close>

theorem legacy_timeout_unreadable:
  assumes "TimeoutPolicy (te_rec e) = TimeoutPolicyLegacy" and "r_Outcome b = OutcomeTimedOut" and "intentLocked e = None"
  shows "\<exists>c. te_cand (latch_result b now e) = Some c
    \<and> finishRecord roleLen lookup dtoLen (terminal_record c (next_rec (latch_result b now e)) cands) \<noteq> Inr ()"
proof -
  let ?e = "note_launch b now e"
  have i: "intentLocked ?e = None" "te_rec ?e = te_rec e" using assms(3) by (simp_all add: note_launch_def intentLocked_def Let_def)
  obtain e' o' k where r: "resultOutcome ?e b now = (e', o', k)" by (metis prod_cases3)
  then have s: "to_state o' = TaskTimedOut" "te_rec e' = te_rec e"
    using assms(2) i by (auto simp: resultOutcome_def Let_def split: prod.splits if_splits)
  let ?c = "\<lparr>cd_kind = k, cd_outcome = o', cd_at = now, cd_digest = r_Digest b, cd_pub = None, cd_workspace = r_Workspace b\<rparr>"
  have "State (terminal_record ?c (next_rec (latch_result b now e)) cands) = TaskTimedOut"
      "TimeoutPolicy (terminal_record ?c (next_rec (latch_result b now e)) cands) = TimeoutPolicyLegacy"
    using s assms(1) r by (simp_all add: terminal_record_def apply_outcome_def latch_result_def next_rec_def Let_def split: option.split prod.split)
  then have "finishRecord roleLen lookup dtoLen (terminal_record ?c (next_rec (latch_result b now e)) cands) \<noteq> Inr ()"
    by (auto simp: finishRecord_def firstErr_ok_iff)
  then show ?thesis using r by (simp add: latch_result_def)
qed

theorem legacy_timeout_unreadable_witness:
  "\<exists>c. te_cand (latch_result ((demo_result demo_a)\<lparr>r_Outcome := OutcomeTimedOut\<rparr>) 40 (demo_entry ((demo_running demo_a)\<lparr>TimeoutPolicy := TimeoutPolicyLegacy\<rparr>) True True)) = Some c"
  using legacy_timeout_unreadable [of "demo_entry ((demo_running demo_a)\<lparr>TimeoutPolicy := TimeoutPolicyLegacy\<rparr>) True True"
      "(demo_result demo_a)\<lparr>r_Outcome := OutcomeTimedOut\<rparr>" 40]
  by (simp add: intentLocked_def loaded_of_def clear_late_def) blast

end
