(* ===== verification/Task_Waits.thy ===== *)
theory Task_Waits
  imports Task_Operations
begin

section \<open>Bounded waits\<close>

text \<open>
  The wait registrations of \<open>internal/plane/task_controls.go\<close> as a state machine of their own: reservations
  taken by a dispatch, released or consumed once, registrations, wakes and answers. \<open>wait_reach\<close> closes the
  operations in any order; a reservation is passed to \<open>wait\<close> at most once, as the type of the code's callers
  (\<open>waitReservation\<close>, deferred \<open>release\<close>) makes them do.
\<close>

inductive wait_reach :: "taskService \<Rightarrow> bool" where
  init: "waits s = {} \<Longrightarrow> waitReserve s = 0 \<Longrightarrow> reservations s = (\<lambda>_. None) \<Longrightarrow> wait_reach s"
| reserve: "wait_reach s \<Longrightarrow> wait_reach (fst (reserveWait s))"
| release: "wait_reach s \<Longrightarrow> wait_reach (releaseLocked rv s)"
| registered: "wait_reach s \<Longrightarrow> rv = None \<or> (\<exists>r. rv = Some r \<and> reservations s r = Some False) \<Longrightarrow> wait_reach (fst (wait_begin ids d rv s))"
| wake: "wait_reach s \<Longrightarrow> wait_reach (wakeWaitsLocked i s)"
| decide: "wait_reach s \<Longrightarrow> wait_reach (fst (wait_decide r c s))"

definition outstanding :: "taskService \<Rightarrow> nat set" where
  "outstanding s = {r. reservations s r = Some False}"

definition wait_inv :: "taskService \<Rightarrow> bool" where
  "wait_inv s \<longleftrightarrow> finite (waits s) \<and> finite (outstanding s) \<and> waitReserve s = int (card (outstanding s))
     \<and> card (waits s) + card (outstanding s) \<le> maxWaitCalls \<and> (\<forall>r. reservations s r \<noteq> None \<longrightarrow> r < nextReservation s)"

lemma wait_fields_put [simp]:
  "waits (put i e s) = waits s" "waitReserve (put i e s) = waitReserve s" "reservations (put i e s) = reservations s"
  "nextReservation (put i e s) = nextReservation s"
  by (simp_all add: put_def)

lemma wait_fields_modE [simp]:
  "waits (modE i f s) = waits s" "waitReserve (modE i f s) = waitReserve s" "reservations (modE i f s) = reservations s"
  "nextReservation (modE i f s) = nextReservation s"
  by (simp_all add: modE_def split: option.split)

lemma wait_fields_fold [simp]:
  "waits (fold (\<lambda>j. modE j f) ids s) = waits s" "waitReserve (fold (\<lambda>j. modE j f) ids s) = waitReserve s"
  "reservations (fold (\<lambda>j. modE j f) ids s) = reservations s" "nextReservation (fold (\<lambda>j. modE j f) ids s) = nextReservation s"
  by (induction ids arbitrary: s) simp_all

text \<open>Fewer registrations, the same reservations.\<close>

definition fewer :: "taskService \<Rightarrow> taskService \<Rightarrow> bool" where
  "fewer s s' \<longleftrightarrow> waits s' \<subseteq> waits s \<and> waitReserve s' = waitReserve s \<and> reservations s' = reservations s \<and> nextReservation s' = nextReservation s"

lemma fewer_refl [simp]: "fewer s s"
  by (simp add: fewer_def)

lemma fewer_trans: "fewer a b \<Longrightarrow> fewer b c \<Longrightarrow> fewer a c"
  by (auto simp: fewer_def)

lemma fewer_drop: "fewer s (dropWaitLocked r s)"
  by (auto simp: fewer_def dropWaitLocked_def split: option.split)

lemma fewer_win: "fewer s (win_wait i r s)"
proof (cases "regs s r")
  case (Some w)
  have "fewer s (s\<lparr>regs := x\<rparr>)" for x by (simp add: fewer_def)
  then show ?thesis using Some fewer_drop fewer_trans by (auto simp: win_wait_def) blast
qed (simp add: win_wait_def)

lemma fewer_fold: "(\<And>x s. fewer s (f x s)) \<Longrightarrow> fewer s (fold f xs s)"
  by (induction xs arbitrary: s) (auto intro: fewer_trans)

lemma fewer_wake: "fewer s (wakeWaitsLocked i s)"
  by (auto simp: wakeWaitsLocked_def fewer_win intro: fewer_fold split: option.split)

lemma wait_inv_fewer: "wait_inv s \<Longrightarrow> fewer s s' \<Longrightarrow> wait_inv s'"
proof -
  assume inv: "wait_inv s" and f: "fewer s s'"
  then have "finite (waits s')" "card (waits s') \<le> card (waits s)" by (auto simp: wait_inv_def fewer_def intro: finite_subset card_mono)
  then show ?thesis using inv f by (simp add: wait_inv_def fewer_def outstanding_def)
qed

lemma wait_inv_reserve: "wait_inv s \<Longrightarrow> wait_inv (fst (reserveWait s))"
proof (cases "wait_full s")
  case False
  assume inv: "wait_inv s"
  let ?n = "nextReservation s"
  have n: "?n \<notin> outstanding s" using inv by (auto simp: wait_inv_def outstanding_def)
  have "outstanding (fst (reserveWait s)) = insert ?n (outstanding s)" using False by (auto simp: reserveWait_def outstanding_def)
  then show ?thesis using inv n False by (auto simp: wait_inv_def reserveWait_def wait_full_def less_Suc_eq)
qed (simp add: reserveWait_def)

lemma outstanding_release: "reservations s r = Some False \<Longrightarrow> outstanding (releaseLocked (Some r) s) = outstanding s - {r}"
  by (auto simp: releaseLocked_def outstanding_def)

lemma wait_inv_release: "wait_inv s \<Longrightarrow> wait_inv (releaseLocked rv s)"
proof -
  assume inv: "wait_inv s"
  have "wait_inv (releaseLocked (Some r) s)" if r: "reservations s r = Some False" for r
  proof -
    have "r \<in> outstanding s" using r by (simp add: outstanding_def)
    then have "card (outstanding s) = Suc (card (outstanding s - {r}))" using inv card.remove by (metis wait_inv_def)
    then show ?thesis using inv r outstanding_release [OF r] by (auto simp: wait_inv_def releaseLocked_def)
  qed
  then show ?thesis using inv by (cases rv) (auto simp: releaseLocked_def)
qed

lemma wait_inv_register:
  assumes inv: "wait_inv s" and ok: "rv = None \<and> \<not> wait_full s \<or> (\<exists>r. rv = Some r \<and> reservations s r = Some False)"
  shows "wait_inv (releaseLocked rv (fst (registerWaitLocked ids s)))"
proof -
  let ?s = "fst (registerWaitLocked ids s)"
  have f: "waits ?s = insert (nextReg s) (waits s)" "waitReserve ?s = waitReserve s" "reservations ?s = reservations s" "nextReservation ?s = nextReservation s"
    by (simp_all add: registerWaitLocked_def Let_def)
  have o: "outstanding ?s = outstanding s" using f(3) by (simp add: outstanding_def)
  have c: "card (waits ?s) \<le> Suc (card (waits s))" using f(1) inv by (simp add: wait_inv_def card_insert_if)
  show ?thesis
  proof (cases rv)
    case None
    then have "card (waits s) + card (outstanding s) < maxWaitCalls" using ok inv by (simp add: wait_full_def wait_inv_def)
    then show ?thesis using None inv f o c by (auto simp: wait_inv_def releaseLocked_def)
  next
    case (Some r)
    then have r: "reservations ?s r = Some False" "r \<in> outstanding s" using ok f(3) by (auto simp: outstanding_def)
    then have k: "card (outstanding s) = Suc (card (outstanding s - {r}))" using inv card.remove by (metis wait_inv_def)
    then show ?thesis using Some inv f o c outstanding_release [OF r(1)] r by (auto simp: wait_inv_def releaseLocked_def)
  qed
qed

lemma wait_reach_inv: "wait_reach s \<Longrightarrow> wait_inv s"
proof (induction rule: wait_reach.induct)
  case (init s)
  then show ?case by (simp add: wait_inv_def outstanding_def)
next
  case (reserve s)
  then show ?case by (intro wait_inv_reserve)
next
  case (release s rv)
  then show ?case by (intro wait_inv_release)
next
  case (registered s rv ids d)
  then show ?case using wait_inv_register [of s rv ids]
    by (auto simp: wait_begin_def Let_def wait_inv_release split_beta split: option.split)
next
  case (wake s i)
  then show ?case using wait_inv_fewer fewer_wake by blast
next
  case (decide s r c)
  have "fewer s (fst (wait_decide r c s))" using fewer_drop by (auto simp: wait_decide_def Let_def split: option.split)
  then show ?case using decide wait_inv_fewer by blast
qed

text \<open>
  C17. Waits are bounded: in every order of reservations, releases, waits, wakes and answers the registrations
  and outstanding reservations together never exceed 1024, the counter of reservations is exact, and a
  reservation is refused exactly when the bound is reached.
\<close>

theorem waits_bounded:
  assumes "wait_reach s"
  shows "finite (waits s) \<and> card (waits s) + card {r. reservations s r = Some False} \<le> 1024
    \<and> waitReserve s = int (card {r. reservations s r = Some False})
    \<and> (snd (reserveWait s) = wait_capacity \<longleftrightarrow> card (waits s) + card {r. reservations s r = Some False} = 1024)"
  using wait_reach_inv [OF assms]
  by (auto simp: wait_inv_def outstanding_def maxWaitCalls_def reserveWait_def wait_full_def wait_capacity_def)

theorem waits_bounded_witness:
  "card (waits (fst (wait_begin [demo_a] 5 None demo_service))) + card {r. reservations (fst (wait_begin [demo_a] 5 None demo_service)) r = Some False} \<le> 1024"
proof -
  have "waits demo_service = {}" "waitReserve demo_service = 0" "reservations demo_service = (\<lambda>_. None)"
    unfolding demo_service_def demo_startup_def startup_def demo_load
    by (simp_all add: Let_def newTaskService_def emptyService_def heldLocked_def refreshLocked_def MaxSafeInteger_def)
  then have "wait_reach demo_service" by (rule wait_reach.init)
  then have "wait_reach (fst (wait_begin [demo_a] 5 None demo_service))" by (rule wait_reach.registered) simp
  from waits_bounded [OF this] show ?thesis by blast
qed

end
