(* ===== verification/Task_Liveness.thy ===== *)
theory Task_Liveness
  imports Task_Waits
begin

section \<open>A decided task is committed\<close>

text \<open>
  Progress of the writer: once a candidate is latched, at most four successful document writes (running, stop
  intent, publication intent, terminal) make the task terminal and release its reservation. \<open>rest\<close> is the part
  of an entry the writer's schedule reads beside \<open>core\<close>.
\<close>

definition rest :: "taskEntry \<Rightarrow> _" where
  "rest e = (te_needRunning e, te_fault e, te_writer e)"

definition samerest :: "taskService \<Rightarrow> taskService \<Rightarrow> bool" where
  "samerest s s' \<longleftrightarrow> (\<forall>j. map_option rest (tasks s' j) = map_option rest (tasks s j)) \<and> jobs s' = jobs s \<and> svc_closed s' = svc_closed s"

lemma samerest_refl [simp]: "samerest s s"
  by (simp add: samerest_def)

lemma samerest_trans: "samerest a b \<Longrightarrow> samerest b c \<Longrightarrow> samerest a c"
  by (simp add: samerest_def)

lemma samerest_put: "samerest s0 s \<Longrightarrow> tasks s i = Some e \<Longrightarrow> rest e' = rest e \<Longrightarrow> samerest s0 (put i e' s)"
  by (erule samerest_trans) (auto simp: samerest_def put_def)

lemma samerest_modE: "samerest s0 s \<Longrightarrow> (\<And>e. rest (f e) = rest e) \<Longrightarrow> samerest s0 (modE i f s)"
  by (auto simp: modE_def split: option.split intro: samerest_put)

lemma samerest_fold: "samerest s0 s \<Longrightarrow> (\<And>x s. samerest s0 s \<Longrightarrow> samerest s0 (f x s)) \<Longrightarrow> samerest s0 (fold f xs s)"
  by (induction xs arbitrary: s) auto

lemma samerest_fields [simp]:
  "samerest s0 (s\<lparr>counts := a1\<rparr>) = samerest s0 s" "samerest s0 (s\<lparr>blocked := a2\<rparr>) = samerest s0 s"
  "samerest s0 (s\<lparr>releases := a3\<rparr>) = samerest s0 s" "samerest s0 (s\<lparr>woken := a4\<rparr>) = samerest s0 s"
  "samerest s0 (s\<lparr>ctlNodes := a5\<rparr>) = samerest s0 s" "samerest s0 (s\<lparr>regs := a6\<rparr>) = samerest s0 s"
  "samerest s0 (s\<lparr>waits := a7\<rparr>) = samerest s0 s"
  by (simp_all add: samerest_def)

lemma samerest_refresh: "samerest s0 s \<Longrightarrow> samerest s0 (refreshLocked i s)"
  by (erule samerest_trans) (auto simp: refreshLocked_def Let_def samerest_def rest_def split: option.split)

lemma samerest_notify: "samerest s0 s \<Longrightarrow> samerest s0 (notifyLocked i s)"
  by (auto simp: notifyLocked_def rest_def split: option.split intro!: samerest_put)

lemma samerest_want: "samerest s0 s \<Longrightarrow> samerest s0 (wantControlLocked i s)"
  by (auto simp: wantControlLocked_def split: option.split)

lemma samerest_dropControl: "samerest s0 s \<Longrightarrow> samerest s0 (dropControlLocked i s)"
  by (auto simp: dropControlLocked_def rest_def split: option.split intro!: samerest_put)

lemma samerest_dropWait: "samerest s0 s \<Longrightarrow> samerest s0 (dropWaitLocked r s)"
  by (auto simp: dropWaitLocked_def rest_def split: option.split intro!: samerest_fold samerest_modE)

lemma samerest_wakeWaits: "samerest s0 s \<Longrightarrow> samerest s0 (wakeWaitsLocked i s)"
  by (auto simp: wakeWaitsLocked_def win_wait_def split: option.split intro!: samerest_fold samerest_dropWait)

lemma samerest_finish_intent: "samerest s0 s \<Longrightarrow> samerest s0 (finish_intent i s)"
  by (auto simp: finish_intent_def intent_committed_def rest_def split: option.split intro!: samerest_want samerest_put)

lemma samerest_finish: "samerest s0 s \<Longrightarrow> samerest s0 (finishPublicationLocked i s)"
  using samerest_finish_intent [of s0 s i]
  by (auto simp: finishPublicationLocked_def Let_def terminal_committed_def rest_def split: option.split
      intro!: samerest_notify samerest_dropControl samerest_wakeWaits samerest_put)

lemma samerest_entry: "samerest s s' \<Longrightarrow> tasks s i = Some e \<Longrightarrow> \<exists>e'. tasks s' i = Some e' \<and> rest e' = rest e"
  unfolding samerest_def by (metis (no_types, opaque_lifting) map_option_eq_Some)

subsection \<open>One round of the writer\<close>

definition round :: "instant \<Rightarrow> string \<Rightarrow> event list" where
  "round now i = [EvTake now i, EvWrite True DiskOk now i]"

text \<open>The documents still to be written before and with the terminal one.\<close>

definition pending_writes :: "taskEntry \<Rightarrow> nat" where
  "pending_writes e = of_bool (te_needRunning e) + of_bool (te_pendingIntent e \<noteq> None) + of_bool (te_pendingPub e \<noteq> None) + 1"

definition ready :: "instant \<Rightarrow> string \<Rightarrow> taskService \<Rightarrow> taskEntry \<Rightarrow> bool" where
  "ready now i s e \<longleftrightarrow> tasks s i = Some e \<and> te_cand e \<noteq> None \<and> te_confirmed e \<and> (te_fault e \<longrightarrow> \<not> before now (te_retryAt e))
     \<and> te_writer e \<and> jobs s i = None \<and> \<not> terminal e"

lemma apply_entry:
  assumes "tasks s i = Some e"
  shows "\<exists>e'. tasks (applyLocked now i j DiskOk s) i = Some e' \<and> core e' = core (finished (install_job now j True e)) \<and> rest e' = rest (install_job now j True e)
    \<and> jobs (applyLocked now i j DiskOk s) = jobs s"
proof -
  let ?x = "install_job now j True e" and ?s = "put i (install_job now j True e) s"
  have t: "tasks ?s i = Some ?x" by (simp add: put_def)
  have a: "applyLocked now i j DiskOk s = refreshLocked i (finishPublicationLocked i ?s)" using assms by (simp add: applyLocked_def modE_def)
  have "samecore (put i (finished ?x) ?s) (applyLocked now i j DiskOk s)" unfolding a by (intro samecore_refresh finish_core t)
  then have "map_option core (tasks (applyLocked now i j DiskOk s) i) = Some (core (finished ?x))" by (simp add: samecore_def put_def)
  then obtain e' where c: "tasks (applyLocked now i j DiskOk s) i = Some e'" "core e' = core (finished ?x)" by auto
  have r: "samerest ?s (applyLocked now i j DiskOk s)" unfolding a by (intro samerest_refresh samerest_finish samerest_refl)
  then show ?thesis using c samerest_entry [OF r t] by (auto simp: samerest_def put_def)
qed

text \<open>The kind of the next document.\<close>

definition next_kind :: "taskEntry \<Rightarrow> jobKind" where
  "next_kind e = (if te_needRunning e then JobRunning else if te_pendingIntent e \<noteq> None then JobStopIntent
     else if te_pendingPub e \<noteq> None then JobPublicationIntent else candKindName (cd_kind (the (te_cand e))))"

lemma live_log_sel [simp]: "Revision (with_live_log e r) = Revision r" "State (with_live_log e r) = State r"
  by (simp_all add: with_live_log_def split: option.split)

lemma checkpointed_same: "core (checkpointed now e) = core e" "rest (checkpointed now e) = rest e"
  by (simp_all add: checkpointed_def core_def rest_def)

definition takes :: "instant \<Rightarrow> string \<Rightarrow> taskService \<Rightarrow> taskEntry \<Rightarrow> taskService \<Rightarrow> publicationJob \<Rightarrow> bool" where
  "takes now i s e s1 j \<longleftrightarrow> nextJobLocked now i s = (s1, Some j, False) \<and> (\<exists>e1. tasks s1 i = Some e1 \<and> core e1 = core e \<and> rest e1 = rest e)
     \<and> jobs s1 = jobs s \<and> pj_kind j = next_kind e \<and> Revision (pj_rec j) = Revision (te_rec e) + 1"

lemma next_job:
  assumes r: "ready now i s e" and v: "Revision (te_rec e) < MaxSafeInteger"
  shows "\<exists>s1 j. takes now i s e s1 j"
proof -
  have f: "tasks s i = Some e" "te_confirmed e" "te_fault e \<longrightarrow> \<not> before now (te_retryAt e)" "\<not> terminal e" "te_cand e \<noteq> None" "\<not> MaxSafeInteger \<le> Revision (te_rec e)"
    using r v by (simp_all add: ready_def)
  note unf = takes_def nextJobLocked_def next_kind_def Let_def
  consider "te_needRunning e" | "\<not> te_needRunning e" "te_pendingIntent e \<noteq> None" | "\<not> te_needRunning e" "te_pendingIntent e = None" "te_pendingPub e \<noteq> None"
    | "\<not> te_needRunning e" "te_pendingIntent e = None" "te_pendingPub e = None" by blast
  then show ?thesis
  proof cases
    case 1
    then show ?thesis using f by (auto simp: unf)
  next
    case 2
    then show ?thesis using f by (auto simp: unf put_def checkpointed_same)
  next
    case 3
    then show ?thesis using f by (auto simp: unf put_def checkpointed_same)
  next
    case 4
    obtain s2 ob where ob: "observeLocked now (q_Target (Request (te_rec e))) s = (s2, ob)" by (metis surj_pair)
    then have "tasks s2 = tasks s" "jobs s2 = jobs s" using observe_fields [of now "q_Target (Request (te_rec e))" s] by simp_all
    then show ?thesis using 4 f ob by (cases "cd_kind (the (te_cand e)) = candRefusal") (auto simp: unf)
  qed
qed

lemma finished_fields [simp]:
  "te_cand (finished e) = te_cand e" "te_confirmed (finished e) = te_confirmed e" "te_pendingIntent (finished e) = te_pendingIntent e"
  "te_pendingPub (finished e) = te_pendingPub e" "Revision (te_rec (finished e)) = Revision (te_rec e)" "State (te_rec (finished e)) = State (te_rec e)"
  by (simp_all add: finished_def Let_def)

lemma install_rest: "rest (install_job now j True e) = (te_needRunning e \<and> pj_kind j \<noteq> JobRunning, False, te_writer e)"
  by (cases "pj_kind j") (simp_all add: rest_def install_job_def job_installed_def)

lemma core_fields:
  assumes "core e' = core e"
  shows "te_rec e' = te_rec e" "te_confirmed e' = te_confirmed e" "te_pendingIntent e' = te_pendingIntent e" "te_pendingPub e' = te_pendingPub e" "te_cand e' = te_cand e"
    "te_released e' = te_released e"
  using assms by (simp_all add: core_def)

lemma job_state:
  assumes "job_ok e j" and "entry_ok e" and "\<not> terminal e"
  shows "TaskTerminal (State (pj_rec j)) \<longleftrightarrow> pj_kind j \<in> {JobTerminal, JobLost, JobRejected}"
proof -
  have n: "\<not> TaskTerminal (State (te_rec e))" using assms(3) by (simp add: terminal_def)
  have c: "TaskTerminal (to_state (cd_outcome c))" if "te_cand e = Some c" for c using entry_okD(5) [OF assms(2) that] by (simp add: cand_ok_def)
  show ?thesis using assms n c by (cases "pj_kind j") (auto simp: job_ok_def)
qed

lemma round_step:
  assumes inv: "svc_inv s" and r: "ready now i s e" and v: "Revision (te_rec e) < MaxSafeInteger"
  shows "\<exists>e'. tasks (run (round now i) s) i = Some e' \<and> Revision (te_rec e') = Revision (te_rec e) + 1
    \<and> (if pending_writes e = 1 then terminal e' \<and> te_released e' else ready now i (run (round now i) s) e' \<and> pending_writes e' = pending_writes e - 1)"
proof -
  obtain s1 j where "takes now i s e s1 j" using next_job [OF r v] by blast
  then obtain e1 where t: "nextJobLocked now i s = (s1, Some j, False)" "tasks s1 i = Some e1" "core e1 = core e" "rest e1 = rest e"
    "jobs s1 = jobs s" "pj_kind j = next_kind e" "Revision (pj_rec j) = Revision (te_rec e) + 1" by (auto simp: takes_def)
  have f: "tasks s i = Some e" "te_writer e" "jobs s i = None" "te_cand e \<noteq> None" "\<not> terminal e" using r by (simp_all add: ready_def)
  note ok = svc_invD(1) [OF inv f(1)]
  have jo: "job_ok e j" using nextJob_job [OF f(1), of now] t(1) by (simp add: job_good_some)
  have kind: "pj_kind j \<noteq> JobLate" using jo f(5) by (auto simp: job_ok_def)
  define s2 where "s2 = update_store i (pj_rec j) DiskOk (s1\<lparr>jobs := (jobs s)(i := None)\<rparr>)"
  have "run (round now i) s = applyLocked now i j DiskOk s2"
    using f t kind by (simp add: run_def round_def writer_take_def writer_write_def Let_def s2_def fun_upd_upd)
  moreover have s2: "tasks s2 i = Some e1" "jobs s2 i = None" using t(2) by (simp_all add: s2_def update_store_def)
  ultimately obtain e' where e': "tasks (run (round now i) s) i = Some e'" "core e' = core (finished (install_job now j True e1))"
    "rest e' = rest (install_job now j True e1)" "jobs (run (round now i) s) i = None" using apply_entry [OF s2(1), of now j] by auto
  note c = core_fields [OF e'(2)] and c1 = core_fields [OF t(3)]
  have rst: "te_needRunning e' = (te_needRunning e \<and> pj_kind j \<noteq> JobRunning)" "\<not> te_fault e'" "te_writer e'"
    using e'(3) t(4) f(2) by (simp_all add: install_rest) (simp_all add: rest_def)
  have rv: "Revision (te_rec e') = Revision (te_rec e) + 1" using c(1) t(7) by simp
  have ts: "terminal e' \<longleftrightarrow> pj_kind j \<in> {JobTerminal, JobLost, JobRejected}" using c(1) job_state [OF jo ok f(5)] by (simp add: terminal_def)
  have k1: "pj_kind j \<in> {JobTerminal, JobLost, JobRejected} \<longleftrightarrow> pending_writes e = 1"
    unfolding t(6) next_kind_def pending_writes_def candKindName_def by (auto split: candKind.split)
  have rel: "te_released e'" if "terminal e'"
    using c(6) that ts job_state [OF jo ok f(5)] by (simp add: finished_def terminal_def Let_def)
  have "ready now i (run (round now i) s) e' \<and> pending_writes e' = pending_writes e - 1" if n: "pending_writes e \<noteq> 1"
  proof -
    have nt: "pj_kind j \<notin> {JobTerminal, JobLost, JobRejected}" using n k1 by simp
    then have "te_cand e' \<noteq> None" "te_confirmed e'" using c(2,5) c1(5) f(4) by auto
    then have "ready now i (run (round now i) s) e'" using e'(1,4) rst nt ts by (simp add: ready_def)
    moreover have "te_pendingIntent e' = (if next_kind e = JobStopIntent then None else te_pendingIntent e)"
        "te_pendingPub e' = (if next_kind e = JobPublicationIntent then None else te_pendingPub e)" "te_needRunning e' = (te_needRunning e \<and> next_kind e \<noteq> JobRunning)"
      using rst(1) c(3,4) c1(3,4) t(6) by simp_all
    then have "pending_writes e' = pending_writes e - 1"
      using n by (cases "te_needRunning e"; cases "te_pendingIntent e"; cases "te_pendingPub e") (simp_all add: pending_writes_def next_kind_def)
    ultimately show ?thesis by blast
  qed
  then show ?thesis using e'(1) rv ts k1 rel by auto
qed


lemma run_append: "run (a @ b) s = run b (run a s)"
  by (simp add: run_def)

lemma rounds_commit:
  assumes "svc_inv s" and "ready now i s e" and "Revision (te_rec e) + int (pending_writes e) \<le> MaxSafeInteger" and "pending_writes e = Suc n"
  shows "\<exists>e'. tasks (run (concat (replicate (Suc n) (round now i))) s) i = Some e' \<and> terminal e' \<and> te_released e'"
  using assms
proof (induction n arbitrary: s e)
  case 0
  then show ?case using round_step [OF 0(1,2)] by auto
next
  case (Suc n)
  let ?s = "run (round now i) s"
  obtain e' where e': "Revision (te_rec e') = Revision (te_rec e) + 1" "ready now i ?s e'" "pending_writes e' = Suc n"
    using round_step [OF Suc.prems(1,2)] Suc.prems(3,4) by auto
  have "\<exists>x. tasks (run (concat (replicate (Suc n) (round now i))) ?s) i = Some x \<and> terminal x \<and> te_released x"
    by (rule Suc.IH [OF run_svc_inv [OF Suc.prems(1)] e'(2)]) (use e'(1,3) Suc.prems(3,4) in simp_all)
  then show ?case by (simp add: run_append)
qed

text \<open>
  C14. A decided task is committed and released: from any reachable service in which a candidate is latched, its
  record confirmed, no storage fault pending and its writer running, as many writer rounds with a working disk as
  there are documents to write, at most four, end with the task terminal with that candidate's outcome and its
  reservation released.
\<close>

theorem decided_task_commits:
  assumes "reachable s" and "tasks s i = Some e" and "te_cand e = Some c" and "te_confirmed e" and "te_fault e \<longrightarrow> \<not> before now (te_retryAt e)"
    and "te_writer e" and "jobs s i = None" and "Revision (te_rec e) + 4 \<le> MaxSafeInteger"
  shows "\<exists>n e'. n \<le> 4 \<and> tasks (run (concat (replicate n (round now i))) s) i = Some e' \<and> terminal e' \<and> \<not> held e' \<and> decided_by c (te_rec e')"
proof -
  have inv: "svc_inv s" by (rule reachable_svc [OF assms(1)])
  have "\<not> terminal e" using entry_okD(2) [OF svc_invD(1) [OF inv assms(2)]] assms(3) by auto
  then have r: "ready now i s e" using assms by (simp add: ready_def)
  obtain n where n: "pending_writes e = Suc n" by (simp add: pending_writes_def)
  have le: "pending_writes e \<le> 4" by (simp add: pending_writes_def)
  then have rv: "Revision (te_rec e) + int (pending_writes e) \<le> MaxSafeInteger" using assms(8) by linarith
  obtain e' where e': "tasks (run (concat (replicate (Suc n) (round now i))) s) i = Some e'" "terminal e'" "te_released e'"
    using rounds_commit [OF inv r rv n] by blast
  have "hist e e'" using reachable_entry [OF assms(1,2)] e'(1) by (metis option.inject)
  moreover have "te_cand e' = None" using e'(1,2) entry_okD(2) svc_invD(1) [OF run_svc_inv [OF inv]] by metis
  ultimately have "decided_by c (te_rec e')" using histD(10) [of e e' c] assms(3) by auto
  then show ?thesis using e' le n by (intro exI [of _ "Suc n"] exI [of _ e']) (simp add: held_def)
qed

theorem decided_task_commits_witness:
  "\<exists>n e'. n \<le> 4 \<and> tasks (run (concat (replicate n (round 50 demo_a))) demo_lost) demo_a = Some e' \<and> terminal e' \<and> \<not> held e'"
proof -
  obtain e c where e: "tasks demo_lost demo_a = Some e" "te_cand e = Some c" "te_confirmed e" "\<not> te_fault e" "te_writer e" "Revision (te_rec e) = 2"
    "jobs demo_lost demo_a = None" using demo_lost_entry by blast
  then show ?thesis using decided_task_commits [OF demo_lost_reachable e(1,2), of 50] by (simp add: MaxSafeInteger_def) blast
qed

end
