(* ===== verification/Task_Capacity.thy ===== *)
theory Task_Capacity
  imports Task_Properties
begin

section \<open>Admission never overcommits a role\<close>

text \<open>
  While an admission holds the mutation gate no other admission begins and the role registry stands still, and
  between its rechecks the number of held tasks of an instance can only fall. So the free slot its last recheck
  saw is still free when the record is published. \<open>adm3\<close> is the part of the state only admission changes.
\<close>

definition adm3 :: "taskService \<Rightarrow> _" where
  "adm3 s = (adm s, gate s, roles s)"

lemma adm3_fields [simp]:
  "adm3 (s\<lparr>tasks := a1\<rparr>) = adm3 s" "adm3 (s\<lparr>counts := a2\<rparr>) = adm3 s" "adm3 (s\<lparr>blocked := a3\<rparr>) = adm3 s" "adm3 (s\<lparr>reg := a4\<rparr>) = adm3 s"
  "adm3 (s\<lparr>releases := a5\<rparr>) = adm3 s" "adm3 (s\<lparr>woken := a6\<rparr>) = adm3 s" "adm3 (s\<lparr>ctlNodes := a7\<rparr>) = adm3 s" "adm3 (s\<lparr>regs := a8\<rparr>) = adm3 s"
  "adm3 (s\<lparr>waits := a9\<rparr>) = adm3 s" "adm3 (s\<lparr>jobs := b1\<rparr>) = adm3 s" "adm3 (s\<lparr>tokens := b2\<rparr>) = adm3 s" "adm3 (s\<lparr>docs := b3\<rparr>) = adm3 s"
  "adm3 (s\<lparr>durable := b4\<rparr>) = adm3 s" "adm3 (s\<lparr>captured := b5\<rparr>) = adm3 s" "adm3 (s\<lparr>synced := b6\<rparr>) = adm3 s" "adm3 (s\<lparr>svc_closed := b7\<rparr>) = adm3 s"
  "adm3 (s\<lparr>nextChan := b8\<rparr>) = adm3 s" "adm3 (s\<lparr>nextReg := b9\<rparr>) = adm3 s" "adm3 (s\<lparr>waitReserve := c1\<rparr>) = adm3 s"
  "adm3 (s\<lparr>reservations := c2\<rparr>) = adm3 s" "adm3 (s\<lparr>nextReservation := c3\<rparr>) = adm3 s"
  by (simp_all add: adm3_def)

lemma adm3_prims [simp]:
  "adm3 (put i e s) = adm3 s" "adm3 (modE i f s) = adm3 s" "adm3 (refreshLocked i s) = adm3 s" "adm3 (release_token t s) = adm3 s"
  "adm3 (fst (liveAttachment now n g s)) = adm3 s" "adm3 (wantControlLocked i s) = adm3 s"
  by (simp_all add: put_def modE_def refreshLocked_def release_token_def liveAttachment_def wantControlLocked_def Let_def split_beta split: option.split)

lemma adm3_fold: "(\<And>x s. adm3 (f x s) = adm3 s) \<Longrightarrow> adm3 (fold f xs s) = adm3 s"
  by (induction xs arbitrary: s) simp_all

lemma adm3_fold_modE [simp]: "adm3 (fold (\<lambda>j. modE j f) xs s) = adm3 s"
  by (intro adm3_fold) simp

lemma adm3_steps [simp]:
  "adm3 (wakeLocked i s) = adm3 s" "adm3 (notifyLocked i s) = adm3 s" "adm3 (dropControlLocked i s) = adm3 s" "adm3 (dropWaitLocked r s) = adm3 s"
  "adm3 (dropWaiterLocked i c s) = adm3 s" "adm3 (fst (waiterLocked i s)) = adm3 s" "adm3 (settle_entry i f s) = adm3 s" "adm3 (finish_intent i s) = adm3 s"
  by (simp_all add: wakeLocked_def notifyLocked_def dropControlLocked_def dropWaitLocked_def dropWaiterLocked_def waiterLocked_def settle_entry_def finish_intent_def
      split: option.split)

lemma adm3_wakeWaits [simp]: "adm3 (wakeWaitsLocked i s) = adm3 s"
  by (auto simp: wakeWaitsLocked_def win_wait_def split: option.split intro!: adm3_fold)

lemma adm3_writer [simp]:
  "adm3 (finishPublicationLocked i s) = adm3 s" "adm3 (confirm i rv s) = adm3 s" "adm3 (applyLocked now i j disk s) = adm3 s" "adm3 (update_store i r disk s) = adm3 s"
  by (simp_all add: finishPublicationLocked_def confirm_def applyLocked_def update_store_def Let_def split: option.split disk_outcome.split)

lemma adm3_latches [simp]:
  "adm3 (latchCancelledBeforeStartLocked now i s) = adm3 s" "adm3 (latchRefusalLocked now r i s) = adm3 s" "adm3 (latchLostLocked now x m i s) = adm3 s"
  by (simp_all add: latchCancelledBeforeStartLocked_def latchRefusalLocked_def latchLostLocked_def split: option.split)

lemma adm3_dispatch [simp]:
  "adm3 (fst (claimStart i s)) = adm3 s" "adm3 (startUnsent now i s) = adm3 s" "adm3 (startUncertain i s) = adm3 s" "adm3 (submit i s) = adm3 s"
  "adm3 (startReplied now i g r p s) = adm3 s"
  by (simp_all add: claimStart_def startUnsent_def startUncertain_def submit_def startReplied_def Let_def split: option.split)

lemma adm3_authorized: "adm3 (fst (authorizedLocked now n g i tok s)) = adm3 s"
  by (simp add: authorizedLocked_def Let_def split_beta split: option.split)

lemma adm3_enqueue [simp]: "adm3 (enqueueStart now x d i s) = adm3 s" "adm3 (detached n g s) = adm3 s"
  by (auto simp: enqueueStart_def detached_def detach_task_def split: option.split intro!: adm3_fold)

lemma adm3_observe [simp]: "adm3 (fst (observeLocked now t s)) = adm3 s"
  by (simp add: observeLocked_def Let_def)

lemma adm3_nextJob: "adm3 (fst (nextJobLocked now i s)) = adm3 s"
  by (simp add: nextJobLocked_def Let_def split_beta split: option.split)

lemma adm3_take [simp]: "adm3 (writer_take now i s) = adm3 s"
  using adm3_nextJob [of now i s] by (auto simp: writer_take_def split: option.split prod.split bool.split)

lemma adm3_write [simp]: "adm3 (writer_write rd disk now i s) = adm3 s"
  by (simp add: writer_write_def Let_def split: option.split sum.split)

lemma adm3_tick [simp]: "adm3 (fst (tick now s)) = adm3 s"
  by (auto simp: tick_def tick_task_def expirePreparationsLocked_def expire_preparation_def Let_def split: option.split intro!: adm3_fold trans [OF adm3_fold])

lemma adm3_losses [simp]: "adm3 (applyLossesLocked now s) = adm3 s"
  by (auto simp: applyLossesLocked_def apply_loss_def loss_task_def split: option.split intro!: trans [OF adm3_fold] adm3_fold)

lemma adm3_receive [simp]: "adm3 (fst (receiveLog now n g b s)) = adm3 s"
  using adm3_authorized [of now n g "tl_TaskID b" "tl_Execution b" s]
  by (auto simp: receiveLog_def receive_primary_def receive_late_def Let_def split: prod.split sum.split option.split)

lemma adm3_result [simp]: "adm3 (fst (receiveResult now n g b s)) = adm3 s"
  using adm3_authorized [of now n g "r_TaskID b" "r_Execution b" s]
  by (auto simp: receiveResult_def capture_result_def Let_def split: prod.split sum.split)


lemma adm3_dispose: "adm3 (fst (disposeLocked now gen ie i e s)) = adm3 s"
  by (simp add: disposeLocked_def Let_def)

lemma adm3_entry: "adm3 (fst (fst (inventory_entry now n g ie sr))) = adm3 (fst sr)"
  using adm3_dispose by (auto simp: inventory_entry_def Let_def split_beta split: option.split)

lemma adm3_entries: "adm3 (fst (fst (inventory_entries now n g ies sr))) = adm3 (fst sr)"
proof (induction ies arbitrary: sr)
  case (Cons ie ies)
  obtain sr' x where s: "inventory_entry now n g ie sr = (sr', x)" by (metis surj_pair)
  then have "adm3 (fst sr') = adm3 (fst sr)" using adm3_entry [of now n g ie sr] by simp
  then show ?case using Cons s by (cases x) simp_all
qed simp

lemma adm3_inventory [simp]: "adm3 (fst (fst (inventory now n g b sr))) = adm3 (fst sr)"
proof -
  have f: "adm3 (fst (inventory_final now n g sr)) = adm3 (fst sr)" for sr
    by (auto simp: inventory_final_def missing_task_def Let_def split: option.split intro!: adm3_fold)
  show ?thesis using adm3_entries [of now n g "ib_Entries b"] f
    by (auto simp: inventory_def Let_def split_beta split: sum.split)
qed

lemma adm3_controls [simp]:
  "adm3 (fst (cancel now ok i sid s)) = adm3 s" "adm3 (requestCancel now i sid s) = adm3 s" "adm3 (fst (takeControl n g now l s)) = adm3 s"
  "adm3 (controlDone i a t s) = adm3 s" "adm3 (fst (reserveWait s)) = adm3 s" "adm3 (releaseLocked rv s) = adm3 s" "adm3 (fst (wait_decide r c s)) = adm3 s"
  by (simp_all add: cancel_def requestCancel_def selectIntentLocked_def takeControl_def controlDone_def reserveWait_def releaseLocked_def wait_decide_def Let_def
      split: option.split)

lemma adm3_wait [simp]: "adm3 (fst (wait_begin ids d rv s)) = adm3 s"
  by (simp add: wait_begin_def registerWaitLocked_def Let_def split_beta split: option.split)

lemma adm3_prepared [simp]: "adm3 (fst (preparedLocked now b i e s)) = adm3 s"
  by (simp add: preparedLocked_def wait_prepared_def Let_def split_beta split: option.split)

lemma adm3_prepared2 [simp]: "adm3 (fst (prepared now n g b s)) = adm3 s" "adm3 (fst (preparedRecheck now b s)) = adm3 s"
proof -
  show "adm3 (fst (preparedRecheck now b s)) = adm3 s" by (simp add: preparedRecheck_def split: option.split)
  show "adm3 (fst (prepared now n g b s)) = adm3 s"
    using adm3_authorized [of now n g "tp_TaskID b" "tp_Execution b" s] adm3_prepared
    by (auto simp: prepared_def Let_def split_beta split: prod.split sum.split)
qed

lemma adm3_publication [simp]: "adm3 (fst (Authorize now i a c tree same bld s)) = adm3 s" "adm3 (fst (Settle dg now i st s)) = adm3 s"
  by (simp_all add: Authorize_def authorize_new_def Settle_def Let_def split_beta split: option.split sum.split)

definition admission_event :: "event \<Rightarrow> bool" where
  "admission_event ev \<longleftrightarrow> (case ev of EvBegin _ _ _ _ _ _ \<Rightarrow> True | EvAttempt _ _ _ _ \<Rightarrow> True | EvPrepare _ _ _ \<Rightarrow> True | EvPublish _ _ \<Rightarrow> True
     | EvRoles _ \<Rightarrow> True | _ \<Rightarrow> False)"

lemma adm3_exec: "\<not> admission_event ev \<Longrightarrow> adm3 (exec ev s) = adm3 s"
  by (cases ev) (simp_all add: admission_event_def captureSync_def syncStore_def close_service_def)


subsection \<open>Held tasks only leave\<close>

lemma exec_ids:
  assumes inv: "svc_inv s" and ev: "\<And>disk v. ev \<noteq> EvPublish disk v"
  shows "task_ids (exec ev s) = task_ids s"
proof (cases "calm_event ev")
  case True
  then show ?thesis using exec_calm [OF True, of s] by (simp add: calm_def)
next
  case False
  have put: "task_ids (put i x t) = task_ids t" for i x t by (simp add: put_def)
  have fin: "task_ids (finishPublicationLocked i (put i x t)) = task_ids t" for i x t
    using finish_core [of "put i x t" i x] by (simp add: samecore_def put_def)
  have sc: "task_ids (wakeLocked i t) = task_ids t" "task_ids (refreshLocked i t) = task_ids t" "task_ids (modE i f t) = task_ids t" for i t f
    by (simp_all add: wakeLocked_def modE_def put_def refreshLocked_def Let_def split: option.split)
  have fin': "task_ids (finishPublicationLocked i (modE i f t)) = task_ids t" for i f t
    using fin by (cases "tasks t i") (simp_all add: modE_def finishPublicationLocked_def finish_intent_def)
  have ap: "task_ids (applyLocked now i j disk t) = task_ids t" for now i j disk t
    by (simp add: applyLocked_def sc fin' split: disk_outcome.split)
  have nj: "task_ids (fst (nextJobLocked now i s)) = task_ids s" for now i using calm_nextJob [of s now i] by (simp add: calm_def)
  have take: "task_ids (writer_take now i s) = task_ids s" for now i
    using nj [of now i] by (auto simp: writer_take_def sc split: option.split prod.split bool.split)
  show ?thesis using False ev
    by (cases ev) (auto simp: take calm_event_def captureSync_def syncStore_def confirm_def sc fin ap writer_write_def update_store_def Let_def
        split: option.split prod.split bool.split sum.split disk_outcome.split)
qed

lemma exec_dom: "svc_inv s \<Longrightarrow> (\<And>disk v. ev \<noteq> EvPublish disk v) \<Longrightarrow> dom (tasks (exec ev s)) = dom (tasks s)"
  using exec_ids [of s ev] exec_inv [of s ev] by (simp add: svc_inv_def index_ok_def)

definition holders :: "taskService \<Rightarrow> instanceKey \<Rightarrow> string set" where
  "holders s k = {i. \<exists>e. tasks s i = Some e \<and> te_key e = k \<and> held e}"

lemma held_card: "ledger_inv s \<Longrightarrow> fst (heldLocked s k) = int (card (holders s k)) \<and> finite (holders s k)"
proof -
  assume l: "ledger_inv s"
  then have f: "heldL.current s i" "heldL.exact s" for i by (simp_all add: ledger_at_def fresh_def)
  then have "finite (dom (tasks s))" by (simp add: heldL.exact_def)
  then have "finite (holders s k)" by (rule finite_subset [rotated]) (auto simp: holders_def)
  moreover have "fst (heldLocked s k) = int (card {i. \<exists>e. tasks s i = Some e \<and> te_key e = k \<and> held e})" using f by (intro heldL.count_is_card)
  ultimately show ?thesis by (simp add: holders_def)
qed

lemma held_stays_out: "hist e e' \<Longrightarrow> held e' \<Longrightarrow> held e"
  using hist_terminal histD(7) by (auto simp: held_def)

lemma holders_fall:
  assumes "svc_inv s" and "\<And>disk v. ev \<noteq> EvPublish disk v"
  shows "holders (exec ev s) k \<subseteq> holders s k"
proof
  fix i assume "i \<in> holders (exec ev s) k"
  then obtain e' where e': "tasks (exec ev s) i = Some e'" "te_key e' = k" "held e'" by (auto simp: holders_def)
  then obtain e where e: "tasks s i = Some e" using exec_dom [OF assms] by blast
  moreover have "hist e e'" using exec_hist [OF assms(1), of ev] e e'(1) unfolding hist_svc_def by fastforce
  ultimately show "i \<in> holders s k" using e'(2,3) histD(2) held_stays_out by (auto simp: holders_def)
qed

lemma held_falls:
  assumes "svc_inv s" and "ledger_inv s" and "\<And>disk v. ev \<noteq> EvPublish disk v"
  shows "fst (heldLocked (exec ev s) k) \<le> fst (heldLocked s k)"
  using held_card [OF assms(2), of k] held_card [OF exec_ledger [OF assms(1,2)], of ev k] holders_fall [OF assms(1,3), of k]
  by (simp add: card_mono)

subsection \<open>The slot an admission holds\<close>

definition slot :: "taskService \<Rightarrow> instanceKey \<Rightarrow> bool" where
  "slot s k \<longleftrightarrow> (\<exists>r \<in> set (doc_roles (rs_visible (roles s))). keyOf r = k \<and> fst (heldLocked s k) < r_Concurrency r)"

definition cap_inv :: "taskService \<Rightarrow> bool" where
  "cap_inv s \<longleftrightarrow> (\<forall>a. adm s = Some a \<longrightarrow> gate s \<and> (ad_checks a \<ge> 1 \<longrightarrow> slot s (keyOf (ad_role a))))"

lemma targets_id: "r \<in> set (targets doc (TargetID v)) \<Longrightarrow> r \<in> set (doc_roles doc) \<and> r_ID r = v"
  by (auto simp: targets_def dest: in_set_takeD)

lemma recheck_slot:
  assumes "observeLocked now (TargetID (r_ID (ad_role a))) s = (s', ob)" and "recheck_ok a ob"
  shows "slot s' (keyOf (ad_role a)) \<and> adm3 s' = adm3 s"
proof -
  let ?t = "targets (rs_visible (roles s)) (TargetID (r_ID (ad_role a)))"
  have o: "ob_recs ob = ?t" "roles s' = roles s" "heldLocked s' = heldLocked s" "adm3 s' = adm3 s"
    and cs: "ob_cands ob = map (\<lambda>r. fst (candidateLocked (fst (expireLocked now 0 (admitted s) (reg s))) (roles s) r (heldLocked s (keyOf r))
      (rs_blocked (roles s) \<or> storageBlockedLocked s))) ?t"
    using assms(1) by (auto simp: observeLocked_def Let_def heldLocked_def fun_eq_iff)
  obtain r where r: "?t = [r]" using assms(2) o(1) by (auto simp: recheck_ok_def length_Suc_conv)
  then have i: "r \<in> set (doc_roles (rs_visible (roles s)))" "r_ID r = r_ID (ad_role a)"
    using targets_id [of r "rs_visible (roles s)" "r_ID (ad_role a)"] by simp_all
  have k: "keyOf r = keyOf (ad_role a)" using assms(2) o(1) r i(2) by (simp add: recheck_ok_def keyOf_def)
  have "fst (heldLocked s (keyOf r)) < r_Concurrency r"
    using assms(2) cs r by (auto simp: recheck_ok_def candidateLocked_def Let_def split: if_splits)
  then show ?thesis using i(1) k o by (auto simp: slot_def)
qed

lemma cap_inv_recheck:
  assumes "gate s" and "cap_inv s"
  shows "cap_inv (fst (admit_recheck ok now a s))"
proof (cases ok)
  case True
  obtain s' ob where s': "observeLocked now (TargetID (r_ID (ad_role a))) s = (s', ob)" by (metis surj_pair)
  have g: "gate s'" using adm3_observe [of now "TargetID (r_ID (ad_role a))" s] s' assms(1) by (simp add: adm3_def)
  have sl: "slot (s'\<lparr>adm := x\<rparr>) k = slot s' k" for x k by (simp add: slot_def heldLocked_def)
  show ?thesis using True s' recheck_slot [OF s'] g sl
    by (auto simp: admit_recheck_def cap_inv_def admit_abort_def release_token_def)
qed (simp add: admit_recheck_def cap_inv_def admit_abort_def release_token_def)

lemma cap_inv_none: "adm s = None \<Longrightarrow> cap_inv s"
  by (simp add: cap_inv_def)

lemma cap_inv_begin: "cap_inv s \<Longrightarrow> cap_inv (fst (admit_begin now lookup b ok d req s))"
proof (cases "gate s")
  case True
  assume inv: "cap_inv s"
  have "adm3 (fst (observeLocked now (q_Target req) s)) = adm3 s" "heldLocked (fst (observeLocked now (q_Target req) s)) = heldLocked s"
    by simp (simp add: observeLocked_def heldLocked_def fun_eq_iff Let_def)
  then show ?thesis using True inv by (simp add: admit_begin_def cap_inv_def slot_def adm3_def)
next
  case False
  assume "cap_inv s"
  then have a: "adm s = None" using False by (auto simp: cap_inv_def)
  have sel: "cap_inv (fst (admit_select now lookup d req bd t))" if t: "adm t = None" "gate t" for bd t
  proof -
    obtain t' ob where o: "observeLocked now (q_Target req) t = (t', ob)" by (metis surj_pair)
    then have "adm t' = None" "gate t'" using t adm3_observe [of now "q_Target req" t] by (auto simp: adm3_def)
    then show ?thesis using o
      by (auto simp: admit_select_def cap_inv_def reserveStart_def split: option.splits sum.splits if_splits)
  qed
  show ?thesis using False a sel by (auto simp: admit_begin_def cap_inv_def split: sum.split prod.split)
qed

lemma cap_inv_publish: "cap_inv s \<Longrightarrow> cap_inv (fst (admit_publish disk v s))"
proof -
  assume inv: "cap_inv s"
  have "adm (modE i f t) = adm t" "adm (refreshLocked i t) = adm t" "adm (release_token x t) = adm t" for i f t x
    using adm3_prims unfolding adm3_def by blast+
  then show ?thesis using inv by (auto simp: admit_publish_def Let_def cap_inv_def admit_abort_def split: option.split)
qed

lemma cap_inv_exec:
  assumes inv: "svc_inv s" "ledger_inv s" and c: "cap_inv s"
  shows "cap_inv (exec ev s)"
proof (cases "admission_event ev")
  case False
  then have a: "adm3 (exec ev s) = adm3 s" by (rule adm3_exec)
  have p: "ev \<noteq> EvPublish disk v" for disk v using False by (auto simp: admission_event_def)
  have "slot (exec ev s) k" if "slot s k" for k
    using that a held_falls [OF inv p, of k] unfolding slot_def adm3_def by fastforce
  then show ?thesis using c a by (simp add: cap_inv_def adm3_def)
next
  case True
  have ab: "cap_inv (admit_abort a t)" for a t by (simp add: cap_inv_def admit_abort_def release_token_def)
  have g: "gate s" if "adm s = Some a" for a using c that by (simp add: cap_inv_def)
  have "cap_inv (fst (admit_attempt idr dg x now s))" for idr dg x now
    using c cap_inv_recheck [OF g c] ab by (auto simp: admit_attempt_def Let_def split: option.split sum.split)
  moreover have "cap_inv (fst (admit_prepare p x now s))" for p x now
    using c cap_inv_recheck [OF g c] ab by (auto simp: admit_prepare_def split: option.split sum.split)
  moreover have "cap_inv (exec (EvRoles rs) s)" for rs using c by (auto simp: cap_inv_def)
  ultimately show ?thesis using True c cap_inv_begin cap_inv_publish by (cases ev) (simp_all add: admission_event_def)
qed

lemma load_entries_adm: "load_entries lts s = Inr s' \<Longrightarrow> adm s' = adm s"
proof (induction lts arbitrary: s)
  case (Cons lt lts)
  have "adm (refreshLocked i t) = adm t" for i t using adm3_prims unfolding adm3_def by blast
  then show ?case using Cons by (auto simp: Let_def split: if_splits)
qed simp

lemma startup_adm: "startup env st files enrolled nr rs names = Inr s \<Longrightarrow> adm s = None"
  by (erule startup_parts) (auto simp: newTaskService_def emptyService_def dest: load_entries_adm split: sum.splits)

lemma reachable_cap: "reachable s \<Longrightarrow> cap_inv s"
proof (induction rule: reachable.induct)
  case (step s ev)
  then show ?case using cap_inv_exec reachable_inv by blast
qed (simp_all add: cap_inv_none startup_adm)

text \<open>
  C3. No role instance is ever overcommitted: whenever an admission publishes a task, in any interleaving with
  the other operations of the plane, the task is new, its role is one of the visible roles, and counting the
  new task that role holds no more tasks than its concurrency.
\<close>

theorem admission_within_capacity:
  assumes "reachable s" and "admit_publish disk v s = (s', Inr i)"
  shows "tasks s i = None \<and> (\<exists>e r. tasks s' i = Some e \<and> r \<in> set (doc_roles (rs_visible (roles s))) \<and> te_key e = keyOf r
    \<and> fst (heldLocked s' (keyOf r)) \<le> r_Concurrency r)"
proof -
  have inv: "svc_inv s" "ledger_inv s" using reachable_inv [OF assms(1)] by auto
  have s': "s' = exec (EvPublish disk v) s" using assms(2) by simp
  obtain a where a: "adm s = Some a" "ad_checks a = 2" "docs s i = None" "TaskID (ad_rec a) = i"
    using assms(2) by (auto simp: admit_publish_def Let_def busy_def split: option.splits if_splits)
  have "slot s (keyOf (ad_role a))" using reachable_cap [OF assms(1)] a(1,2) by (simp add: cap_inv_def)
  then obtain r where r: "r \<in> set (doc_roles (rs_visible (roles s)))" "keyOf r = keyOf (ad_role a)"
    "fst (heldLocked s (keyOf r)) < r_Concurrency r" by (auto simp: slot_def)
  have new: "tasks s i = None" using inv(1) a(3) svc_invD(2) unfolding store_ok_def by (cases "tasks s i") fastforce+
  obtain e where e: "tasks s' = (tasks s)(i \<mapsto> e)" "te_key e = keyOf r"
    using assms(2) a r(2) by (auto simp: admit_publish_def Let_def busy_def admittedEntry_def modE_def put_def refreshLocked_def split: if_splits)
  have l: "ledger_inv s'" unfolding s' by (rule exec_ledger [OF inv])
  have "holders s' (keyOf r) \<subseteq> insert i (holders s (keyOf r))" using e(1) by (auto simp: holders_def split: if_splits)
  then have "card (holders s' (keyOf r)) \<le> Suc (card (holders s (keyOf r)))"
    using held_card [OF inv(2), of "keyOf r"] card_insert_le_m1 card_mono by (metis card_insert_if finite_insert le_SucI)
  then have "fst (heldLocked s' (keyOf r)) \<le> r_Concurrency r"
    using held_card [OF inv(2), of "keyOf r"] held_card [OF l, of "keyOf r"] r(3) by simp
  then show ?thesis using new e r(1) by auto
qed


text \<open>A dispatch admitted on an empty directory: one node, attached, its only role ready.\<close>

definition cap_att :: attachment where
  "cap_att = \<lparr>a_gen = 1, a_firstDeadline = 900, a_heartbeated = True, a_sw = ''v1'', a_pv = 1, a_stream = True,
     a_desired = \<lparr>rev = 1, snap_roles = [demo_role]\<rparr>, a_acked = \<lparr>rev = 1, snap_roles = [demo_role]\<rparr>, a_status = Some [True],
     a_reconciled = True, a_graceWin = False, a_unknown = False\<rparr>"

definition cap_reg :: nodeRegistry where
  "cap_reg = \<lparr>nodes = [demo_node \<mapsto> (newNodeState 1 True)\<lparr>n_online := True, n_deadline := 900, n_att := Some cap_att\<rparr>], node_ids = [demo_node],
     gen_counter = 1, closed = False, losses = []\<rparr>"

definition cap_start :: taskService where
  "cap_start = projr (startup demo_env demo_start (\<lambda>_. errInvalid) (\<lambda>_. True) cap_reg demo_roles [])"

definition cap_ready :: taskService where
  "cap_ready = run [EvBegin 40 (le_lookup demo_env) (Inr None) True False demo_req, EvAttempt (Inr demo_a) (\<lambda>_. demo_digest) True 41,
     EvPrepare (Inr ()) True 42] cap_start"

lemma cap_start_eq: "startup demo_env demo_start (\<lambda>_. errInvalid) (\<lambda>_. True) cap_reg demo_roles [] = Inr cap_start"
  "cap_start = (emptyService cap_reg demo_roles ''e'' 60)"
proof -
  have "doc_of demo_env (\<lambda>_. errInvalid) = (\<lambda>_. None)" by (simp add: doc_of_def readTaskFile_def fun_eq_iff)
  then have "startup demo_env demo_start (\<lambda>_. errInvalid) (\<lambda>_. True) cap_reg demo_roles [] = Inr (emptyService cap_reg demo_roles ''e'' 60)"
    by (simp add: startup_def newTaskService_def demo_start_def emptyService_def)
  then show "startup demo_env demo_start (\<lambda>_. errInvalid) (\<lambda>_. True) cap_reg demo_roles [] = Inr cap_start"
    "cap_start = (emptyService cap_reg demo_roles ''e'' 60)" by (simp_all add: cap_start_def)
qed

lemma cap_observe:
  assumes "roles s = demo_roles" and "reg s = cap_reg" and "counts s = (\<lambda>_. None)" and "blocked s = {}" and "now < 900"
  shows "\<exists>c. observeLocked now (TargetID ''dev'') s = (s, \<lparr>ob_roles = demo_roles, ob_recs = [demo_role], ob_cands = [c], ob_gens = [Some 1], ob_snapRevs = [1]\<rparr>)
    \<and> tc_CanAccept c"
proof -
  have x: "expireLocked now 0 (admitted s) cap_reg = (cap_reg, [])"
    using assms(5) by (simp add: expireLocked_def cap_reg_def expire_node_def expire_lease_def expire_grace_def expire_att_def newNodeState_def cap_att_def
        upd_node_def)
  have t: "targets (rs_visible demo_roles) (TargetID ''dev'') = [demo_role]"
    by (simp add: targets_def demo_roles_def newRoleRegistry_def demo_role_def MaxCandidates_def)
  have "readinessLocked cap_reg demo_roles demo_role = ''available''"
    by (simp add: readinessLocked_def demo_roles_def newRoleRegistry_def fenced_def fenceOf_def cap_reg_def cap_att_def SameRoleConfig_def)
  moreover have "nodes cap_reg demo_node = Some ((newNodeState 1 True)\<lparr>n_online := True, n_deadline := 900, n_att := Some cap_att\<rparr>)"
    by (simp add: cap_reg_def)
  moreover have "\<not> rs_blocked demo_roles" "r_Concurrency demo_role = 2" "s\<lparr>reg := cap_reg\<rparr> = s"
    using assms(2) by (simp_all add: demo_roles_def newRoleRegistry_def demo_role_def)
  ultimately show ?thesis using assms x t
    by (simp add: observeLocked_def candidateLocked_def heldLocked_def storageBlockedLocked_def desired_rev_def current_gen_def Let_def cap_att_def newNodeState_def)
qed

lemma cap_ready_reachable: "reachable cap_ready"
  unfolding cap_ready_def by (rule reachable_run, rule reachable.start [OF cap_start_eq(1)]) (simp_all add: readTaskFile_def)

lemma cap_ready_adm:
  "\<exists>a. adm cap_ready = Some a \<and> ad_checks a = 2 \<and> TaskID (ad_rec a) = demo_a" "docs cap_ready = (\<lambda>_. None)"
proof -
  define s1 where "s1 = exec (EvBegin 40 (le_lookup demo_env) (Inr None) True False demo_req) cap_start"
  let ?r = "pendingRecord demo_req demo_role 1 \<lparr>ef_Model = ''m'', ef_Effort = ''low'', ef_Timeout = 5\<rparr> ''e'' 1 40 None"
  have q: "q_Target demo_req = TargetID ''dev''" "\<not> rs_blocked demo_roles" "r_ID demo_role = ''dev''" "revision (rs_visible demo_roles) = 1"
    by (simp_all add: demo_req_def demo_roles_def newRoleRegistry_def demo_role_def)
  have ef: "ResolveEffective demo_role (q_Override demo_req) (le_lookup demo_env) = Inr \<lparr>ef_Model = ''m'', ef_Effort = ''low'', ef_Timeout = 5\<rparr>"
    using demo_paths by (simp add: ResolveEffective_def demo_role_def demo_req_def Resolved_def apply_override_def CheckEffort_def demo_env_def)
  let ?t = "cap_start\<lparr>roles := demo_roles, gate := True\<rparr>"
  obtain c where c: "observeLocked 40 (TargetID ''dev'') ?t = (?t, \<lparr>ob_roles = demo_roles, ob_recs = [demo_role], ob_cands = [c], ob_gens = [Some 1], ob_snapRevs = [1]\<rparr>)"
    "tc_CanAccept c" using cap_observe [of ?t 40] by (auto simp: cap_start_eq(2) emptyService_def)
  have s1: "s1 = ?t\<lparr>tokens := [0 \<mapsto> 1], nextToken := 1, adm := Some \<lparr>ad_req = demo_req, ad_role = demo_role, ad_gen = 1, ad_rev = 1, ad_rec = ?r,
      ad_tok = 0, ad_attempt = 0, ad_checks = 0\<rparr>\<rparr>"
    using q ef c by (simp add: s1_def admit_begin_def resync_def admit_select_def cap_start_eq(2) emptyService_def reserveStart_def maxQueuedStarts_def)
  define s2 where "s2 = exec (EvAttempt (Inr demo_a) (\<lambda>_. demo_digest) True 41) s1"
  obtain c2 where c2: "observeLocked 41 (TargetID ''dev'') s1 = (s1, \<lparr>ob_roles = demo_roles, ob_recs = [demo_role], ob_cands = [c2], ob_gens = [Some 1], ob_snapRevs = [1]\<rparr>)"
    "tc_CanAccept c2" using cap_observe [of s1 41] by (auto simp: s1 cap_start_eq(2) emptyService_def)
  have a1: "adm s1 = Some \<lparr>ad_req = demo_req, ad_role = demo_role, ad_gen = 1, ad_rev = 1, ad_rec = ?r, ad_tok = 0, ad_attempt = 0, ad_checks = 0\<rparr>"
    by (simp add: s1)
  have s2: "s2 = s1\<lparr>adm := Some \<lparr>ad_req = demo_req, ad_role = demo_role, ad_gen = 1, ad_rev = 1, ad_rec = ?r\<lparr>TaskID := demo_a, StartDigest := Some demo_digest\<rparr>,
      ad_tok = 0, ad_attempt = 0, ad_checks = 1\<rparr>\<rparr>"
    using q c2 a1 by (simp add: s2_def admit_attempt_def admit_recheck_def recheck_ok_def Let_def)
  obtain c3 where c3: "observeLocked 42 (TargetID ''dev'') s2 = (s2, \<lparr>ob_roles = demo_roles, ob_recs = [demo_role], ob_cands = [c3], ob_gens = [Some 1], ob_snapRevs = [1]\<rparr>)"
    "tc_CanAccept c3" using cap_observe [of s2 42] by (auto simp: s2 s1 cap_start_eq(2) emptyService_def)
  have e: "cap_ready = exec (EvPrepare (Inr ()) True 42) s2" by (simp add: cap_ready_def run_def s2_def s1_def)
  have a2: "adm s2 = Some \<lparr>ad_req = demo_req, ad_role = demo_role, ad_gen = 1, ad_rev = 1, ad_rec = ?r\<lparr>TaskID := demo_a, StartDigest := Some demo_digest\<rparr>,
      ad_tok = 0, ad_attempt = 0, ad_checks = 1\<rparr>" by (simp add: s2)
  have c: "cap_ready = s2\<lparr>adm := Some \<lparr>ad_req = demo_req, ad_role = demo_role, ad_gen = 1, ad_rev = 1, ad_rec = ?r\<lparr>TaskID := demo_a, StartDigest := Some demo_digest\<rparr>,
      ad_tok = 0, ad_attempt = 0, ad_checks = 2\<rparr>\<rparr>"
    using q c3 a2 unfolding e by (simp add: admit_prepare_def admit_recheck_def recheck_ok_def)
  show "\<exists>a. adm cap_ready = Some a \<and> ad_checks a = 2 \<and> TaskID (ad_rec a) = demo_a" "docs cap_ready = (\<lambda>_. None)"
    unfolding c by (simp_all add: s2 s1 cap_start_eq(2) emptyService_def)
qed

theorem admission_within_capacity_witness:
  "\<exists>s'. admit_publish DiskOk 43 cap_ready = (s', Inr demo_a) \<and> tasks s' demo_a \<noteq> None"
proof -
  have "snd (admit_publish DiskOk 43 cap_ready) = Inr demo_a" using cap_ready_adm by (auto simp: admit_publish_def Let_def)
  then obtain s' where "admit_publish DiskOk 43 cap_ready = (s', Inr demo_a)" by (metis prod.collapse)
  then show ?thesis using admission_within_capacity [OF cap_ready_reachable, of DiskOk 43 s' demo_a] by auto
qed

end
