(* ===== verification/Role_Removal.thy ===== *)
theory Role_Removal
  imports Task_Capacity
begin

section \<open>Forced role removal\<close>

text \<open>
  \<open>internal/plane/removal.go\<close>: \<open>role rm --force\<close> persists a fence for one instance of a role, the coordinator cancels the tasks the
  instance holds and, once none is left, deletes the role and its fence in one registry transaction. The coordinator's
  operations are a map from instances; a response waiter is the number of its channel. The transactions are those of \<open>Role_Registry\<close>:
  their inputs are the mutation's environment, and the readings of the instance's held count at the first check and at the two rechecks of the
  commit. The loop's wakes and timers only decide when a pass runs.
\<close>

record removalOp =
  ro_op :: string
  ro_node :: string
  ro_waiters :: "nat list"

record removalCoordinator =
  rc_ops :: "instanceKey \<Rightarrow> removalOp option"
  rc_nextChan :: nat
  rc_closedChans :: "nat set"

definition newRemovalCoordinator :: removalCoordinator where
  "newRemovalCoordinator = \<lparr>rc_ops = (\<lambda>_. None), rc_nextChan = 0, rc_closedChans = {}\<rparr>"

definition join :: "instanceKey \<Rightarrow> string \<Rightarrow> string \<Rightarrow> removalCoordinator \<Rightarrow> removalCoordinator \<times> nat" where
  "join k op node rc =
     (let c = rc_nextChan rc;
          o1 = (case rc_ops rc k of None \<Rightarrow> \<lparr>ro_op = op, ro_node = node, ro_waiters = []\<rparr> | Some x \<Rightarrow> x)
      in (rc\<lparr>rc_ops := (rc_ops rc)(k \<mapsto> o1\<lparr>ro_waiters := ro_waiters o1 @ [c]\<rparr>), rc_nextChan := c + 1\<rparr>, c))"

definition leave :: "instanceKey \<Rightarrow> nat \<Rightarrow> removalCoordinator \<Rightarrow> removalCoordinator" where
  "leave k c rc = (case rc_ops rc k of None \<Rightarrow> rc | Some x \<Rightarrow> rc\<lparr>rc_ops := (rc_ops rc)(k \<mapsto> x\<lparr>ro_waiters := remove1 c (ro_waiters x)\<rparr>)\<rparr>)"

definition complete_removal :: "instanceKey \<Rightarrow> removalCoordinator \<Rightarrow> removalCoordinator" where
  "complete_removal k rc =
     (case rc_ops rc k of
        None \<Rightarrow> rc
      | Some x \<Rightarrow> rc\<lparr>rc_ops := (rc_ops rc)(k := None), rc_closedChans := rc_closedChans rc \<union> set (ro_waiters x)\<rparr>)"

definition close_coordinator :: "removalCoordinator \<Rightarrow> removalCoordinator" where
  "close_coordinator rc = rc\<lparr>rc_ops := (\<lambda>k. map_option (\<lambda>x. x\<lparr>ro_waiters := []\<rparr>) (rc_ops rc k))\<rparr>"

subsection \<open>A pass of the coordinator\<close>

text \<open>A registry that is visible but unconfirmed is synced first; only confirmed fences drive cancellations.\<close>

definition pass_sync :: "bool \<Rightarrow> taskService \<Rightarrow> taskService \<times> roleDoc option" where
  "pass_sync syncOk s =
     (if \<not> rs_blocked (roles s) then (s, Some (rs_confirmed (roles s)))
      else if gate s then (s, None)
      else case resync syncOk (roles s) of
        (rs, Inl _) \<Rightarrow> (s\<lparr>roles := rs\<rparr>, None)
      | (rs, Inr _) \<Rightarrow> (s\<lparr>roles := rs\<rparr>, Some (rs_confirmed rs)))"

definition adopt_fence :: "roleDoc \<Rightarrow> roleRemoval \<Rightarrow> removalCoordinator \<Rightarrow> removalCoordinator" where
  "adopt_fence conf f rc =
     (if rc_ops rc (rm_key f) \<noteq> None then rc
      else rc\<lparr>rc_ops := (rc_ops rc)(rm_key f \<mapsto> \<lparr>ro_op = rm_OperationID f,
        ro_node = (case find_role conf (rm_ID f) of None \<Rightarrow> '''' | Some (r, _) \<Rightarrow> r_Node r), ro_waiters = []\<rparr>)\<rparr>)"

definition adopt_fences :: "roleDoc \<Rightarrow> removalCoordinator \<Rightarrow> removalCoordinator" where
  "adopt_fences conf rc = fold (adopt_fence conf) (removals conf) rc"

definition fence_is :: "roleDoc \<Rightarrow> instanceKey \<Rightarrow> string \<Rightarrow> bool" where
  "fence_is d k op \<longleftrightarrow> (case fenceOf d (fst k) (snd k) of None \<Rightarrow> False | Some f \<Rightarrow> rm_OperationID f = op)"

definition confirmedFence :: "roleState \<Rightarrow> RoleRecord \<Rightarrow> string \<Rightarrow> bool" where
  "confirmedFence st cur op \<longleftrightarrow>
     (case find_role (rs_confirmed st) (r_ID cur) of
        None \<Rightarrow> False
      | Some (c, _) \<Rightarrow> RegistrationOrder c = RegistrationOrder cur \<and> fence_is (rs_confirmed st) (keyOf c) op)"

definition zero_held :: "int \<Rightarrow> error \<Rightarrow> unit res" where
  "zero_held h err = (if h \<noteq> 0 then Inl err else Inr ())"

definition delete_removal :: "int \<times> int \<times> int \<Rightarrow> mutationEnv \<Rightarrow> roleState \<Rightarrow> instanceKey \<Rightarrow> string \<Rightarrow> roleState \<times> bool" where
  "delete_removal h e s k op =
     (case begin_mutation e s of
        (s1, Inl _) \<Rightarrow> (s1, False)
      | (s1, Inr _) \<Rightarrow>
          let d = rs_visible s1; (h0, h1, h2) = h; g = (\<lambda>x. zero_held x (Cause ''held'')) in
          (case find_role d (fst k) of
             None \<Rightarrow> (s1, True)
           | Some (cur, i) \<Rightarrow>
               if RegistrationOrder cur \<noteq> snd k then (s1, True)
               else if \<not> fence_is d (keyOf cur) op then (s1, False)
               else if h0 \<noteq> 0 then (s1, False)
               else (case commit e s1 (revision d) (r_Node cur) False (withRemoved d i) (g h1, g h2) of
                   (s2, Inl _) \<Rightarrow> (s2, False)
                 | (s2, Inr _) \<Rightarrow> (s2, True))))"

text \<open>
  One operation's turn in a pass that saw the confirmed document \<open>conf\<close>; \<open>sid\<close> gives the fresh stop IDs. The flag says that the
  operation remains. The cancellations of a turn are one step here; each is also an event of the service.
\<close>

definition pass_op :: "instant \<Rightarrow> (string \<Rightarrow> string) \<Rightarrow> int \<times> int \<times> int \<Rightarrow> mutationEnv \<Rightarrow> roleDoc \<Rightarrow> instanceKey
    \<Rightarrow> taskService \<times> removalCoordinator \<Rightarrow> (taskService \<times> removalCoordinator) \<times> bool" where
  "pass_op now sid h e conf k st =
     (let (s, rc) = st in
      case rc_ops rc k of
        None \<Rightarrow> (st, False)
      | Some x \<Rightarrow>
          if \<not> fence_is conf k (ro_op x) then
            (case find_role conf (fst k) of
               None \<Rightarrow> ((s, complete_removal k rc), False)
             | Some (r, _) \<Rightarrow> if RegistrationOrder r \<noteq> snd k then ((s, complete_removal k rc), False) else (st, True))
          else if heldIDs s k \<noteq> [] then ((fold (\<lambda>i. requestCancel now i (sid i)) (heldIDs s k) s, rc), True)
          else let (rs, done) = delete_removal h e (roles s) k (ro_op x)
               in if done then ((s\<lparr>roles := rs\<rparr>, complete_removal k rc), False) else ((s\<lparr>roles := rs\<rparr>, rc), True))"

text \<open>\<open>turn\<close> is \<open>pass_op\<close> with the inputs of each operation, \<open>ks\<close> the operations in the order the map yields them.\<close>

definition pass :: "bool \<Rightarrow> (roleDoc \<Rightarrow> instanceKey \<Rightarrow> taskService \<times> removalCoordinator \<Rightarrow> (taskService \<times> removalCoordinator) \<times> bool)
    \<Rightarrow> (removalCoordinator \<Rightarrow> instanceKey list) \<Rightarrow> taskService \<times> removalCoordinator \<Rightarrow> (taskService \<times> removalCoordinator) \<times> bool" where
  "pass syncOk turn ks st =
     (let (s, rc) = st in
      case pass_sync syncOk s of
        (s1, None) \<Rightarrow> ((s1, rc), True)
      | (s1, Some conf) \<Rightarrow>
          let rc1 = adopt_fences conf rc
          in fold (\<lambda>k (x, pending). let (y, p) = turn conf k x in (y, pending \<or> p)) (ks rc1) ((s1, rc1), False))"

subsection \<open>The request\<close>

datatype forceReply = ForceRemoved | ForcePending string int

definition operationMismatch :: "'a res" where
  "operationMismatch = Inl (Error CodeConflict ''removal_operation_mismatch'')"

text \<open>The request's fence, once it is confirmed: a visible fence that is not is synced under the gate first.\<close>

definition force_confirm :: "mutationEnv \<Rightarrow> roleState \<Rightarrow> string \<Rightarrow> roleState \<times> (roleRemoval option) res" where
  "force_confirm e s i =
     (let unconfirmed = (\<lambda>st cur. case fenceOf (rs_visible st) (r_ID cur) (RegistrationOrder cur) of
            None \<Rightarrow> False | Some f \<Rightarrow> \<not> confirmedFence st cur (rm_OperationID f));
          fence = (\<lambda>st cur. fenceOf (rs_visible st) (r_ID cur) (RegistrationOrder cur))
      in case find_role (rs_visible s) i of
        None \<Rightarrow> (s, notFound)
      | Some (cur, _) \<Rightarrow>
          if \<not> unconfirmed s cur then (s, Inr (fence s cur))
          else (case begin_mutation e s of
              (s1, Inl err) \<Rightarrow> (s1, Inl err)
            | (s1, Inr _) \<Rightarrow>
                (case find_role (rs_visible s1) i of
                   None \<Rightarrow> (s1, notFound)
                 | Some (cur1, _) \<Rightarrow> if unconfirmed s1 cur1 then (s1, Inl (Error CodeUnavailable ''busy'')) else (s1, Inr (fence s1 cur1)))))"

text \<open>A new fence, or the deletion at once when nothing is held; \<open>tok\<close> is the random operation ID.\<close>

definition force_fence :: "int \<times> int \<times> int \<Rightarrow> mutationEnv \<Rightarrow> string res \<Rightarrow> roleState \<Rightarrow> string \<Rightarrow> roleState \<times> forceReply res" where
  "force_fence h e tok s i =
     (case begin_mutation e s of
        (s1, Inl err) \<Rightarrow> (s1, Inl err)
      | (s1, Inr _) \<Rightarrow>
          let d = rs_visible s1; (h0, h1, h2) = h; g = (\<lambda>x. zero_held x (Error CodeConflict ''tasks_inflight'')) in
          (case find_role d i of
             None \<Rightarrow> (s1, notFound)
           | Some (cur, k) \<Rightarrow>
               (case fenceOf d (r_ID cur) (RegistrationOrder cur) of
                  Some f \<Rightarrow> (s1, Inr (ForcePending (rm_OperationID f) (rm_RegistrationOrder f)))
                | None \<Rightarrow>
                    if revision d \<ge> MaxSafeInteger then (s1, counterErr)
                    else if h0 = 0 then
                      (case commit e s1 (revision d) (r_Node cur) False (withRemoved d k) (g h1, g h2) of
                         (s2, Inl err) \<Rightarrow> (s2, Inl err)
                       | (s2, Inr _) \<Rightarrow> (s2, Inr ForceRemoved))
                    else (case tok of
                        Inl _ \<Rightarrow> (s1, Inl (Error CodeInternal ''''))
                      | Inr t \<Rightarrow>
                          (case commit e s1 (revision d) (r_Node cur) False (withFence d k t) (Inr (), Inr ()) of
                             (s2, Inl err) \<Rightarrow> (s2, Inl err)
                           | (s2, Inr _) \<Rightarrow> (s2, Inr (ForcePending t (RegistrationOrder cur))))))))"

definition forceRemove :: "int \<times> int \<times> int \<Rightarrow> mutationEnv \<Rightarrow> mutationEnv \<Rightarrow> string res \<Rightarrow> roleState \<Rightarrow> string \<Rightarrow> string option \<Rightarrow> roleState \<times> forceReply res" where
  "forceRemove h e0 e tok s i op =
     (case force_confirm e0 s i of
        (s1, Inl err) \<Rightarrow> (s1, Inl err)
      | (s1, Inr f) \<Rightarrow>
          if op \<noteq> None \<and> op \<noteq> map_option rm_OperationID f then (s1, operationMismatch)
          else (case f of
              Some x \<Rightarrow> (s1, Inr (ForcePending (rm_OperationID x) (rm_RegistrationOrder x)))
            | None \<Rightarrow> force_fence h e tok s1 i))"

subsection \<open>While a role mutation holds the gate\<close>

text \<open>No admission is under way, none begins, and the tasks an instance holds only get fewer.\<close>

lemma gated_exec:
  assumes inv: "svc_inv s" "ledger_inv s" and g: "gate s" "adm s = None"
  shows "adm3 (exec ev s) = adm3 s" "fst (heldLocked (exec ev s) k) \<le> fst (heldLocked s k)"
proof -
  show "adm3 (exec ev s) = adm3 s"
    using g by (cases "admission_event ev") (auto simp: adm3_exec admission_event_def admit_begin_def admit_attempt_def admit_prepare_def admit_publish_def split: event.splits)
  show "fst (heldLocked (exec ev s) k) \<le> fst (heldLocked s k)"
  proof (cases "\<exists>disk v. ev = EvPublish disk v")
    case True
    then show ?thesis using g(2) by (auto simp: admit_publish_def)
  qed (use held_falls [OF inv] in blast)
qed

lemma gated_run:
  assumes "svc_inv s" "ledger_inv s" and "gate s" "adm s = None"
  shows "svc_inv (run evs s) \<and> ledger_inv (run evs s) \<and> adm3 (run evs s) = adm3 s \<and> fst (heldLocked (run evs s) k) \<le> fst (heldLocked s k)"
  using assms
proof (induction evs arbitrary: s)
  case (Cons ev evs)
  let ?t = "exec ev s"
  have t: "adm3 ?t = adm3 s" "fst (heldLocked ?t k) \<le> fst (heldLocked s k)" using gated_exec [OF Cons.prems] by blast+
  have "gate ?t" "adm ?t = None" using t(1) Cons.prems(3,4) by (simp_all add: adm3_def)
  then have "svc_inv (run evs ?t) \<and> ledger_inv (run evs ?t) \<and> adm3 (run evs ?t) = adm3 ?t \<and> fst (heldLocked (run evs ?t) k) \<le> fst (heldLocked ?t k)"
    using Cons.IH Cons.prems(1,2) exec_inv exec_ledger by blast
  then show ?case using t by (simp add: run_def)
qed (simp add: run_def)

lemma taking_the_gate: "svc_inv (s\<lparr>gate := x\<rparr>) = svc_inv s" "ledger_inv (s\<lparr>gate := x\<rparr>) = ledger_inv s" "heldLocked (s\<lparr>gate := x\<rparr>) = heldLocked s"
proof -
  show "svc_inv (s\<lparr>gate := x\<rparr>) = svc_inv s" by (simp add: svc_inv_def store_ok_def adm_ok_def index_ok_def)
  show h: "heldLocked (s\<lparr>gate := x\<rparr>) = heldLocked s" by (simp add: heldLocked_def fun_eq_iff)
  show "ledger_inv (s\<lparr>gate := x\<rparr>) = ledger_inv s"
    by (simp add: ledger_at_def fresh_def heldL.exact_def recL.exact_def heldL.current_def recL.current_def blk_ok_def h)
qed

lemma none_held: "ledger_inv s \<Longrightarrow> fst (heldLocked s k) \<le> 0 \<Longrightarrow> tasks s i = Some e \<Longrightarrow> te_key e = k \<Longrightarrow> \<not> held e"
  using held_card [of s k] by (auto simp: holders_def)

subsection \<open>The deletion\<close>

lemma removed_roles:
  assumes "Role_Registry.doc_ok encLen lookup enr d" and "find_role d i = Some (cur, k)"
  shows "set (doc_roles (withRemoved d k)) = {r \<in> set (doc_roles d). keyOf r \<noteq> keyOf cur}"
proof -
  have f: "k < length (doc_roles d)" "doc_roles d ! k = cur" using find_role_Some [OF assms(2)] by auto
  have ids: "distinct (map r_ID (doc_roles d))" using assms(1) by (simp add: Role_Registry.doc_ok_def)
  have split: "doc_roles d = take k (doc_roles d) @ cur # drop (Suc k) (doc_roles d)" using sublist_removed [OF f(1)] f(2) by simp
  define xs ys where "xs = take k (doc_roles d)" and "ys = drop (Suc k) (doc_roles d)"
  have e: "doc_roles d = xs @ cur # ys" using split by (simp add: xs_def ys_def)
  have "r_ID cur \<notin> r_ID ` set (xs @ ys)" using ids unfolding e by auto
  then have "r \<in> set (xs @ ys) \<Longrightarrow> keyOf r \<noteq> keyOf cur" for r unfolding keyOf_def by (metis imageI fst_conv)
  moreover have "set (doc_roles (withRemoved d k)) = set (xs @ ys)" by (simp add: withRemoved_def Let_def xs_def ys_def)
  ultimately show ?thesis unfolding e by auto
qed

lemma delete_removal_spec:
  assumes reg: "reg_ok encLen lookup enr s" and del: "delete_removal (h0, h1, h2) e s k op = (s', True)"
  shows "set (doc_roles (rs_visible s')) = {r \<in> set (doc_roles (rs_visible s)). keyOf r \<noteq> k} \<and> rs_confirmed s' = rs_visible s' \<and> \<not> rs_blocked s'
    \<and> (k \<in> doc_keys (rs_visible s) \<longrightarrow> fence_is (rs_visible s) k op \<and> h0 = 0 \<and> h1 = 0 \<and> h2 = 0)"
proof -
  obtain s1 where b: "begin_mutation e s = (s1, Inr ())" using del by (cases "begin_mutation e s") (auto simp: delete_removal_def split: sum.splits)
  have B: "rs_visible s1 = rs_visible s" "\<not> rs_blocked s1" using begin_mutation_spec [OF b] by auto
  have "reg_ok encLen lookup enr s1" using begin_mutation_spec [OF b, of encLen lookup enr] reg_steps_ok reg by blast
  then have v: "rs_confirmed s1 = rs_visible s1" "Role_Registry.doc_ok encLen lookup enr (rs_visible s1)" using B(2) by (simp_all add: reg_ok_def)
  let ?d = "rs_visible s1"
  have absent: "k \<notin> doc_keys ?d \<Longrightarrow> set (doc_roles ?d) = {r \<in> set (doc_roles ?d). keyOf r \<noteq> k}" by (auto simp: doc_keys_def)
  show ?thesis
  proof (cases "\<exists>cur i. find_role ?d (fst k) = Some (cur, i) \<and> RegistrationOrder cur = snd k")
    case False
    have "k \<notin> doc_keys ?d"
    proof
      assume "k \<in> doc_keys ?d"
      then obtain r where r: "r \<in> set (doc_roles ?d)" "keyOf r = k" by (auto simp: doc_keys_def)
      then have "find_role ?d (fst k) \<noteq> None" by (auto simp: find_role_None keyOf_def)
      then obtain cur i where f: "find_role ?d (fst k) = Some (cur, i)" by auto
      then have "cur \<in> set (doc_roles ?d)" "r_ID cur = r_ID r" using find_role_Some [OF f] r by (auto simp: keyOf_def)
      then have "cur = r" using v(2) r(1) by (auto simp: Role_Registry.doc_ok_def distinct_map inj_on_def)
      then show False using False f r(2) by (auto simp: keyOf_def)
    qed
    moreover have "s' = s1" using del b False by (auto simp: delete_removal_def Let_def split: option.splits if_splits)
    ultimately show ?thesis using B v absent by simp
  next
    case True
    then obtain cur i where f: "find_role ?d (fst k) = Some (cur, i)" "RegistrationOrder cur = snd k" by blast
    then have key: "keyOf cur = k" using find_role_Some [OF f(1)] by (auto simp: keyOf_def)
    have "fence_is ?d k op \<and> h0 = 0" and
      c: "commit e s1 (revision ?d) (r_Node cur) False (withRemoved ?d i) (zero_held h1 (Cause ''held''), zero_held h2 (Cause ''held'')) = (s', Inr ())"
      using del b f key by (auto simp: delete_removal_def Let_def split: if_splits sum.splits prod.splits)
    then show ?thesis using commit_result [OF c] removed_roles [OF v(2) f(1)] key B(1) by (auto simp: zero_held_def split: if_splits)
  qed
qed

lemma delete_succeeds:
  assumes "find_role (rs_visible s) (fst k) = Some (cur, i)" and "RegistrationOrder cur = snd k" and "fence_is (rs_visible s) k op" and "\<not> rs_blocked s"
    and "\<not> e_gateBusy e" and "e_live e = (True, True)" and "e_prepare e = Inr ()" and "e_disk e = DiskOk"
  shows "delete_removal (0, 0, 0) e s k op
    = (\<lparr>rs_visible = withRemoved (rs_visible s) i, rs_confirmed = withRemoved (rs_visible s) i, rs_blocked = False, rs_blockedNode = []\<rparr>, True)"
proof -
  have "keyOf cur = k" using find_role_Some [OF assms(1)] assms(2) by (auto simp: keyOf_def)
  then show ?thesis
    using assms by (simp add: delete_removal_def begin_mutation_def resync_def commit_def recheck_def live_def zero_held_def publish_def Let_def)
qed

text \<open>
  C15. A forced removal deletes exactly its instance, and only when it is idle: when the coordinator's deletion succeeds, with the
  instance's held tasks read by \<open>heldLocked\<close> at the first check and at the two rechecks, in any interleaving with the other operations of the plane,
  the visible and the confirmed registry are the same document, which has every other role and not this instance; if the instance was
  still there it was fenced by this very operation, and when the document is published no task of the
  instance holds a reservation, nor is any admission under way.
\<close>

theorem forced_removal_exact:
  assumes "reachable s" and "\<not> gate s" and "reg_ok encLen lookup enr (roles s)"
    and s0: "s0 = s\<lparr>gate := True\<rparr>" and s1: "s1 = run earlier_evs s0" and s2: "s2 = run later_evs s1" and s3: "s3 = run last_evs s2"
    and del: "delete_removal (fst (heldLocked s0 k), fst (heldLocked s1 k), fst (heldLocked s2 k)) e (roles s) k op = (rs', True)"
  shows "set (doc_roles (rs_visible rs')) = {r \<in> set (doc_roles (rs_visible (roles s))). keyOf r \<noteq> k} \<and> rs_confirmed rs' = rs_visible rs'
    \<and> (k \<in> keyOf ` set (doc_roles (rs_visible (roles s))) \<longrightarrow> fence_is (rs_visible (roles s)) k op
        \<and> (\<forall>i t. tasks s3 i = Some t \<and> te_key t = k \<longrightarrow> \<not> held t) \<and> adm s3 = None)"
proof -
  have inv: "svc_inv s0" "ledger_inv s0" using reachable_inv [OF assms(1)] by (simp_all add: s0 taking_the_gate)
  have g0: "gate s0" "adm s0 = None" using reachable_cap [OF assms(1)] assms(2) by (cases "adm s"; simp add: s0 cap_inv_def)+
  have e: "run (earlier_evs @ later_evs) s0 = s2" "run last_evs s2 = s3" by (simp_all add: s1 s2 s3 run_def)
  note r2 = gated_run [OF inv g0, of "earlier_evs @ later_evs", unfolded e]
  have g2: "gate s2" "adm s2 = None" using r2 g0 by (simp_all add: adm3_def)
  note r3 = gated_run [OF conjunct1 [OF r2] conjunct1 [OF conjunct2 [OF r2]] g2, of last_evs, unfolded e]
  note D = delete_removal_spec [OF assms(3) del]
  have "\<not> held t" if "fst (heldLocked s2 k) = 0" "tasks s3 i = Some t" "te_key t = k" for i t
    using r3 [of k] that none_held [of s3 k i t] by simp
  moreover have "adm s3 = None" using r3 g2 by (simp add: adm3_def)
  ultimately show ?thesis using D unfolding doc_keys_def by blast
qed

lemma adopted:
  assumes "distinct (map rm_key fs)" and "f \<in> set fs"
  shows "\<exists>x. rc_ops (fold (adopt_fence conf) fs rc) (rm_key f) = Some x \<and> (rc_ops rc (rm_key f) = None \<and> ro_op x = rm_OperationID f \<or> rc_ops rc (rm_key f) = Some x)"
  using assms
proof (induction fs arbitrary: rc)
  case (Cons g fs)
  have keep: "rc_ops (fold (adopt_fence conf) gs r) k = rc_ops r k" if "k \<notin> rm_key ` set gs" for gs r k
    using that by (induction gs arbitrary: r) (auto simp: adopt_fence_def)
  show ?case
  proof (cases "f = g")
    case True
    then have "rm_key f \<notin> rm_key ` set fs" using Cons.prems(1) by simp
    then show ?thesis using True by (simp add: keep) (cases "rc_ops rc (rm_key g)"; simp add: adopt_fence_def)
  next
    case False
    then have "f \<in> set fs" using Cons.prems(2) by simp
    moreover have "rm_key g \<notin> rm_key ` set fs" using Cons.prems(1) by simp
    ultimately have f: "f \<in> set fs" "rm_key f \<noteq> rm_key g" by (simp, metis imageI)
    have "rc_ops (adopt_fence conf g rc) (rm_key f) = rc_ops rc (rm_key f)" using f(2) by (simp add: adopt_fence_def)
    then show ?thesis using Cons.IH [of "adopt_fence conf g rc"] Cons.prems(1) f(1) by simp
  qed
qed simp

text \<open>
  C16. A removal ends: once the fence of an operation is confirmed and its instance holds no task, the operation's next turn, with the gate free and a
  working disk, deletes the role durably, wakes every request that waits for it, closing its channel, and drops the operation. The pass adopts a
  durable fence first, so this holds also after a restart, when the coordinator knows no operation.
\<close>

theorem removal_completes:
  assumes reg: "reg_ok encLen lookup enr (roles s)" and "\<not> rs_blocked (roles s)" and conf: "conf = rs_confirmed (roles s)"
    and fence: "f \<in> set (removals conf)" and joined: "\<forall>y. rc_ops rc (rm_key f) = Some y \<longrightarrow> ro_op y = rm_OperationID f"
    and "heldIDs s (rm_key f) = []"
    and env: "\<not> e_gateBusy e" "e_live e = (True, True)" "e_prepare e = Inr ()" "e_disk e = DiskOk"
  shows "\<exists>s' rc'. pass_op now sid (0, 0, 0) e conf (rm_key f) (s, adopt_fences conf rc) = ((s', rc'), False) \<and> rm_key f \<notin> doc_keys (rs_confirmed (roles s'))
    \<and> rc_ops rc' (rm_key f) = None \<and> (\<forall>y. rc_ops rc (rm_key f) = Some y \<longrightarrow> set (ro_waiters y) \<subseteq> rc_closedChans rc')"
proof -
  let ?k = "rm_key f"
  have v: "rs_visible (roles s) = conf" and ok: "Role_Registry.doc_ok encLen lookup enr conf" using reg assms(2) conf by (simp_all add: reg_ok_def)
  have uniq: "distinct (map rm_key (removals conf))" using ok by (simp add: Role_Registry.doc_ok_def)
  obtain x where x: "rc_ops (adopt_fences conf rc) ?k = Some x" "rc_ops rc ?k = None \<and> ro_op x = rm_OperationID f \<or> rc_ops rc ?k = Some x"
    using adopted [OF uniq fence, of conf rc] unfolding adopt_fences_def by blast
  then have xo: "ro_op x = rm_OperationID f" using joined by blast
  have "fenceOf conf (fst ?k) (snd ?k) \<noteq> None" unfolding fenceOf_def find_not_None using fence by (auto simp: rm_key_def)
  then obtain f' where f': "fenceOf conf (fst ?k) (snd ?k) = Some f'" by auto
  then have "f' = f" using fenceOf_Some [OF f'] fence uniq by (auto simp: distinct_map inj_on_def)
  then have fe: "fence_is conf ?k (ro_op x)" using f' xo by (simp add: fence_is_def)
  have "?k \<in> keyOf ` set (doc_roles conf)" using ok fence by (simp add: Role_Registry.doc_ok_def)
  then obtain r where r: "r \<in> set (doc_roles conf)" "keyOf r = ?k" by auto
  have rk: "fst ?k = r_ID r" "snd ?k = RegistrationOrder r" using r(2) [symmetric] by (simp_all add: keyOf_def)
  have "find_role conf (fst ?k) \<noteq> None" using r(1) rk by (simp add: find_role_None)
  then obtain cur i where c: "find_role conf (fst ?k) = Some (cur, i)" by auto
  have "cur \<in> set (doc_roles conf)" "r_ID cur = r_ID r" using find_role_Some [OF c] rk by auto
  then have "cur = r" using r(1) ok by (simp add: Role_Registry.doc_ok_def distinct_map inj_on_def)
  then have key: "keyOf cur = ?k" "RegistrationOrder cur = snd ?k" using r(2) rk by auto
  have d: "delete_removal (0, 0, 0) e (roles s) ?k (ro_op x)
      = (\<lparr>rs_visible = withRemoved conf i, rs_confirmed = withRemoved conf i, rs_blocked = False, rs_blockedNode = []\<rparr>, True)"
    using delete_succeeds [of "roles s" ?k cur i "ro_op x" e, OF _ key(2) _ assms(2) env] c fe unfolding v by blast
  have "?k \<notin> doc_keys (withRemoved conf i)" unfolding doc_keys_def removed_roles [OF ok c] key(1) by (metis (mono_tags, lifting) imageE mem_Collect_eq)
  then show ?thesis using x fe assms(6) d by (auto simp: pass_op_def complete_removal_def)
qed

text \<open>
  C29. A deletion at the end of the revision range publishes a registry the plane cannot load: the coordinator, unlike every other
  mutation, does not check the counter, so a fence written at the last revision but one is followed by a document whose
  revision is out of range, and the next start refuses the registry.
\<close>

theorem removal_counter_unreadable:
  assumes "find_role (rs_visible s) (fst k) = Some (cur, i)" and "RegistrationOrder cur = snd k" and "fence_is (rs_visible s) k op"
    and "revision (rs_visible s) = MaxSafeInteger" and "\<not> rs_blocked s"
    and "\<not> e_gateBusy e" and "e_live e = (True, True)" and "e_prepare e = Inr ()" and "e_disk e = DiskOk"
  shows "\<exists>s'. delete_removal (0, 0, 0) e s k op = (s', True) \<and> revision (rs_visible s') = MaxSafeInteger + 1 \<and> rs_confirmed s' = rs_visible s'
    \<and> loadRoleDoc encLen lookup enr False (Some (encodeRoleDoc (rs_visible s'))) = Inl (Error CodeConflict [])"
proof -
  note delete_succeeds [OF assms(1-3,5-9)]
  moreover have "revision (withRemoved (rs_visible s) i) = MaxSafeInteger + 1" using assms(4) by (simp add: withRemoved_def Let_def)
  moreover have "1 \<le> MaxSafeInteger" by (simp add: MaxSafeInteger_def)
  ultimately show ?thesis by (simp add: loadRoleDoc_def parseRoleDoc_def encodeRoleDoc_def)
qed

subsection \<open>Concrete removals\<close>

definition demo_fenced :: "int \<Rightarrow> roleState" where
  "demo_fenced rv = newRoleRegistry \<lparr>exists_doc = True, revision = rv, nextOrder = 2, doc_roles = [demo_role],
     removals = [\<lparr>rm_ID = ''dev'', rm_RegistrationOrder = 1, rm_OperationID = demo_token\<rparr>]\<rparr>"

definition demo_mutation :: mutationEnv where
  "demo_mutation = \<lparr>e_gateBusy = False, e_syncOk = True, e_known = (\<lambda>_. True), e_validate = Inr (), e_live = (True, True), e_target = (Inr (), Inr ()),
     e_prepare = Inr (), e_disk = DiskOk\<rparr>"

lemma demo_fenced_ok: "reg_ok (le_roleLen demo_env) (le_lookup demo_env) (\<lambda>_. True) (demo_fenced 2)"
proof -
  have "ValidSlug ''dev''" "ValidOperationID demo_token" by code_simp+
  then show ?thesis using demo_role_ok
    by (simp add: reg_ok_def demo_fenced_def newRoleRegistry_def Role_Registry.doc_ok_def MaxSafeInteger_def MaxRoles_def parseRemoval_def rm_key_def keyOf_def)
      (simp add: demo_role_def)
qed

theorem forced_removal_exact_witness:
  "\<exists>rs'. delete_removal (0, 0, 0) demo_mutation (demo_fenced 2) (''dev'', 1) demo_token = (rs', True) \<and> doc_roles (rs_visible rs') = [] \<and> rs_confirmed rs' = rs_visible rs'"
proof -
  define s where "s = exec (EvRoles (demo_fenced 2)) cap_start"
  have g: "\<not> gate s" "roles s = demo_fenced 2" "counts s = (\<lambda>_. None)" by (simp_all add: s_def cap_start_eq(2) emptyService_def)
  have "reachable cap_start" by (rule reachable.start [OF cap_start_eq(1)]) (simp_all add: readTaskFile_def)
  then have R: "reachable s" unfolding s_def by (rule reachable.step)
  have k: "keyOf demo_role = (''dev'', 1)" by (simp add: keyOf_def demo_role_def)
  have "find_role (rs_visible (demo_fenced 2)) ''dev'' = Some (demo_role, 0)" "RegistrationOrder demo_role = 1"
    by (simp_all add: find_role_def demo_fenced_def newRoleRegistry_def demo_role_def)
  moreover have "fence_is (rs_visible (demo_fenced 2)) (''dev'', 1) demo_token" by (simp add: fence_is_def fenceOf_def demo_fenced_def newRoleRegistry_def)
  moreover have "\<not> rs_blocked (demo_fenced 2)" by (simp add: demo_fenced_def newRoleRegistry_def)
  ultimately obtain rs' where d: "delete_removal (0, 0, 0) demo_mutation (demo_fenced 2) (''dev'', 1) demo_token = (rs', True)"
    using k by (simp add: delete_removal_def begin_mutation_def resync_def commit_def recheck_def live_def zero_held_def publish_def demo_mutation_def Let_def)
  have h: "fst (heldLocked (s\<lparr>gate := True\<rparr>) (''dev'', 1)) = 0" using g(3) by (simp add: heldLocked_def)
  have e: "run [] t = t" for t by (simp add: run_def)
  have "set (doc_roles (rs_visible rs')) = {r \<in> set (doc_roles (rs_visible (roles s))). keyOf r \<noteq> (''dev'', 1)} \<and> rs_confirmed rs' = rs_visible rs'"
    using forced_removal_exact [where earlier_evs = "[]" and later_evs = "[]" and last_evs = "[]" and k = "(''dev'', 1)" and e = demo_mutation and op = demo_token and rs' = rs'
        and encLen = "le_roleLen demo_env" and lookup = "le_lookup demo_env" and enr = "\<lambda>_. True", OF R g(1) _ refl refl refl refl]
      demo_fenced_ok d h g(2) by (simp add: e)
  moreover have "{r \<in> set (doc_roles (rs_visible (roles s))). keyOf r \<noteq> (''dev'', 1)} = {}" unfolding g(2) by (simp add: demo_fenced_def newRoleRegistry_def k)
  ultimately show ?thesis using d by auto
qed

theorem removal_completes_witness:
  "\<exists>s' rc'. pass_op 1 (\<lambda>i. i) (0, 0, 0) demo_mutation (rs_confirmed (demo_fenced 2)) (''dev'', 1) (cap_start\<lparr>roles := demo_fenced 2\<rparr>, adopt_fences (rs_confirmed (demo_fenced 2)) newRemovalCoordinator)
     = ((s', rc'), False) \<and> (''dev'', 1) \<notin> doc_keys (rs_confirmed (roles s'))"
proof -
  let ?f = "\<lparr>rm_ID = ''dev'', rm_RegistrationOrder = 1, rm_OperationID = demo_token\<rparr>" and ?c = "rs_confirmed (demo_fenced 2)"
  have k: "rm_key ?f = (''dev'', 1)" by (simp add: rm_key_def)
  have "roles (cap_start\<lparr>roles := demo_fenced 2\<rparr>) = demo_fenced 2" "?f \<in> set (removals ?c)" "\<not> rs_blocked (demo_fenced 2)"
    by (simp_all add: demo_fenced_def newRoleRegistry_def)
  moreover have "heldIDs (cap_start\<lparr>roles := demo_fenced 2\<rparr>) (rm_key ?f) = []" by (simp add: heldIDs_def cap_start_eq(2) emptyService_def)
  ultimately show ?thesis
    using removal_completes [where s = "cap_start\<lparr>roles := demo_fenced 2\<rparr>" and f = ?f and e = demo_mutation and now = 1 and sid = "\<lambda>i. i" and rc = newRemovalCoordinator, OF _ _ refl] demo_fenced_ok
    unfolding k by (fastforce simp: demo_mutation_def newRemovalCoordinator_def)
qed

theorem removal_counter_unreadable_witness:
  "\<exists>s'. delete_removal (0, 0, 0) demo_mutation (demo_fenced MaxSafeInteger) (''dev'', 1) demo_token = (s', True)
     \<and> loadRoleDoc (le_roleLen demo_env) (le_lookup demo_env) (\<lambda>_. True) False (Some (encodeRoleDoc (rs_visible s'))) = Inl (Error CodeConflict [])"
proof -
  let ?s = "demo_fenced MaxSafeInteger"
  have f: "find_role (rs_visible ?s) (fst (''dev'', 1)) = Some (demo_role, 0)" "RegistrationOrder demo_role = snd (''dev'', 1)"
    by (simp_all add: find_role_def demo_fenced_def newRoleRegistry_def demo_role_def)
  have "fence_is (rs_visible ?s) (''dev'', 1) demo_token" by (simp add: fence_is_def fenceOf_def demo_fenced_def newRoleRegistry_def)
  then show ?thesis
    using removal_counter_unreadable [OF f, of demo_token demo_mutation "le_roleLen demo_env" "le_lookup demo_env" "\<lambda>_. True"]
    by (auto simp: demo_mutation_def demo_fenced_def newRoleRegistry_def)
qed

end
