(* ===== verification/Worker_Output.thy ===== *)
theory Worker_Output
  imports Plane_Log
begin

section \<open>The worker's unsent output\<close>

text \<open>
  \<open>outputRing\<close> of \<open>internal/sidecar/task_output.go\<close>: the ring in which the worker keeps a task's output until
  the plane acknowledged it, at most \<open>max\<close> bytes of it, the oldest evicted first, with one immutable chunk in
  flight. A recovered execution's ring holds the metadata of its journal's tail until \<open>load\<close> reads the bytes
  back. \<open>held_bytes\<close> is the abstraction to the list of retained bytes.
\<close>

record outChunk =
  oc_offset :: int
  oc_data :: bytes

record outputRing =
  or_max :: nat
  or_buf :: bytes
  or_head :: nat
  or_n :: nat
  or_base :: int
  or_end :: int
  or_acked :: int
  or_inflight :: "outChunk option"
  or_overflow :: bool
  or_incomplete :: bool
  or_limit :: int
  or_resend :: bool
  or_unloaded :: nat
  or_replay :: bool

definition newOutputRing :: "nat \<Rightarrow> outputRing" where
  "newOutputRing m = \<lparr>or_max = m, or_buf = [], or_head = 0, or_n = 0, or_base = 0, or_end = 0, or_acked = 0, or_inflight = None,
     or_overflow = False, or_incomplete = False, or_limit = MaxSafeInteger, or_resend = False, or_unloaded = 0, or_replay = False\<rparr>"

definition newOutputRingMeta :: "nat \<Rightarrow> TaskLog \<Rightarrow> outputRing" where
  "newOutputRingMeta m lg =
     (let b = SourceBytes lg - int (length (Data lg)) in
      (newOutputRing m)\<lparr>or_incomplete := Incomplete lg, or_overflow := CounterOverflow lg, or_replay := True, or_base := b,
        or_end := SourceBytes lg, or_acked := b, or_unloaded := length (Data lg)\<rparr>)"

definition needsLoad :: "outputRing \<Rightarrow> bool" where
  "needsLoad r \<longleftrightarrow> or_unloaded r > 0"

definition holding :: "outputRing \<Rightarrow> bool" where
  "holding r \<longleftrightarrow> or_n r > 0 \<or> or_inflight r \<noteq> None"

definition evict :: "nat \<Rightarrow> outputRing \<Rightarrow> outputRing" where
  "evict k0 r =
     (let k = min k0 (or_n r) in
      if k = 0 then r
      else r\<lparr>or_head := (or_head r + k) mod length (or_buf r), or_n := or_n r - k, or_base := or_base r + int k\<rparr>)"

definition copyOut_from :: "outputRing \<Rightarrow> bytes \<Rightarrow> nat \<Rightarrow> nat \<Rightarrow> bytes" where
  "copyOut_from r dst m k =
     (if length (or_buf r) = 0 then dst
      else let start = (or_head r + m) mod length (or_buf r);
               src = take (min (length (or_buf r)) (start + k) - start) (drop start (or_buf r));
               c = min k (length src)
           in copy_at (copy_at dst 0 (take k src)) c (take (k - c) (or_buf r)))"

definition grow :: "nat \<Rightarrow> outputRing \<Rightarrow> outputRing" where
  "grow need r =
     (if need \<le> length (or_buf r) then r
      else let sz = min (max (max (length (or_buf r) * 2) 65536) need) (or_max r)
           in r\<lparr>or_buf := copyOut_from r (make_bytes sz) 0 (or_n r), or_head := 0\<rparr>)"

definition load :: "bytes \<Rightarrow> outputRing \<Rightarrow> outputRing" where
  "load data r =
     (if or_unloaded r = 0 then r
      else if length data \<noteq> or_unloaded r \<or> length data > or_max r
      then r\<lparr>or_unloaded := 0, or_incomplete := True, or_base := or_end r, or_acked := max (or_acked r) (or_end r)\<rparr>
      else let r1 = grow (length data) (r\<lparr>or_unloaded := 0\<rparr>)
           in r1\<lparr>or_buf := copy_at (or_buf r1) 0 data, or_head := 0, or_n := length data\<rparr>)"

definition journalLog :: "outputRing \<Rightarrow> TaskLog" where
  "journalLog r = \<lparr>Data = copyOut_from r (make_bytes (or_n r)) 0 (or_n r), SourceBytes = or_end r, ReceivedBytes = or_end r,
     Incomplete = or_incomplete r, CounterOverflow = or_overflow r\<rparr>"

definition unbind :: "outputRing \<Rightarrow> outputRing" where
  "unbind r = r\<lparr>or_resend := (or_inflight r \<noteq> None)\<rparr>"

text \<open>
  \<open>write\<close> in its stages: what still fits the offset counter, the cut of a piece larger than the ring, the
  eviction, and the insertion after the tail.
\<close>

definition write_fit :: "bytes \<Rightarrow> outputRing \<Rightarrow> outputRing \<times> bytes" where
  "write_fit p r =
     (if int (length p) > or_limit r - or_end r
      then (r\<lparr>or_overflow := True, or_incomplete := True\<rparr>, take (nat (or_limit r - or_end r)) p) else (r, p))"

definition write_cut :: "bytes \<Rightarrow> outputRing \<Rightarrow> outputRing \<times> bytes" where
  "write_cut p r =
     (if length p > or_max r
      then let d = length p - or_max r; r1 = evict (or_n r) r in (r1\<lparr>or_base := or_base r1 + int d\<rparr>, drop d p)
      else (r, p))"

definition write_insert :: "bytes \<Rightarrow> outputRing \<Rightarrow> outputRing" where
  "write_insert p r =
     (if p = [] then r
      else let r1 = grow (or_n r + length p) r;
               t = (or_head r1 + or_n r1) mod length (or_buf r1);
               k = min (length (or_buf r1) - t) (length p)
           in r1\<lparr>or_buf := copy_at (copy_at (or_buf r1) t p) 0 (drop k p), or_n := or_n r1 + length p\<rparr>)"

definition write_ring :: "bytes \<Rightarrow> outputRing \<Rightarrow> outputRing" where
  "write_ring p0 r0 =
     (if or_overflow r0 then r0
      else let (r1, p1) = write_fit p0 r0;
               r2 = r1\<lparr>or_end := or_end r1 + int (length p1)\<rparr>;
               (r3, p) = write_cut p1 r2;
               over = or_n r3 + length p - or_max r3;
               r4 = (if over > 0 then evict over r3 else r3)
           in write_insert p r4)"

definition next_chunk :: "outputRing \<Rightarrow> outputRing \<times> outChunk option" where
  "next_chunk r =
     (if or_inflight r \<noteq> None \<and> or_resend r then (r\<lparr>or_resend := False\<rparr>, or_inflight r)
      else if or_inflight r \<noteq> None \<or> or_n r = 0 then (r, None)
      else let k = min (or_n r) MaxLogChunkBytes;
               c = \<lparr>oc_offset = or_base r, oc_data = copyOut_from r (make_bytes k) 0 k\<rparr>
           in (r\<lparr>or_inflight := Some c\<rparr>, Some c))"

definition ack_chunk :: "int \<Rightarrow> outputRing \<Rightarrow> outputRing" where
  "ack_chunk fin r0 =
     (let r1 = r0\<lparr>or_inflight := None, or_resend := False\<rparr>;
          r2 = (if fin > or_acked r1 then r1\<lparr>or_acked := fin\<rparr> else r1);
          d = or_acked r2 - or_base r2;
          r3 = (if d > 0
                then let e = evict (nat d) r2 in (if or_base e < or_acked e then e\<lparr>or_base := or_acked e\<rparr> else e)
                else r2)
      in if or_replay r3 \<and> or_n r3 = 0 then r3\<lparr>or_buf := [], or_head := 0\<rparr> else r3)"

definition drained :: "outputRing \<Rightarrow> bool" where
  "drained r \<longleftrightarrow> or_n r = 0 \<and> or_inflight r = None \<and> or_unloaded r = 0"

definition pending_out :: "outputRing \<Rightarrow> bool" where
  "pending_out r \<longleftrightarrow> (or_inflight r = None \<and> or_n r > 0) \<or> (or_inflight r \<noteq> None \<and> or_resend r)"

definition totals :: "outputRing \<Rightarrow> int \<times> bool \<times> bool" where
  "totals r = (or_end r, or_incomplete r, or_overflow r)"

definition markIncomplete :: "outputRing \<Rightarrow> outputRing" where
  "markIncomplete r = r\<lparr>or_incomplete := True\<rparr>"

subsection \<open>The ring as a list of bytes\<close>

definition held_bytes :: "outputRing \<Rightarrow> bytes" where
  "held_bytes r = ring_list (or_buf r) (or_head r) (or_n r)"

definition out_ok :: "outputRing \<Rightarrow> bool" where
  "out_ok r \<longleftrightarrow> or_n r \<le> length (or_buf r) \<and> length (or_buf r) \<le> or_max r
     \<and> (or_buf r \<noteq> [] \<longrightarrow> or_head r < length (or_buf r)) \<and> (or_buf r = [] \<longrightarrow> or_head r = 0)"

lemma length_held: "out_ok r \<Longrightarrow> length (held_bytes r) = or_n r"
  by (simp add: held_bytes_def out_ok_def)

lemma out_ok_head: "out_ok r \<Longrightarrow> 0 < or_n r \<or> or_buf r \<noteq> [] \<Longrightarrow> or_head r < length (or_buf r) \<and> or_n r \<le> length (or_buf r)"
  by (auto simp: out_ok_def)

lemma copyOut_held:
  assumes ok: "out_ok r" and k: "m + k \<le> or_n r" "k \<le> length dst"
  shows "copyOut_from r dst m k = take k (drop m (held_bytes r)) @ drop k dst"
proof (cases "or_buf r = []")
  case True
  then show ?thesis using ok k by (auto simp: copyOut_from_def out_ok_def)
next
  case False
  then have h: "or_head r < length (or_buf r)" "or_n r \<le> length (or_buf r)" using out_ok_head [OF ok] by auto
  then have "copyOut_from r dst m k = ring_out (or_buf r) ((or_head r + m) mod length (or_buf r)) dst k"
    by (auto simp: copyOut_from_def ring_out_def Let_def)
  then show ?thesis using ring_out_list [OF h k] by (simp add: held_bytes_def)
qed

lemma journal_data: "out_ok r \<Longrightarrow> Data (journalLog r) = held_bytes r"
  by (simp add: journalLog_def copyOut_held length_held)

text \<open>Everything but the storage, which \<open>grow\<close> alone replaces.\<close>

definition counts_of :: "outputRing \<Rightarrow> _" where
  "counts_of r = (or_max r, or_end r, or_acked r, or_inflight r, or_overflow r, or_incomplete r, or_limit r, or_resend r, or_unloaded r, or_replay r)"

lemma evict_held:
  assumes ok: "out_ok r"
  shows "held_bytes (evict k r) = drop k (held_bytes r) \<and> out_ok (evict k r) \<and> or_n (evict k r) = or_n r - k
    \<and> or_base (evict k r) = or_base r + int (min k (or_n r)) \<and> counts_of (evict k r) = counts_of r"
proof (cases "min k (or_n r) = 0")
  case True
  then have "k = 0 \<or> or_n r = 0" by linarith
  then show ?thesis using ok length_held [OF ok] by (auto simp: evict_def)
next
  case False
  let ?k = "min k (or_n r)"
  have h: "or_head r < length (or_buf r)" "or_n r \<le> length (or_buf r)" using out_ok_head [OF ok] False by auto
  have m: "(or_head r + ?k) mod length (or_buf r) < length (or_buf r)" using h(1) by (intro mod_less_divisor) linarith
  have e: "evict k r = r\<lparr>or_head := (or_head r + ?k) mod length (or_buf r), or_n := or_n r - ?k, or_base := or_base r + int ?k\<rparr>"
    unfolding evict_def Let_def if_not_P [OF False] ..
  have "held_bytes (evict k r) = drop ?k (held_bytes r)" using ring_drop [OF h, of ?k] by (simp add: e held_bytes_def)
  moreover have "drop ?k (held_bytes r) = drop k (held_bytes r)" using length_held [OF ok] by (simp add: min_def)
  ultimately show ?thesis using ok m by (auto simp: e out_ok_def counts_of_def)
qed

lemma grow_held:
  assumes ok: "out_ok r" and need: "or_n r \<le> need" "need \<le> or_max r"
  shows "held_bytes (grow need r) = held_bytes r \<and> out_ok (grow need r) \<and> or_n (grow need r) = or_n r \<and> or_base (grow need r) = or_base r
    \<and> need \<le> length (or_buf (grow need r)) \<and> counts_of (grow need r) = counts_of r"
proof (cases "need \<le> length (or_buf r)")
  case True
  then show ?thesis using ok by (simp add: grow_def)
next
  case False
  define sz where "sz = min (max (max (length (or_buf r) * 2) 65536) need) (or_max r)"
  have sz: "need \<le> sz" "sz \<le> or_max r" "0 < sz" using need False by (auto simp: sz_def)
  have e: "grow need r = r\<lparr>or_buf := held_bytes r @ drop (or_n r) (make_bytes sz), or_head := 0\<rparr>"
    using False copyOut_held [OF ok, of 0 "or_n r" "make_bytes sz"] sz need length_held [OF ok]
    by (simp add: grow_def Let_def sz_def [symmetric])
  have len: "length (held_bytes r @ drop (or_n r) (make_bytes sz)) = sz" using length_held [OF ok] sz need by simp
  show ?thesis unfolding e using ok sz need len length_held [OF ok]
    by (auto simp: out_ok_def held_bytes_def [of "r\<lparr>or_buf := _, or_head := _\<rparr>"] ring_list_start counts_of_def)
qed

lemma insert_held:
  assumes ok: "out_ok r" and fit: "or_n r + length p \<le> or_max r"
  shows "held_bytes (write_insert p r) = held_bytes r @ p \<and> out_ok (write_insert p r) \<and> or_base (write_insert p r) = or_base r
    \<and> or_n (write_insert p r) = or_n r + length p \<and> counts_of (write_insert p r) = counts_of r"
proof (cases "p = []")
  case False
  define g where "g = grow (or_n r + length p) r"
  have g: "held_bytes g = held_bytes r" "out_ok g" "or_n g = or_n r" "or_base g = or_base r" "or_n r + length p \<le> length (or_buf g)"
    "counts_of g = counts_of r" using grow_held [OF ok _ fit] by (auto simp: g_def)
  then have ne: "or_buf g \<noteq> []" using False by auto
  have h: "or_head g < length (or_buf g)" using out_ok_head [OF g(2)] ne by blast
  then have t: "(or_head g + or_n g) mod length (or_buf g) \<le> length (or_buf g)" by (intro mod_le_divisor) linarith
  have e: "write_insert p r = g\<lparr>or_buf := ring_in (or_buf g) ((or_head g + or_n g) mod length (or_buf g)) p, or_n := or_n g + length p\<rparr>"
    using False by (simp add: write_insert_def g_def ring_in_def Let_def)
  show ?thesis unfolding e using ring_in_list [OF h, of "or_n g" p] g t ring_in_Nil [OF t, of p] ne
    by (auto simp: held_bytes_def out_ok_def counts_of_def)
qed (use ok in \<open>simp add: write_insert_def\<close>)


text \<open>The bytes of a write that the offset counter still has room for.\<close>

definition fitting :: "bytes \<Rightarrow> outputRing \<Rightarrow> bytes" where
  "fitting p r = (if or_overflow r then [] else take (nat (or_limit r - or_end r)) p)"

definition frame_of :: "outputRing \<Rightarrow> _" where
  "frame_of r = (or_max r, or_acked r, or_inflight r, or_limit r, or_resend r, or_unloaded r, or_replay r)"

lemma write_fit_fitting:
  "\<not> or_overflow r \<Longrightarrow> or_end r \<le> or_limit r \<Longrightarrow> snd (write_fit p r) = fitting p r
     \<and> fst (write_fit p r) = (if int (length p) > or_limit r - or_end r then r\<lparr>or_overflow := True, or_incomplete := True\<rparr> else r)"
  by (auto simp: write_fit_def fitting_def)

lemma lastn_drop: "lastn k xs = drop (length xs - k) xs"
  by (simp add: lastn_def)

lemma write_cut_held:
  assumes ok: "out_ok r" and c: "write_cut p r = (r', d)"
  shows "out_ok r' \<and> length d \<le> or_max r \<and> lastn (or_max r) (held_bytes r' @ d) = lastn (or_max r) (held_bytes r @ p)
    \<and> or_base r' + int (or_n r') + int (length d) = or_base r + int (or_n r) + int (length p) \<and> counts_of r' = counts_of r"
proof (cases "length p > or_max r")
  case True
  define e where "e = evict (or_n r) r"
  have e: "held_bytes e = []" "out_ok e" "or_n e = 0" "or_base e = or_base r + int (or_n r)" "counts_of e = counts_of r"
    using evict_held [OF ok, of "or_n r"] length_held [OF ok] by (auto simp: e_def)
  have r': "r' = e\<lparr>or_base := or_base e + int (length p - or_max r)\<rparr>" "d = drop (length p - or_max r) p"
    using c True by (auto simp: write_cut_def e_def Let_def)
  have "held_bytes r' = []" "out_ok r'" "counts_of r' = counts_of r" using e by (simp_all add: r'(1) held_bytes_def out_ok_def counts_of_def)
  moreover have "lastn (or_max r) d = lastn (or_max r) (held_bytes r @ p)" using True by (simp add: r'(2) lastn_append lastn_drop)
  ultimately show ?thesis using True e by (simp add: r')
next
  case False
  then show ?thesis using c ok by (auto simp: write_cut_def)
qed

lemma write_held:
  assumes ok: "out_ok r" and lim: "or_end r \<le> or_limit r"
  shows "held_bytes (write_ring p r) = lastn (or_max r) (held_bytes r @ fitting p r) \<and> out_ok (write_ring p r)
    \<and> or_end (write_ring p r) = or_end r + int (length (fitting p r)) \<and> or_end (write_ring p r) \<le> or_limit r
    \<and> or_base (write_ring p r) + int (or_n (write_ring p r)) = or_base r + int (or_n r) + int (length (fitting p r))
    \<and> frame_of (write_ring p r) = frame_of r"
proof (cases "or_overflow r")
  case True
  have "length (held_bytes r) \<le> or_max r" using ok length_held [OF ok] by (simp add: out_ok_def)
  then show ?thesis using True ok lim by (simp add: write_ring_def fitting_def)
next
  case False
  define r1 where "r1 = fst (write_fit p r)"
  define q where "q = fitting p r"
  have wf: "write_fit p r = (r1, q)" using write_fit_fitting [OF False lim, of p] by (simp add: r1_def q_def prod_eq_iff)
  define r2 where "r2 = r1\<lparr>or_end := or_end r1 + int (length q)\<rparr>"
  have r2: "out_ok r2" "held_bytes r2 = held_bytes r" "or_base r2 = or_base r" "or_n r2 = or_n r" "or_max r2 = or_max r"
    "or_end r2 = or_end r + int (length q)" "frame_of r2 = frame_of r"
    using ok write_fit_fitting [OF False lim, of p] by (auto simp: r2_def r1_def out_ok_def held_bytes_def frame_of_def)
  have q: "int (length q) \<le> or_limit r - or_end r" using lim False by (auto simp: q_def fitting_def)
  obtain r3 d where c: "write_cut q r2 = (r3, d)" by fastforce
  note C = write_cut_held [OF r2(1) c]
  define o' where "o' = or_n r3 + length d - or_max r3"
  define r4 where "r4 = (if o' > 0 then evict o' r3 else r3)"
  have m3: "or_max r3 = or_max r" using C r2(5) by (simp add: counts_of_def)
  have r4: "out_ok r4" "held_bytes r4 = drop o' (held_bytes r3)" "or_n r4 = or_n r3 - o'" "or_base r4 + int (or_n r4) = or_base r3 + int (or_n r3)"
    "counts_of r4 = counts_of r3" using evict_held [of r3 o'] C by (auto simp: r4_def of_nat_diff)
  have fit: "or_n r4 + length d \<le> or_max r4"
    using r4(3,5) C m3 r2(5) by (auto simp: o'_def counts_of_def)
  note I = insert_held [OF r4(1) fit]
  have w: "write_ring p r = write_insert d r4" using False wf c by (simp add: write_ring_def Let_def r2_def r4_def o'_def)
  have "held_bytes (write_insert d r4) = lastn (or_max r) (held_bytes r3 @ d)"
    using I r4(2) length_held [of r3] C m3 r2(5) by (simp add: lastn_drop o'_def)
  then have "held_bytes (write_insert d r4) = lastn (or_max r) (held_bytes r @ q)" using C r2 by simp
  moreover have "frame_of (write_insert d r4) = frame_of r" "or_end (write_insert d r4) = or_end r + int (length q)"
    using I r4(5) C r2(6,7) by (simp_all add: counts_of_def frame_of_def)
  ultimately show ?thesis using I r4(4) C r2 q unfolding w q_def [symmetric] by auto
qed


lemma storage_flags:
  "or_overflow (evict k r) = or_overflow r" "or_incomplete (evict k r) = or_incomplete r"
  "or_overflow (grow k r) = or_overflow r" "or_incomplete (grow k r) = or_incomplete r"
  "or_overflow (write_insert p r) = or_overflow r" "or_incomplete (write_insert p r) = or_incomplete r"
proof -
  show g: "or_overflow (grow k r) = or_overflow r" "or_incomplete (grow k r) = or_incomplete r" for k by (simp_all add: grow_def Let_def)
  show "or_overflow (evict k r) = or_overflow r" "or_incomplete (evict k r) = or_incomplete r" by (simp_all add: evict_def Let_def)
  show "or_overflow (write_insert p r) = or_overflow r" "or_incomplete (write_insert p r) = or_incomplete r"
    by (simp_all add: write_insert_def Let_def g)
qed

lemma write_flags: "or_overflow (write_ring p r) \<Longrightarrow> (or_overflow r \<longrightarrow> or_incomplete r) \<longrightarrow> or_incomplete (write_ring p r)"
  by (auto simp: write_ring_def write_fit_def write_cut_def Let_def storage_flags split: if_splits)

lemma ack_flags: "or_overflow (ack_chunk e r) = or_overflow r" "or_incomplete (ack_chunk e r) = or_incomplete r"
  by (simp_all add: ack_chunk_def Let_def storage_flags)

text \<open>An acknowledgement drops exactly the bytes it covers.\<close>

lemma ack_held:
  assumes ok: "out_ok r"
  shows "held_bytes (ack_chunk fin r) = drop (nat (max (or_acked r) fin - or_base r)) (held_bytes r) \<and> out_ok (ack_chunk fin r)
    \<and> or_n (ack_chunk fin r) = or_n r - nat (max (or_acked r) fin - or_base r) \<and> or_base (ack_chunk fin r) = max (or_base r) (max (or_acked r) fin)
    \<and> or_acked (ack_chunk fin r) = max (or_acked r) fin \<and> or_inflight (ack_chunk fin r) = None \<and> or_end (ack_chunk fin r) = or_end r
    \<and> or_max (ack_chunk fin r) = or_max r \<and> or_limit (ack_chunk fin r) = or_limit r \<and> or_unloaded (ack_chunk fin r) = or_unloaded r
    \<and> or_replay (ack_chunk fin r) = or_replay r \<and> or_overflow (ack_chunk fin r) = or_overflow r"
proof -
  define a where "a = max (or_acked r) fin"
  define r2 where "r2 = r\<lparr>or_inflight := None, or_resend := False, or_acked := a\<rparr>"
  define d where "d = nat (a - or_base r)"
  have r2: "out_ok r2" "held_bytes r2 = held_bytes r" using ok by (simp_all add: r2_def out_ok_def held_bytes_def)
  define r3 where "r3 = (if d > 0 then (evict d r2)\<lparr>or_base := a\<rparr> else r2)"
  note E = evict_held [OF r2(1), of d]
  have c: "or_acked (evict d r2) = a" "or_n (evict d r2) = or_n r - d" using E by (simp_all add: counts_of_def r2_def)
  have b: "or_base (evict d r2) < a \<or> or_base (evict d r2) = a" if "d > 0"
    using E that by (auto simp: r2_def d_def)
  have e2: "(if fin > or_acked (r\<lparr>or_inflight := None, or_resend := False\<rparr>) then r\<lparr>or_inflight := None, or_resend := False, or_acked := fin\<rparr>
      else r\<lparr>or_inflight := None, or_resend := False\<rparr>) = r2"
    by (simp add: r2_def a_def max_def)
  have d: "nat (or_acked r2 - or_base r2) = d" "(or_acked r2 - or_base r2 > 0) = (d > 0)" by (auto simp: r2_def d_def)
  have e3: "(if d > 0 then (if or_base (evict d r2) < or_acked (evict d r2) then (evict d r2)\<lparr>or_base := or_acked (evict d r2)\<rparr> else evict d r2) else r2) = r3"
    using b unfolding c(1) r3_def by auto
  have r3: "ack_chunk fin r = (if or_replay r3 \<and> or_n r3 = 0 then r3\<lparr>or_buf := [], or_head := 0\<rparr> else r3)"
    unfolding ack_chunk_def Let_def e2 d e3 ..
  have f: "out_ok r3" "held_bytes r3 = drop d (held_bytes r)" "or_n r3 = or_n r - d" "or_base r3 = max (or_base r) a"
    "counts_of r3 = counts_of r2"
  proof -
    have u: "out_ok (x\<lparr>or_base := a\<rparr>) = out_ok x" "held_bytes (x\<lparr>or_base := a\<rparr>) = held_bytes x" "counts_of (x\<lparr>or_base := a\<rparr>) = counts_of x" for x
      by (simp_all add: out_ok_def held_bytes_def counts_of_def)
    have "max (or_base r) a = (if d > 0 then a else or_base r)" by (auto simp: d_def)
    then show "out_ok r3" "held_bytes r3 = drop d (held_bytes r)" "or_n r3 = or_n r - d" "or_base r3 = max (or_base r) a" "counts_of r3 = counts_of r2"
      using E r2 c u by (cases "d > 0"; simp add: r3_def r2_def)+
  qed
  have g: "out_ok (r3\<lparr>or_buf := [], or_head := 0\<rparr>)" "held_bytes (r3\<lparr>or_buf := [], or_head := 0\<rparr>) = held_bytes r3" if "or_n r3 = 0"
    using that by (simp_all add: out_ok_def held_bytes_def)
  have k: "or_acked r3 = a" "or_inflight r3 = None" "or_end r3 = or_end r" "or_max r3 = or_max r" "or_limit r3 = or_limit r"
    "or_unloaded r3 = or_unloaded r" "or_replay r3 = or_replay r" "or_overflow r3 = or_overflow r"
    using f(5) by (simp_all add: counts_of_def r2_def)
  show ?thesis unfolding r3 a_def [symmetric] d_def [symmetric] using f g k by simp
qed

lemma next_held:
  assumes ok: "out_ok r" and n: "next_chunk r = (r', Some c)" "or_inflight r = None"
  shows "r' = r\<lparr>or_inflight := Some c\<rparr> \<and> oc_offset c = or_base r \<and> oc_data c = take MaxLogChunkBytes (held_bytes r)
    \<and> 0 < length (oc_data c) \<and> length (oc_data c) \<le> MaxLogChunkBytes"
proof -
  let ?k = "min (or_n r) MaxLogChunkBytes"
  have nz: "or_n r \<noteq> 0" and e: "r' = r\<lparr>or_inflight := Some c\<rparr>" "c = \<lparr>oc_offset = or_base r, oc_data = copyOut_from r (make_bytes ?k) 0 ?k\<rparr>"
    using n by (auto simp: next_chunk_def Let_def split: if_splits)
  have "copyOut_from r (make_bytes ?k) 0 ?k = take ?k (held_bytes r)" using copyOut_held [OF ok, of 0 ?k "make_bytes ?k"] by simp
  moreover have "take ?k (held_bytes r) = take MaxLogChunkBytes (held_bytes r)" using length_held [OF ok] by (simp add: min_def)
  ultimately show ?thesis using e nz length_held [OF ok] by (simp add: MaxLogChunkBytes_def)
qed

lemma new_ring: "out_ok (newOutputRing m)" "held_bytes (newOutputRing m) = []"
  by (simp_all add: out_ok_def held_bytes_def newOutputRing_def)

lemma load_held:
  assumes ok: "out_ok r" and u: "or_unloaded r = length data" "data \<noteq> []" "length data \<le> or_max r" "or_n r = 0"
  shows "held_bytes (load data r) = data \<and> out_ok (load data r) \<and> or_base (load data r) = or_base r \<and> or_unloaded (load data r) = 0
    \<and> totals (load data r) = totals r \<and> or_acked (load data r) = or_acked r"
proof -
  define g where "g = grow (length data) (r\<lparr>or_unloaded := 0\<rparr>)"
  have "out_ok (r\<lparr>or_unloaded := 0\<rparr>)" using ok by (simp add: out_ok_def)
  then have g: "out_ok g" "length data \<le> length (or_buf g)" "or_base g = or_base r" "counts_of g = counts_of (r\<lparr>or_unloaded := 0\<rparr>)"
    using grow_held [of "r\<lparr>or_unloaded := 0\<rparr>" "length data"] u by (auto simp: g_def)
  have e: "load data r = g\<lparr>or_buf := copy_at (or_buf g) 0 data, or_head := 0, or_n := length data\<rparr>"
    using u by (simp add: load_def g_def Let_def)
  have "copy_at (or_buf g) 0 data = data @ drop (length data) (or_buf g)" using g(2) by (simp add: copy_at_def Let_def min_def)
  then show ?thesis unfolding e using g u(2) by (auto simp: held_bytes_def out_ok_def ring_list_start counts_of_def totals_def)
qed

text \<open>
  C30. Unsent output survives a worker restart: the tail a journal records is the ring's unsent bytes, and the
  ring recovered from that journal holds, once loaded, the same bytes at the same offsets with the same totals.
\<close>

theorem journal_tail_roundtrip:
  assumes "out_ok r" and "or_base r + int (or_n r) = or_end r" and "or_max r = m"
  shows "let r' = load (Data (journalLog r)) (newOutputRingMeta m (journalLog r)) in
    held_bytes r' = held_bytes r \<and> or_base r' = or_base r \<and> totals r' = totals r \<and> \<not> needsLoad r'"
proof -
  let ?lg = "journalLog r" and ?r = "newOutputRingMeta m (journalLog r)"
  have d: "Data ?lg = held_bytes r" "length (held_bytes r) = or_n r" using journal_data length_held assms(1) by auto
  have ok: "out_ok ?r" "or_n ?r = 0" "held_bytes ?r = []"
    by (simp_all add: newOutputRingMeta_def newOutputRing_def out_ok_def held_bytes_def Let_def)
  have f: "or_unloaded ?r = length (Data ?lg)" "or_max ?r = m" "or_base ?r = or_base r" "totals ?r = totals r"
    using d assms(2) by (simp_all add: newOutputRingMeta_def newOutputRing_def Let_def totals_def) (simp_all add: journalLog_def)
  have le: "or_n r \<le> m" using assms(1,3) by (simp add: out_ok_def)
  show ?thesis
  proof (cases "or_n r = 0")
    case True
    then have "load (Data ?lg) ?r = ?r" using f(1) d by (simp add: load_def)
    then show ?thesis using f ok d True by (simp add: needsLoad_def)
  next
    case False
    then have "Data ?lg \<noteq> []" using d by auto
    then show ?thesis using load_held [OF ok(1) f(1)] f d le ok(2) by (simp add: needsLoad_def)
  qed
qed

theorem journal_tail_roundtrip_witness:
  "held_bytes (load (Data (journalLog (write_ring ''ab'' (newOutputRing 8)))) (newOutputRingMeta 8 (journalLog (write_ring ''ab'' (newOutputRing 8))))) = ''ab''"
proof -
  let ?r = "write_ring ''ab'' (newOutputRing 8)"
  have lim: "or_end (newOutputRing 8) \<le> or_limit (newOutputRing 8)" by (simp add: newOutputRing_def MaxSafeInteger_def)
  have f: "fitting ''ab'' (newOutputRing 8) = ''ab''" by (simp add: fitting_def newOutputRing_def MaxSafeInteger_def)
  note W = write_held [OF new_ring(1) lim, of "''ab''"]
  have s: "or_base (newOutputRing 8) = 0" "or_n (newOutputRing 8) = 0" "or_end (newOutputRing 8) = 0" "or_max (newOutputRing 8) = 8"
    by (simp_all add: newOutputRing_def)
  have h: "out_ok ?r" "held_bytes ?r = ''ab''" using W f s by (simp_all add: new_ring)
  have "or_base ?r + int (or_n ?r) = or_end ?r" "or_max ?r = 8" using W f s by (simp_all add: frame_of_def)
  then show ?thesis using journal_tail_roundtrip [OF h(1), of 8] h(2) by (simp add: Let_def)
qed

end
