(* ===== verification/Log_Delivery.thy ===== *)
theory Log_Delivery
  imports Worker_Output
begin

section \<open>Output from the worker to the plane\<close>

text \<open>
  The worker's ring and the plane's ring joined by their exchange: \<open>writeOutput\<close> sends the ring's next chunk,
  the plane appends it, \<open>onOutputAck\<close> acknowledges its end to the ring, and when an attachment ends first the
  next one resends exactly that chunk. \<open>delivery m s r l\<close>: after any order of these steps the worker has
  observed the bytes \<open>s\<close>, its ring (of at most \<open>m\<close> bytes) is \<open>r\<close> and the plane's log is \<open>l\<close>. The plane may receive
  a chunk more than once, and a receipt or its acknowledgement may be lost.
\<close>

definition chunk_end :: "outChunk \<Rightarrow> int" where
  "chunk_end c = oc_offset c + int (length (oc_data c))"

inductive delivery :: "nat \<Rightarrow> bytes \<Rightarrow> outputRing \<Rightarrow> planeLog \<Rightarrow> bool" for m :: nat where
  start: "0 < m \<Longrightarrow> delivery m [] (newOutputRing m) newPlaneLog"
| observe: "delivery m s r l \<Longrightarrow> delivery m (s @ fitting p r) (write_ring p r) l"
| send: "delivery m s r l \<Longrightarrow> delivery m s (fst (next_chunk r)) l"
| receive: "delivery m s r l \<Longrightarrow> or_inflight r = Some c \<Longrightarrow> delivery m s r (fst (append_log l (oc_offset c) (oc_data c)))"
| receipt: "delivery m s r l \<Longrightarrow> or_inflight r = Some c \<Longrightarrow> chunk_end c \<le> pl_next l \<Longrightarrow> delivery m s (ack_chunk (chunk_end c) r) l"
| detach: "delivery m s r l \<Longrightarrow> delivery m s (unbind r) l"
| mark: "delivery m s r l \<Longrightarrow> delivery m s (markIncomplete r) l"

subsection \<open>Ranges of the stream\<close>

definition pieces :: "bytes \<Rightarrow> (nat \<times> nat) list \<Rightarrow> bytes" where
  "pieces s rs = concat (map (\<lambda>(i, k). take k (drop i s)) rs)"

text \<open>\<open>ascending a rs b\<close>: nonoverlapping ranges in order from \<open>a\<close> on, the last ending at \<open>b\<close>; \<open>gap_free\<close>: without a hole.\<close>

fun ascending :: "nat \<Rightarrow> (nat \<times> nat) list \<Rightarrow> nat \<Rightarrow> bool" where
  "ascending a [] b \<longleftrightarrow> a = b"
| "ascending a ((i, k) # rs) b \<longleftrightarrow> a \<le> i \<and> ascending (i + k) rs b"

fun gap_free :: "nat \<Rightarrow> (nat \<times> nat) list \<Rightarrow> bool" where
  "gap_free a [] \<longleftrightarrow> True"
| "gap_free a ((i, k) # rs) \<longleftrightarrow> a = i \<and> gap_free (i + k) rs"

lemma ascending_le: "ascending a rs b \<Longrightarrow> a \<le> b"
  by (induction a rs b rule: ascending.induct) auto

lemma ascending_snoc: "ascending a rs b \<Longrightarrow> b \<le> i \<Longrightarrow> ascending a (rs @ [(i, k)]) (i + k)"
  by (induction a rs b rule: ascending.induct) auto

lemma gap_free_snoc: "ascending a rs b \<Longrightarrow> gap_free a (rs @ [(i, k)]) \<longleftrightarrow> gap_free a rs \<and> b = i"
  by (induction a rs b rule: ascending.induct) auto

lemma pieces_snoc: "pieces s (rs @ [(i, k)]) = pieces s rs @ take k (drop i s)"
  by (simp add: pieces_def)

lemma pieces_grow: "ascending a rs b \<Longrightarrow> b \<le> length s \<Longrightarrow> pieces (s @ t) rs = pieces s rs"
proof (induction a rs b rule: ascending.induct)
  case (2 a i k rs b)
  then have "i + k \<le> length s" using ascending_le by fastforce
  then show ?case using 2 by (simp add: pieces_def)
qed (simp add: pieces_def)

lemma pieces_gap_free: "ascending a rs b \<Longrightarrow> gap_free a rs \<Longrightarrow> b \<le> length s \<Longrightarrow> pieces s rs = take (b - a) (drop a s)"
proof (induction a rs b rule: ascending.induct)
  case (2 a i k rs b)
  then have b: "i + k \<le> b" and i: "a = i" using ascending_le [of "i + k" rs b] by auto
  have "take (b - i) (drop i s) = take k (drop i s) @ take (b - (i + k)) (drop (i + k) s)"
    using take_add [of k "b - (i + k)" "drop i s"] b by (simp add: add.commute)
  then show ?case using 2 by (simp add: pieces_def)
qed (simp add: pieces_def)

subsection \<open>The invariant\<close>

definition sent_ok :: "bytes \<Rightarrow> outputRing \<Rightarrow> planeLog \<Rightarrow> bool" where
  "sent_ok s r l \<longleftrightarrow> (case or_inflight r of
     None \<Rightarrow> pl_next l = or_acked r
   | Some c \<Rightarrow> 0 < length (oc_data c) \<and> length (oc_data c) \<le> MaxLogChunkBytes \<and> or_acked r \<le> oc_offset c \<and> chunk_end c \<le> int (length s)
       \<and> oc_data c = take (length (oc_data c)) (drop (nat (oc_offset c)) s) \<and> (pl_next l = or_acked r \<or> pl_next l = chunk_end c))"

definition ring_at :: "nat \<Rightarrow> bytes \<Rightarrow> outputRing \<Rightarrow> bool" where
  "ring_at m s r \<longleftrightarrow> out_ok r \<and> or_max r = m \<and> 0 < m \<and> or_unloaded r = 0 \<and> or_limit r = MaxSafeInteger \<and> or_end r = int (length s)
     \<and> or_end r \<le> or_limit r \<and> or_base r + int (or_n r) = or_end r \<and> 0 \<le> or_acked r \<and> or_acked r \<le> or_base r
     \<and> held_bytes r = drop (nat (or_base r)) s \<and> (or_n r = 0 \<longrightarrow> or_base r = or_acked r)"

definition received_at :: "bytes \<Rightarrow> planeLog \<Rightarrow> bool" where
  "received_at s l \<longleftrightarrow> (\<exists>rs. ascending 0 rs (nat (pl_next l)) \<and> retained l = lastn MaxLogRetainedBytes (pieces s rs) \<and> (pl_incomplete l \<longleftrightarrow> \<not> gap_free 0 rs))"

definition kept_all :: "nat \<Rightarrow> bytes \<Rightarrow> outputRing \<Rightarrow> planeLog \<Rightarrow> bool" where
  "kept_all m s r l \<longleftrightarrow> (length s \<le> m \<longrightarrow> or_base r = or_acked r \<and> \<not> pl_incomplete l \<and> (\<forall>c. or_inflight r = Some c \<longrightarrow> oc_offset c = or_acked r))"

definition delivery_inv :: "nat \<Rightarrow> bytes \<Rightarrow> outputRing \<Rightarrow> planeLog \<Rightarrow> bool" where
  "delivery_inv m s r l \<longleftrightarrow> ring_at m s r \<and> sent_ok s r l \<and> log_inv l \<and> 0 \<le> pl_next l \<and> pl_next l \<le> int (length s) \<and> received_at s l \<and> kept_all m s r l"

lemma inv_start: "0 < m \<Longrightarrow> delivery_inv m [] (newOutputRing m) newPlaneLog"
proof -
  assume m: "0 < m"
  have n: "pl_next newPlaneLog = 0" "\<not> pl_incomplete newPlaneLog" by (simp_all add: newPlaneLog_def)
  have "received_at [] newPlaneLog" unfolding received_at_def using n by (intro exI [of _ "[]"]) (simp add: pieces_def)
  moreover have "ring_at m [] (newOutputRing m)" using new_ring [of m] m by (simp add: ring_at_def) (simp add: newOutputRing_def MaxSafeInteger_def)
  ultimately show ?thesis using n log_inv_newPlaneLog by (simp add: delivery_inv_def sent_ok_def kept_all_def) (simp add: newOutputRing_def)
qed

lemma sent_grow:
  assumes "sent_ok s r l" and "0 \<le> or_acked r" and "or_acked r' = or_acked r" and "or_inflight r' = or_inflight r"
  shows "sent_ok (s @ t) r' l"
proof (cases "or_inflight r")
  case (Some c)
  then have "0 \<le> oc_offset c" "nat (oc_offset c) + length (oc_data c) \<le> length s" "oc_data c = take (length (oc_data c)) (drop (nat (oc_offset c)) s)"
    using assms(1,2) by (auto simp: sent_ok_def chunk_end_def)
  then have "oc_data c = take (length (oc_data c)) (drop (nat (oc_offset c)) (s @ t))" by simp
  then show ?thesis using assms Some by (simp add: sent_ok_def)
qed (use assms in \<open>simp add: sent_ok_def\<close>)

lemma inv_observe:
  assumes inv: "delivery_inv m s r l"
  shows "delivery_inv m (s @ fitting p r) (write_ring p r) l"
proof -
  let ?q = "fitting p r" and ?r = "write_ring p r"
  have R: "ring_at m s r" and l: "log_inv l" "0 \<le> pl_next l" "pl_next l \<le> int (length s)" "received_at s l"
    using inv by (auto simp: delivery_inv_def)
  have ok: "out_ok r" "or_end r \<le> or_limit r" using R by (auto simp: ring_at_def)
  note W = write_held [OF ok, of p]
  have F: "or_max ?r = m" "or_acked ?r = or_acked r" "or_inflight ?r = or_inflight r" "or_unloaded ?r = 0" "or_limit ?r = MaxSafeInteger"
    using W R by (simp_all add: frame_of_def ring_at_def)
  have e: "or_end ?r = int (length (s @ ?q))" "or_base ?r + int (or_n ?r) = or_end ?r" using W R by (auto simp: ring_at_def)
  have h: "held_bytes ?r = lastn m (held_bytes r @ ?q)" using W R by (simp add: ring_at_def)
  have n: "or_n ?r = min m (or_n r + length ?q)" using h W length_held [of ?r] length_held [OF ok(1)] by simp
  have b: "0 \<le> or_base r" "nat (or_base r) + or_n r = length s" using R by (auto simp: ring_at_def)
  have b': "or_base r \<le> or_base ?r" using n W by auto
  have nb: "nat (or_base ?r) = length (s @ ?q) - or_n ?r" using e b' b by simp
  have bb: "nat (or_base r) = length s - or_n r" "or_n r \<le> length s" using b by linarith+
  have "held_bytes ?r = lastn m (drop (nat (or_base r)) (s @ ?q))" using h R b by (simp add: ring_at_def)
  also have "\<dots> = drop (nat (or_base ?r)) (s @ ?q)" using n bb(2) by (simp add: lastn_drop nb bb(1) min_def add.commute)
  finally have held: "held_bytes ?r = drop (nat (or_base ?r)) (s @ ?q)" .
  have z: "or_base ?r = or_acked ?r" if "or_n ?r = 0"
  proof -
    have "or_n r = 0" "?q = []" using that n R by (auto simp: ring_at_def min_def split: if_splits)
    then show ?thesis using W R that F(2) by (simp add: ring_at_def)
  qed
  have "ring_at m (s @ ?q) ?r"
    unfolding ring_at_def using W R F e b' held z by (auto simp: ring_at_def)
  moreover have "sent_ok (s @ ?q) ?r l" using inv F(2,3) R by (intro sent_grow [of s r]) (auto simp: delivery_inv_def ring_at_def)
  moreover have "received_at (s @ ?q) l"
  proof -
    obtain rs where rs: "ascending 0 rs (nat (pl_next l))" "retained l = lastn MaxLogRetainedBytes (pieces s rs)" "pl_incomplete l \<longleftrightarrow> \<not> gap_free 0 rs"
      using l(4) by (auto simp: received_at_def)
    then show ?thesis using pieces_grow [OF rs(1), of s ?q] l(3) by (auto simp: received_at_def)
  qed
  moreover have "kept_all m (s @ ?q) ?r l"
  proof -
    have "or_base ?r = or_base r" if "length (s @ ?q) \<le> m"
      using that n b e by auto
    then show ?thesis using inv F(2,3) by (auto simp: delivery_inv_def kept_all_def)
  qed
  ultimately show ?thesis using l by (auto simp: delivery_inv_def)
qed


lemma inv_resend: "delivery_inv m s (r\<lparr>or_resend := x\<rparr>) l = delivery_inv m s r l"
proof -
  have "ring_at m s (r\<lparr>or_resend := x\<rparr>) = ring_at m s r" by (simp add: ring_at_def out_ok_def held_bytes_def)
  moreover have "sent_ok s (r\<lparr>or_resend := x\<rparr>) l = sent_ok s r l" by (simp add: sent_ok_def split: option.split)
  moreover have "kept_all m s (r\<lparr>or_resend := x\<rparr>) l = kept_all m s r l" by (simp add: kept_all_def)
  ultimately show ?thesis by (simp add: delivery_inv_def)
qed

lemma inv_mark: "delivery_inv m s (markIncomplete r) l = delivery_inv m s r l"
proof -
  have "ring_at m s (markIncomplete r) = ring_at m s r" by (simp add: ring_at_def out_ok_def held_bytes_def markIncomplete_def)
  moreover have "sent_ok s (markIncomplete r) l = sent_ok s r l" by (simp add: sent_ok_def markIncomplete_def split: option.split)
  moreover have "kept_all m s (markIncomplete r) l = kept_all m s r l" by (simp add: kept_all_def markIncomplete_def)
  ultimately show ?thesis by (simp add: delivery_inv_def)
qed

lemma inv_send: "delivery_inv m s r l \<Longrightarrow> delivery_inv m s (fst (next_chunk r)) l"
proof -
  assume inv: "delivery_inv m s r l"
  have R: "ring_at m s r" using inv by (simp add: delivery_inv_def)
  have keep: "delivery_inv m s (r\<lparr>or_resend := x\<rparr>) l" for x using inv by (simp only: inv_resend)
  show ?thesis
  proof (cases "or_inflight r = None \<and> or_n r \<noteq> 0")
    case True
    obtain r' c where n: "next_chunk r = (r', Some c)" using True by (simp add: next_chunk_def Let_def)
    have ok: "out_ok r" "held_bytes r = drop (nat (or_base r)) s" "length (held_bytes r) = or_n r" using R length_held by (auto simp: ring_at_def)
    note C = next_held [OF ok(1) n] 
    have c: "r' = r\<lparr>or_inflight := Some c\<rparr>" "oc_offset c = or_base r" "oc_data c = take MaxLogChunkBytes (held_bytes r)" "0 < length (oc_data c)"
      "length (oc_data c) \<le> MaxLogChunkBytes" using C True by auto
    have len: "length (oc_data c) = min MaxLogChunkBytes (or_n r)" using c(3) ok(3) by simp
    have "take (length (take k xs)) xs = take k xs" for k and xs :: bytes by (simp add: min_def)
    then have "oc_data c = take (length (oc_data c)) (drop (nat (or_base r)) s)" using c(3) ok(2) by metis
    moreover have "chunk_end c \<le> int (length s)" using c(2) len R by (auto simp: chunk_end_def ring_at_def)
    ultimately have "sent_ok s r' l" using inv True c R by (simp add: delivery_inv_def sent_ok_def ring_at_def)
    moreover have "ring_at m s r'" using R by (simp add: c(1) ring_at_def out_ok_def held_bytes_def)
    moreover have "kept_all m s r' l" using inv c(2) by (simp add: c(1) delivery_inv_def kept_all_def)
    ultimately show ?thesis using inv n by (simp add: delivery_inv_def)
  next
    case False
    then have "fst (next_chunk r) = r \<or> fst (next_chunk r) = r\<lparr>or_resend := False\<rparr>" by (auto simp: next_chunk_def Let_def)
    then show ?thesis using inv keep by auto
  qed
qed

lemma inv_receive:
  assumes inv: "delivery_inv m s r l" and c: "or_inflight r = Some c"
  shows "delivery_inv m s r (fst (append_log l (oc_offset c) (oc_data c))) \<and> is_ok (snd (append_log l (oc_offset c) (oc_data c)))"
proof -
  let ?l = "fst (append_log l (oc_offset c) (oc_data c))"
  have S: "0 < length (oc_data c)" "or_acked r \<le> oc_offset c" "chunk_end c \<le> int (length s)"
    "oc_data c = take (length (oc_data c)) (drop (nat (oc_offset c)) s)" "pl_next l = or_acked r \<or> pl_next l = chunk_end c"
    using inv c by (auto simp: delivery_inv_def sent_ok_def)
  have R: "ring_at m s r" "log_inv l" "0 \<le> pl_next l" using inv by (auto simp: delivery_inv_def)
  have o: "0 \<le> oc_offset c" "chunk_end c \<le> MaxSafeInteger" using S R(1) by (auto simp: ring_at_def)
  show ?thesis
  proof (cases "chunk_end c \<le> pl_next l")
    case True
    then have "append_log l (oc_offset c) (oc_data c) = (l, Inr (pl_next l))" by (simp add: append_log_def chunk_end_def)
    then show ?thesis using inv by simp
  next
    case False
    then have a: "pl_next l = or_acked r" "pl_next l \<le> oc_offset c" using S by auto
    define l1 where "l1 = (if oc_offset c > pl_next l then l\<lparr>pl_incomplete := True\<rparr> else l)"
    have e: "append_log l (oc_offset c) (oc_data c) = ((push l1 (oc_data c))\<lparr>pl_received := min MaxSafeInteger (pl_received (push l1 (oc_data c)) + int (length (oc_data c))),
        pl_next := chunk_end c, pl_source := max (pl_source (push l1 (oc_data c))) (chunk_end c)\<rparr>, Inr (chunk_end c))"
      using False a(2) by (simp add: append_log_def Let_def l1_def chunk_end_def)
    have d: "oc_data c \<noteq> []" using S(1) by auto
    have rl: "ring_ok l1" "retained l1 = retained l" using R(2) by (auto simp: l1_def log_inv_def)
    have ret: "retained ?l = lastn MaxLogRetainedBytes (retained l @ oc_data c)" "pl_next ?l = chunk_end c"
      "pl_incomplete ?l \<longleftrightarrow> pl_incomplete l \<or> oc_offset c > pl_next l"
      using push_retained [OF rl(1) d] rl(2) unfolding e by (auto simp: l1_def)
    have li: "log_inv ?l" using append_log_inv [OF R(2) d, of "oc_offset c"] o(2) by (simp add: chunk_end_def)
    obtain rs where rs: "ascending 0 rs (nat (pl_next l))" "retained l = lastn MaxLogRetainedBytes (pieces s rs)" "pl_incomplete l \<longleftrightarrow> \<not> gap_free 0 rs"
      using inv by (auto simp: delivery_inv_def received_at_def)
    let ?i = "nat (oc_offset c)" and ?k = "length (oc_data c)"
    have le: "nat (pl_next l) \<le> ?i" "?i + ?k = nat (chunk_end c)" using a(2) o(1) by (auto simp: chunk_end_def nat_add_distrib)
    have "received_at s ?l" unfolding received_at_def
    proof (intro exI conjI)
      show "ascending 0 (rs @ [(?i, ?k)]) (nat (pl_next ?l))" using ascending_snoc [OF rs(1) le(1), of ?k] le(2) ret(2) by simp
      show "retained ?l = lastn MaxLogRetainedBytes (pieces s (rs @ [(?i, ?k)]))"
        using ret(1) rs(2) S(4) by (simp add: pieces_snoc lastn_append_lastn)
      show "pl_incomplete ?l \<longleftrightarrow> \<not> gap_free 0 (rs @ [(?i, ?k)])"
        using ret(3) gap_free_snoc [OF rs(1)] rs(3) a(2) R(3) o(1) by auto
    qed
    moreover have "sent_ok s r ?l" using inv c ret(2) by (simp add: delivery_inv_def sent_ok_def)
    moreover have "kept_all m s r ?l" using inv c ret(3) a(1) by (auto simp: delivery_inv_def kept_all_def)
    ultimately show ?thesis using R li ret(2) S(3) o(1) S(1) e by (auto simp: delivery_inv_def chunk_end_def)
  qed
qed

lemma inv_receipt:
  assumes inv: "delivery_inv m s r l" and c: "or_inflight r = Some c" and e: "chunk_end c \<le> pl_next l"
  shows "delivery_inv m s (ack_chunk (chunk_end c) r) l"
proof -
  let ?r = "ack_chunk (chunk_end c) r"
  have S: "0 < length (oc_data c)" "or_acked r \<le> oc_offset c" "chunk_end c \<le> int (length s)" "pl_next l = or_acked r \<or> pl_next l = chunk_end c"
    using inv c by (auto simp: delivery_inv_def sent_ok_def)
  have lt: "or_acked r < chunk_end c" using S(1,2) unfolding chunk_end_def by linarith
  then have a: "or_acked r < chunk_end c" "pl_next l = chunk_end c" using S(4) e by auto
  have R: "ring_at m s r" using inv by (simp add: delivery_inv_def)
  have ok: "out_ok r" using R by (simp add: ring_at_def)
  note A = ack_held [OF ok, of "chunk_end c"]
  have A': "or_acked ?r = chunk_end c" "or_base ?r = max (or_base r) (chunk_end c)" "or_n ?r = or_n r - nat (chunk_end c - or_base r)"
    "held_bytes ?r = drop (nat (chunk_end c - or_base r)) (held_bytes r)" "or_inflight ?r = None"
    using A a(1) by (auto simp: max_def)
  have b: "0 \<le> or_base r" "or_base r + int (or_n r) = int (length s)" "held_bytes r = drop (nat (or_base r)) s" using R by (auto simp: ring_at_def)
  have m: "nat (or_base ?r) = nat (chunk_end c - or_base r) + nat (or_base r)" using A'(2) b(1) by (auto simp: max_def)
  have "held_bytes ?r = drop (nat (or_base ?r)) s" unfolding A'(4) b(3) m by (simp add: add.commute)
  moreover have "or_base ?r + int (or_n ?r) = int (length s)" using A'(2,3) b S(3) by (auto simp: max_def)
  moreover have "or_base ?r = or_acked ?r" if "or_n ?r = 0"
  proof -
    have z: "or_n r = 0 \<longrightarrow> or_base r = or_acked r" using R by (simp add: ring_at_def)
    have "or_n r \<le> nat (chunk_end c - or_base r)" using that A'(3) by simp
    then have "or_base r \<le> chunk_end c" using z a(1) by (cases "or_n r = 0") auto
    then show ?thesis using A'(1,2) by simp
  qed
  ultimately have "ring_at m s ?r" using A A'(1,2) R a(1) by (auto simp: ring_at_def)
  moreover have "sent_ok s ?r l" using A'(1,5) a(2) by (simp add: sent_ok_def)
  moreover have "kept_all m s ?r l" using inv c A'(1,2,5) a(1) S(1) by (auto simp: delivery_inv_def kept_all_def)
  ultimately show ?thesis using inv by (simp add: delivery_inv_def)
qed

lemma delivery_inv: "delivery m s r l \<Longrightarrow> delivery_inv m s r l"
proof (induction rule: delivery.induct)
  case (detach s r l)
  then show ?case by (simp only: unbind_def inv_resend)
next
  case (mark s r l)
  then show ?case by (simp only: inv_mark)
qed (auto intro: inv_start inv_observe inv_send inv_receipt dest: inv_receive)

text \<open>What the worker freezes of its ring is a log the loader accepts.\<close>

lemma delivery_flags: "delivery m s r l \<Longrightarrow> or_overflow r \<Longrightarrow> or_incomplete r"
proof (induction rule: delivery.induct)
  case (observe s r l p)
  then show ?case using write_flags [of p r] by blast
next
  case (receipt s r l c)
  then show ?case by (simp add: ack_flags)
qed (simp_all add: newOutputRing_def next_chunk_def unbind_def markIncomplete_def Let_def split: if_splits)

lemma delivery_log_valid:
  assumes "delivery m s r l" and "m \<le> MaxLogRetainedBytes"
  shows "log_valid (journalLog r)"
proof -
  have R: "ring_at m s r" using delivery_inv [OF assms(1)] by (simp add: delivery_inv_def)
  then have "length (Data (journalLog r)) = or_n r" using journal_data length_held by (auto simp: ring_at_def)
  moreover have "or_n r \<le> m" using R by (auto simp: ring_at_def out_ok_def)
  ultimately show ?thesis using R assms(2) delivery_flags [OF assms(1)]
    by (auto simp: log_valid_def ring_at_def) (auto simp: journalLog_def)
qed






end
