(* ===== verification/Worker_Journal.thy ===== *)
theory Worker_Journal
  imports Log_Delivery Task_Demo
begin

section \<open>The worker's execution journal\<close>

text \<open>
  \<open>internal/contract/journal.go\<close> and its writers in \<open>internal/sidecar\<close>: the journal's document with its validation
  (\<open>ParseExecutionJournal\<close>), the outcome a supervised execution ends with (\<open>supervise\<close>), the document that
  freezes it (\<open>journalOf\<close>, \<open>freezeThen\<close>) and what a restart makes of the journals it finds (\<open>recoverJournals\<close>).
  A journal that does not validate stops the worker from starting at all, so the properties say which of the
  documents the worker writes it can read back.

  The document is taken as decoded; \<open>journalEnv\<close> has the adapter lookup, the encoded lengths and the result
  digest (SHA-256 over the other fields, in hexadecimal).
\<close>

datatype journal_phase = JournalPrepared | JournalRunning | JournalCompleted | JournalLost | JournalOther string

record ExecutionJournal =
  xj_TaskID :: string
  xj_Execution :: ExecutionToken
  xj_StartDigest :: string
  xj_Role :: RoleRecord
  xj_Effective :: TaskEffective
  xj_TimeoutPolicy :: timeout_policy
  xj_OwnerNonce :: "string option"
  xj_Phase :: journal_phase
  xj_StopIntent :: "StopIntent option"
  xj_StartedAt :: "instant option"
  xj_Result :: "TaskResultBody option"
  xj_Log :: TaskLog
  xj_Work :: bool
  xj_Workspace :: "WorkspaceBinding option"
  xj_RuntimeDir :: "string option"
  xj_Schema :: int

record journalEnv =
  je_roleLen :: "RoleConfig \<Rightarrow> nat"
  je_lookup :: AdapterLookup
  je_dtoLen :: "TaskWorkspaceResult \<Rightarrow> nat"
  je_digest :: "TaskResultBody \<Rightarrow> string"

definition ValidNonce :: "bytes \<Rightarrow> bool" where
  "ValidNonce n \<longleftrightarrow> hex_id 64 n"

definition ValidEpoch :: "bytes \<Rightarrow> bool" where
  "ValidEpoch e \<longleftrightarrow> hex_id 32 e"

definition RuntimeDirPrefix :: string where "RuntimeDirPrefix = ''.callsheet-runtime-''"

definition ValidRuntimeDir :: "bytes \<Rightarrow> bool" where
  "ValidRuntimeDir s \<longleftrightarrow> (case CutPrefix s RuntimeDirPrefix of None \<Rightarrow> False | Some tok \<Rightarrow> ValidWorkspaceToken tok)"

subsection \<open>Reading a journal\<close>

text \<open>The nested documents the strict decoder validates on its way (\<open>unmarshalStrict\<close>).\<close>

definition ExecutionToken_ok :: "ExecutionToken \<Rightarrow> bool" where
  "ExecutionToken_ok t \<longleftrightarrow> ValidEpoch (Epoch t) \<and> Attachment t \<ge> 1 \<and> int (Attachment t) \<le> MaxSafeInteger"

definition TaskEffective_ok :: "TaskEffective \<Rightarrow> bool" where
  "TaskEffective_ok e \<longleftrightarrow> ValidModel (ef_Model e) \<and> ef_Effort e \<noteq> '''' \<and> ef_Timeout e \<ge> 0"

definition decode_nested :: "journalEnv \<Rightarrow> ExecutionJournal \<Rightarrow> unit res" where
  "decode_nested env j = firstErr
     [if ExecutionToken_ok (xj_Execution j) then Inr () else errInvalid,
      if TaskEffective_ok (xj_Effective j) then Inr () else errInvalid,
      case xj_StopIntent j of None \<Rightarrow> Inr () | Some s \<Rightarrow> StopIntent_Validate s,
      case xj_Workspace j of None \<Rightarrow> Inr () | Some b \<Rightarrow> WorkspaceBinding_Validate b,
      case xj_Result j of None \<Rightarrow> Inr () | Some r \<Rightarrow>
        (if ExecutionToken_ok (r_Execution r)
         then (case r_Workspace r of None \<Rightarrow> Inr () | Some w \<Rightarrow> TaskWorkspaceResult_Validate (je_dtoLen env) w) else errInvalid)]"

text \<open>What an older schema has no field for.\<close>

definition norm_schema2 :: "ExecutionJournal \<Rightarrow> ExecutionJournal" where
  "norm_schema2 j = j\<lparr>xj_Work := False, xj_Workspace := None, xj_RuntimeDir := None\<rparr>"

definition norm_schema1 :: "ExecutionJournal \<Rightarrow> ExecutionJournal" where
  "norm_schema1 j = (norm_schema2 j)\<lparr>xj_StopIntent := None,
     xj_Result := map_option (\<lambda>r. r\<lparr>r_StopID := None, r_Workspace := None\<rparr>) (xj_Result j)\<rparr>"

definition schema1_check :: "ExecutionJournal \<Rightarrow> unit res" where
  "schema1_check j =
     (if xj_TimeoutPolicy j \<noteq> TimeoutPolicyLegacy then errInvalid
      else (case xj_Result j of None \<Rightarrow> Inr ()
          | Some r \<Rightarrow> if r_Outcome r \<noteq> OutcomeNatural \<and> r_Outcome r \<noteq> OutcomeLost then errInvalid else Inr ()))"

definition schema2_check :: "ExecutionJournal \<Rightarrow> unit res" where
  "schema2_check j = (case xj_Result j of None \<Rightarrow> Inr () | Some r \<Rightarrow> if r_Workspace r \<noteq> None then errInvalid else Inr ())"

definition schema3_check :: "ExecutionJournal \<Rightarrow> unit res" where
  "schema3_check j =
     (if xj_Workspace j \<noteq> None \<and> \<not> xj_Work j then errInvalid
      else if (case xj_RuntimeDir j of None \<Rightarrow> False | Some d \<Rightarrow> xj_Workspace j = None \<or> \<not> ValidRuntimeDir d) then errInvalid
      else if (case xj_Result j of None \<Rightarrow> False | Some r \<Rightarrow> (r_Workspace r \<noteq> None) \<noteq> (xj_Workspace j \<noteq> None)) then errInvalid
      else (case xj_Workspace j of
          None \<Rightarrow> Inr ()
        | Some b \<Rightarrow>
            (case WorkspaceBinding_Validate b of
               Inl e \<Rightarrow> Inl e
             | Inr _ \<Rightarrow>
                 (case xj_Result j of
                    None \<Rightarrow> Inr ()
                  | Some r \<Rightarrow>
                      (case r_Workspace r of
                         None \<Rightarrow> Inr ()
                       | Some w \<Rightarrow> if w_Name w \<noteq> b_Name b \<or> w_Instance w \<noteq> b_Instance b \<or> \<not> sameHash (w_BaseCommit w) (b_BaseCommit b)
                                   then errInvalid else Inr ())))))"

definition journal_ids :: "ExecutionJournal \<Rightarrow> unit res" where
  "journal_ids j =
     (if \<not> ValidTaskID (xj_TaskID j) then errInvalid
      else if \<not> ValidDigest (xj_StartDigest j) then errInvalid
      else if (case xj_OwnerNonce j of None \<Rightarrow> False | Some n \<Rightarrow> \<not> ValidNonce n) then errInvalid
      else Inr ())"

definition phase_check :: "journalEnv \<Rightarrow> ExecutionJournal \<Rightarrow> unit res" where
  "phase_check env j =
     (case xj_Phase j of
        JournalPrepared \<Rightarrow> if xj_OwnerNonce j \<noteq> None \<or> xj_StartedAt j \<noteq> None \<or> xj_Result j \<noteq> None then errInvalid else Inr ()
      | JournalRunning \<Rightarrow> if xj_OwnerNonce j = None \<or> xj_Result j \<noteq> None then errInvalid else Inr ()
      | JournalOther _ \<Rightarrow> errInvalid
      | _ \<Rightarrow>
          (case xj_Result j of
             None \<Rightarrow> errInvalid
           | Some r \<Rightarrow>
               if (r_Outcome r = OutcomeLost) \<noteq> (xj_Phase j = JournalLost) then errInvalid
               else if r_TaskID r \<noteq> xj_TaskID j \<or> r_Execution r \<noteq> xj_Execution j then errInvalid
               else (case TaskResultBody_Validate (je_digest env) (je_dtoLen env) r of
                   Inl e \<Rightarrow> Inl e
                 | Inr _ \<Rightarrow>
                     if r_Outcome r = OutcomeTimedOut \<and> xj_StartedAt j = None then errInvalid
                     else if (case r_StopID r of None \<Rightarrow> False | Some i \<Rightarrow> (case xj_StopIntent j of None \<Rightarrow> True | Some s \<Rightarrow> s_ID s \<noteq> i)) then errInvalid
                     else Inr ())))"

definition journal_checks :: "journalEnv \<Rightarrow> ExecutionJournal \<Rightarrow> unit res" where
  "journal_checks env j = firstErr
     [journal_ids j, parseRoleRecordObject (je_roleLen env) (je_lookup env) (xj_Role j),
      CheckEffort (c_Adapter (r_Config (xj_Role j))) (ef_Effort (xj_Effective j)) (je_lookup env),
      phase_check env j, TaskLog_Validate (xj_Log j)]"

definition checked :: "unit res \<Rightarrow> ExecutionJournal \<Rightarrow> ExecutionJournal res" where
  "checked c j = (case c of Inl e \<Rightarrow> Inl e | Inr _ \<Rightarrow> Inr j)"

definition ParseExecutionJournal :: "journalEnv \<Rightarrow> ExecutionJournal \<Rightarrow> ExecutionJournal res" where
  "ParseExecutionJournal env j0 =
     (if xj_Schema j0 = 1 then let j = norm_schema1 j0 in checked (firstErr [decode_nested env j, schema1_check j, journal_checks env j]) j
      else if xj_Schema j0 = 2 then let j = norm_schema2 j0 in checked (firstErr [decode_nested env j, schema2_check j, journal_checks env j]) j
      else if xj_Schema j0 = 3 then checked (firstErr [decode_nested env j0, schema3_check j0, journal_checks env j0]) j0
      else errInvalid)"

subsection \<open>The outcome of a supervised execution\<close>

datatype stop_cause = NoCause | CauseCancelled | CauseTimedOut | CauseLost

text \<open>
  What \<open>supervise\<close> knows when the group has ended: the adapter's wait status, the guardian's cause and its stop ID, the
  latched intent, the start, whether the group's absence is proved, an interruption, the final message and the totals.
\<close>

record exitFacts =
  xf_exit :: "(int + string) option"
  xf_cause :: stop_cause
  xf_causeID :: "string option"
  xf_ctl :: "StopIntent option"
  xf_started :: "instant option"
  xf_gone :: bool
  xf_interrupted :: bool
  xf_message :: "bytes option"
  xf_truncated :: bool

definition base_result :: "string \<Rightarrow> ExecutionToken \<Rightarrow> outputRing \<Rightarrow> exitFacts \<Rightarrow> TaskResultBody" where
  "base_result i tok r f =
     (let (e, inc, ovf) = totals r in
      \<lparr>r_TaskID = i, r_Execution = tok, r_Outcome = OutcomeNatural,
       r_ExitCode = (case xf_exit f of Some (Inl c) \<Rightarrow> Some c | _ \<Rightarrow> None), r_Signal = (case xf_exit f of Some (Inr s) \<Rightarrow> Some s | _ \<Rightarrow> None),
       r_FinalMessage = xf_message f, r_FinalMessageTruncated = (xf_message f \<noteq> None \<and> xf_truncated f), r_OutputBytes = e, r_LogIncomplete = inc,
       r_CounterOverflow = ovf, r_StopID = None, r_Workspace = None, r_Digest = ''''\<rparr>)"

definition lost_result :: "exitFacts \<Rightarrow> TaskResultBody \<Rightarrow> TaskResultBody" where
  "lost_result f b = (case xf_ctl f of None \<Rightarrow> b\<lparr>r_Outcome := OutcomeLost\<rparr> | Some c \<Rightarrow> b\<lparr>r_Outcome := OutcomeLost, r_StopID := Some (s_ID c)\<rparr>)"

definition supervised_result :: "exitFacts \<Rightarrow> TaskResultBody \<Rightarrow> TaskResultBody" where
  "supervised_result f b =
     (if xf_cause f = CauseCancelled \<or> (xf_cause f = NoCause \<and> xf_exit f = None \<and> xf_ctl f \<noteq> None)
      then (if \<not> xf_gone f then lost_result f b
            else b\<lparr>r_Outcome := OutcomeCancelled,
                   r_StopID := (case xf_causeID f of Some i \<Rightarrow> Some i | None \<Rightarrow> map_option s_ID (xf_ctl f))\<rparr>)
      else if xf_cause f = CauseTimedOut
      then (if \<not> xf_gone f then lost_result f b
            else if xf_started f = None then lost_result f b
            else b\<lparr>r_Outcome := OutcomeTimedOut\<rparr>)
      else if xf_exit f = None then lost_result f b
      else if xf_interrupted f \<or> xf_cause f = CauseLost then lost_result f b
      else b)"

definition workspaceLost :: "(TaskResultBody \<Rightarrow> string) \<Rightarrow> WorkspaceBinding option \<Rightarrow> TaskResultBody \<Rightarrow> TaskResultBody" where
  "workspaceLost dg bd res = Sealed dg (case bd of None \<Rightarrow> res | Some b \<Rightarrow> res\<lparr>r_Workspace := Some (NewNotApplicable b)\<rparr>)"

definition workspaceCancelled :: "(TaskResultBody \<Rightarrow> string) \<Rightarrow> WorkspaceBinding option \<Rightarrow> TaskResultBody \<Rightarrow> TaskResultBody" where
  "workspaceCancelled dg bd res = Sealed dg
     (case bd of None \<Rightarrow> res
      | Some b \<Rightarrow> res\<lparr>r_Workspace := Some (if r_Outcome res = OutcomeLost then NewNotApplicable b else NewNotStarted b)\<rparr>)"

text \<open>
  The final outcome of a workspace execution (\<open>finalizeWorkspace\<close>). The snapshot ends with the result tree, an error code
  or the Run's shutdown (\<open>None\<close>); \<open>pub\<close> runs the checkpointed publication of the sealed candidate, \<open>None\<close> for a shutdown.
\<close>

definition finalizeWorkspace :: "(TaskResultBody \<Rightarrow> string) \<Rightarrow> WorkspaceBinding \<Rightarrow> bool \<Rightarrow> instant option \<Rightarrow> (string + string) option
    \<Rightarrow> (TaskResultBody \<Rightarrow> string \<Rightarrow> TaskResultBody option) \<Rightarrow> TaskResultBody \<Rightarrow> TaskResultBody option" where
  "finalizeWorkspace dg b gone started snap pub res =
     (if \<not> gone \<or> r_Outcome res = OutcomeLost then Some (Sealed dg (res\<lparr>r_Workspace := Some (NewNotApplicable b)\<rparr>))
      else if started = None then Some (Sealed dg (res\<lparr>r_Workspace := Some (NewNotStarted b)\<rparr>))
      else (case snap of
          None \<Rightarrow> None
        | Some (Inl code) \<Rightarrow> Some (Sealed dg (res\<lparr>r_Workspace := Some (NewPublicationFailed b code)\<rparr>))
        | Some (Inr tree) \<Rightarrow> pub (Sealed dg res) tree))"

definition final_outcome :: "(TaskResultBody \<Rightarrow> string) \<Rightarrow> WorkspaceBinding option \<Rightarrow> exitFacts \<Rightarrow> (string + string) option
    \<Rightarrow> (TaskResultBody \<Rightarrow> string \<Rightarrow> TaskResultBody option) \<Rightarrow> TaskResultBody \<Rightarrow> TaskResultBody option" where
  "final_outcome dg bd f snap pub b =
     (let res = supervised_result f b in
      case bd of None \<Rightarrow> Some (Sealed dg res) | Some w \<Rightarrow> finalizeWorkspace dg w (xf_gone f) (xf_started f) snap pub res)"

text \<open>A cancellation that prevented any adapter, the group's absence proved or not.\<close>

definition cancelBeforeStart :: "(TaskResultBody \<Rightarrow> string) \<Rightarrow> string \<Rightarrow> ExecutionToken \<Rightarrow> WorkspaceBinding option \<Rightarrow> StopIntent \<Rightarrow> bool \<Rightarrow> TaskResultBody" where
  "cancelBeforeStart dg i tok bd c gone = workspaceCancelled dg bd
     \<lparr>r_TaskID = i, r_Execution = tok, r_Outcome = (if gone then OutcomeCancelled else OutcomeLost), r_ExitCode = None, r_Signal = None,
      r_FinalMessage = None, r_FinalMessageTruncated = False, r_OutputBytes = 0, r_LogIncomplete = False, r_CounterOverflow = False,
      r_StopID = Some (s_ID c), r_Workspace = None, r_Digest = ''''\<rparr>"

subsection \<open>The frozen document\<close>

record workerStart =
  ws_TaskID :: string
  ws_Execution :: ExecutionToken
  ws_Digest :: string
  ws_Role :: RoleRecord
  ws_Effective :: TaskEffective
  ws_Workspace :: "WorkspaceBinding option"
  ws_runtimeDir :: string

definition journalOf :: "workerStart \<Rightarrow> StopIntent option \<Rightarrow> journal_phase \<Rightarrow> string option \<Rightarrow> ExecutionJournal" where
  "journalOf w ctl ph nonce = \<lparr>xj_TaskID = ws_TaskID w, xj_Execution = ws_Execution w, xj_StartDigest = ws_Digest w, xj_Role = ws_Role w,
     xj_Effective = ws_Effective w, xj_TimeoutPolicy = TimeoutPolicyEnforced, xj_OwnerNonce = nonce, xj_Phase = ph, xj_StopIntent = ctl,
     xj_StartedAt = None, xj_Result = None, xj_Log = emptyLog, xj_Work = True, xj_Workspace = ws_Workspace w,
     xj_RuntimeDir = (if ws_runtimeDir w \<noteq> '''' then Some (ws_runtimeDir w) else None), xj_Schema = 3\<rparr>"

definition frozen_journal :: "workerStart \<Rightarrow> StopIntent option \<Rightarrow> instant option \<Rightarrow> outputRing \<Rightarrow> TaskResultBody \<Rightarrow> ExecutionJournal" where
  "frozen_journal w ctl started r res =
     (journalOf w ctl (if r_Outcome res = OutcomeLost then JournalLost else JournalCompleted) None)
       \<lparr>xj_StartedAt := started, xj_Result := Some res, xj_Log := journalLog r\<rparr>"

subsection \<open>Recovery\<close>

text \<open>
  A restart's decision for one journal without a publication checkpoint: a frozen outcome is replayed as it is,
  anything else is resolved lost in a journal that keeps the durable tail.
\<close>

definition recovered_result :: "journalEnv \<Rightarrow> ExecutionJournal \<Rightarrow> TaskResultBody" where
  "recovered_result env j = workspaceLost (je_digest env) (xj_Workspace j)
     \<lparr>r_TaskID = xj_TaskID j, r_Execution = xj_Execution j, r_Outcome = OutcomeLost, r_ExitCode = None, r_Signal = None, r_FinalMessage = None,
      r_FinalMessageTruncated = False, r_OutputBytes = SourceBytes (xj_Log j), r_LogIncomplete = True, r_CounterOverflow = CounterOverflow (xj_Log j),
      r_StopID = map_option s_ID (xj_StopIntent j), r_Workspace = None, r_Digest = ''''\<rparr>"

definition recover_journal :: "journalEnv \<Rightarrow> ExecutionJournal \<Rightarrow> ExecutionJournal" where
  "recover_journal env j =
     (if xj_Phase j = JournalPrepared \<or> xj_Phase j = JournalRunning
      then j\<lparr>xj_Phase := JournalLost, xj_Result := Some (recovered_result env j), xj_Schema := 3\<rparr> else j)"

subsection \<open>Which documents load\<close>

text \<open>What the model needs of the result digest: 64 hexadecimal digits that do not depend on the digest field.\<close>

definition digest_ok :: "(TaskResultBody \<Rightarrow> string) \<Rightarrow> bool" where
  "digest_ok dg \<longleftrightarrow> (\<forall>r. ValidDigest (dg r)) \<and> (\<forall>r d. dg (r\<lparr>r_Digest := d\<rparr>) = dg r)"

text \<open>A result before it is sealed, and the workspace part it may carry.\<close>

definition body_ok :: "TaskResultBody \<Rightarrow> bool" where
  "body_ok b \<longleftrightarrow> ValidTaskID (r_TaskID b) \<and> validOutcome (r_Outcome b)
     \<and> (r_Outcome b = OutcomeNatural \<longrightarrow> (r_ExitCode b = None) \<noteq> (r_Signal b = None)) \<and> (r_ExitCode b = None \<or> r_Signal b = None)
     \<and> (\<forall>x. r_ExitCode b = Some x \<longrightarrow> 0 \<le> x \<and> x \<le> 255) \<and> (\<forall>s. r_Signal b = Some s \<longrightarrow> ValidWireSignal s)
     \<and> (\<forall>i. r_StopID b = Some i \<longrightarrow> ValidStopID i \<and> r_Outcome b \<noteq> OutcomeNatural \<and> r_Outcome b \<noteq> OutcomeTimedOut)
     \<and> 0 \<le> r_OutputBytes b \<and> r_OutputBytes b \<le> MaxSafeInteger
     \<and> checkFinalMessage (r_FinalMessage b) (r_FinalMessageTruncated b) = Inr ()"

definition dto_ok :: "(TaskWorkspaceResult \<Rightarrow> nat) \<Rightarrow> TaskResultBody \<Rightarrow> bool" where
  "dto_ok el b \<longleftrightarrow> (\<forall>w. r_Workspace b = Some w \<longrightarrow> TaskWorkspaceResult_Validate el w = Inr ()
     \<and> (r_Outcome b = OutcomeLost \<longrightarrow> w_Publication w = PublicationNotApplicable))"

lemma sealed_valid:
  assumes "digest_ok dg" and "body_ok b" and "dto_ok el b"
  shows "TaskResultBody_Validate dg el (Sealed dg b) = Inr ()"
proof -
  have d: "ValidDigest (dg b)" "dg (b\<lparr>r_Digest := dg b\<rparr>) = dg b" using assms(1) by (auto simp: digest_ok_def)
  show ?thesis using assms(2,3) d
    by (auto simp: TaskResultBody_Validate_def Sealed_def body_ok_def dto_ok_def firstErr_ok_iff split: option.splits)
qed

lemma dto_new:
  assumes "WorkspaceBinding_Validate b = Inr ()" and "el (NewNotApplicable b) \<le> MaxWorkspaceDTOBytes"
  shows "TaskWorkspaceResult_Validate el (NewNotApplicable b) = Inr ()"
  using assms by (auto simp: WorkspaceBinding_Validate_def TaskWorkspaceResult_Validate_def NewNotApplicable_def firstErr_ok_iff
      check_publication_def split: if_splits option.splits)

lemma journal_ids_iff: "journal_ids j = Inr () \<longleftrightarrow> ValidTaskID (xj_TaskID j) \<and> ValidDigest (xj_StartDigest j) \<and> (\<forall>n. xj_OwnerNonce j = Some n \<longrightarrow> ValidNonce n)"
  by (auto simp: journal_ids_def split: option.split)

lemma checked_Inr [simp]: "checked c j = Inr j' \<longleftrightarrow> c = Inr () \<and> j' = j"
  by (auto simp: checked_def split: sum.splits)

lemma norm_idem: "norm_schema1 (norm_schema1 j) = norm_schema1 j" "norm_schema2 (norm_schema2 j) = norm_schema2 j"
  "xj_Schema (norm_schema1 j) = xj_Schema j" "xj_Schema (norm_schema2 j) = xj_Schema j"
  by (simp_all add: norm_schema1_def norm_schema2_def option.map_comp comp_def)

text \<open>The checks every accepted journal passed, and a parse of what was parsed.\<close>

lemma norm_nothing: "xj_Workspace (norm_schema1 j) = None \<and> xj_RuntimeDir (norm_schema1 j) = None" "xj_Workspace (norm_schema2 j) = None \<and> xj_RuntimeDir (norm_schema2 j) = None"
  by (simp_all add: norm_schema1_def norm_schema2_def)

lemma parse_schema:
  "xj_Schema j0 = 1 \<Longrightarrow> ParseExecutionJournal env j0 = checked (firstErr [decode_nested env (norm_schema1 j0), schema1_check (norm_schema1 j0), journal_checks env (norm_schema1 j0)]) (norm_schema1 j0)"
  "xj_Schema j0 = 2 \<Longrightarrow> ParseExecutionJournal env j0 = checked (firstErr [decode_nested env (norm_schema2 j0), schema2_check (norm_schema2 j0), journal_checks env (norm_schema2 j0)]) (norm_schema2 j0)"
  "xj_Schema j0 = 3 \<Longrightarrow> ParseExecutionJournal env j0 = checked (firstErr [decode_nested env j0, schema3_check j0, journal_checks env j0]) j0"
  "xj_Schema j0 \<noteq> 1 \<Longrightarrow> xj_Schema j0 \<noteq> 2 \<Longrightarrow> xj_Schema j0 \<noteq> 3 \<Longrightarrow> ParseExecutionJournal env j0 = errInvalid"
  by (simp_all add: ParseExecutionJournal_def Let_def)

lemma parsed_checks:
  assumes "ParseExecutionJournal env j0 = Inr j"
  shows "decode_nested env j = Inr () \<and> journal_checks env j = Inr () \<and> ParseExecutionJournal env j = Inr j
    \<and> (xj_Schema j = 3 \<longrightarrow> schema3_check j = Inr ()) \<and> (xj_Schema j \<noteq> 3 \<longrightarrow> xj_Workspace j = None \<and> xj_RuntimeDir j = None)"
proof -
  have "xj_Schema j0 = 1 \<or> xj_Schema j0 = 2 \<or> xj_Schema j0 = 3" using assms parse_schema(4) by fastforce
  then consider "xj_Schema j0 = 1" | "xj_Schema j0 = 2" | "xj_Schema j0 = 3" by blast
  then show ?thesis
  proof cases
    case 1
    with assms have c: "firstErr [decode_nested env j, schema1_check j, journal_checks env j] = Inr ()" "j = norm_schema1 j0"
      by (simp_all add: parse_schema(1))
    then have "xj_Schema j = 1" "norm_schema1 j = j" using 1 by (simp_all add: norm_idem)
    then show ?thesis using c norm_nothing(1) [of j0] by (simp add: parse_schema(1) firstErr_ok_iff)
  next
    case 2
    with assms have c: "firstErr [decode_nested env j, schema2_check j, journal_checks env j] = Inr ()" "j = norm_schema2 j0"
      by (simp_all add: parse_schema(2))
    then have "xj_Schema j = 2" "norm_schema2 j = j" using 2 by (simp_all add: norm_idem)
    then show ?thesis using c norm_nothing(2) [of j0] by (simp add: parse_schema(2) firstErr_ok_iff)
  next
    case 3
    with assms show ?thesis by (simp add: parse_schema(3) firstErr_ok_iff)
  qed
qed

lemma recovered_fields:
  "r_TaskID (recovered_result env j) = xj_TaskID j" "r_Execution (recovered_result env j) = xj_Execution j"
  "r_Outcome (recovered_result env j) = OutcomeLost" "r_StopID (recovered_result env j) = map_option s_ID (xj_StopIntent j)"
  "r_OutputBytes (recovered_result env j) = SourceBytes (xj_Log j)"
  "r_Workspace (recovered_result env j) = map_option NewNotApplicable (xj_Workspace j)"
  by (simp_all add: recovered_result_def workspaceLost_def Sealed_def split: option.split)

lemma recovered_valid:
  assumes "digest_ok (je_digest env)" and "decode_nested env j = Inr ()" and "journal_checks env j = Inr ()"
    and small: "\<And>b. xj_Workspace j = Some b \<Longrightarrow> je_dtoLen env (NewNotApplicable b) \<le> MaxWorkspaceDTOBytes"
  shows "TaskResultBody_Validate (je_digest env) (je_dtoLen env) (recovered_result env j) = Inr ()"
proof -
  let ?b = "\<lparr>r_TaskID = xj_TaskID j, r_Execution = xj_Execution j, r_Outcome = OutcomeLost, r_ExitCode = None, r_Signal = None, r_FinalMessage = None,
      r_FinalMessageTruncated = False, r_OutputBytes = SourceBytes (xj_Log j), r_LogIncomplete = True, r_CounterOverflow = CounterOverflow (xj_Log j),
      r_StopID = map_option s_ID (xj_StopIntent j), r_Workspace = None, r_Digest = ''''\<rparr>"
  let ?c = "?b\<lparr>r_Workspace := map_option NewNotApplicable (xj_Workspace j)\<rparr>"
  have e: "recovered_result env j = Sealed (je_digest env) ?c"
    by (simp add: recovered_result_def workspaceLost_def split: option.split)
  have "journal_ids j = Inr ()" "TaskLog_Validate (xj_Log j) = Inr ()" using assms(3) by (simp_all add: journal_checks_def firstErr_ok_iff)
  then have i: "ValidTaskID (xj_TaskID j)" "log_valid (xj_Log j)" by (auto simp: journal_ids_def TaskLog_Validate_iff split: if_splits)
  have s: "ValidStopID (s_ID x)" if "xj_StopIntent j = Some x" for x
    using assms(2) that by (auto simp: decode_nested_def firstErr_ok_iff StopIntent_Validate_def split: if_splits)
  have "body_ok ?c" using i s by (auto simp: body_ok_def validOutcome_def checkFinalMessage_def log_valid_def)
  moreover have "dto_ok (je_dtoLen env) ?c"
    using assms(2) small dto_new by (auto simp: dto_ok_def decode_nested_def firstErr_ok_iff) (simp add: NewNotApplicable_def)
  ultimately show ?thesis unfolding e using sealed_valid [OF assms(1)] by blast
qed

lemma recovered_nested:
  assumes "decode_nested env j = Inr ()" and "xj_Result k = Some r" and "r_Execution r = xj_Execution j"
    and "\<And>w. r_Workspace r = Some w \<Longrightarrow> TaskWorkspaceResult_Validate (je_dtoLen env) w = Inr ()"
    and "xj_Execution k = xj_Execution j" "xj_Effective k = xj_Effective j" "xj_StopIntent k = xj_StopIntent j" "xj_Workspace k = xj_Workspace j"
  shows "decode_nested env k = Inr ()"
proof -
  have "ExecutionToken_ok (xj_Execution j)" using assms(1) by (auto simp: decode_nested_def firstErr_ok_iff split: if_splits)
  moreover have "(case r_Workspace r of None \<Rightarrow> Inr () | Some w \<Rightarrow> TaskWorkspaceResult_Validate (je_dtoLen env) w) = Inr ()"
    using assms(4) by (simp split: option.split)
  ultimately show ?thesis using assms by (simp add: decode_nested_def firstErr_ok_iff)
qed

text \<open>A document with a matching sealed result loads.\<close>

lemma terminal_journal_loads:
  assumes "decode_nested env k = Inr ()" "xj_Schema k = 3" "schema3_check k = Inr ()" "journal_ids k = Inr ()"
    and "parseRoleRecordObject (je_roleLen env) (je_lookup env) (xj_Role k) = Inr ()"
    and "CheckEffort (c_Adapter (r_Config (xj_Role k))) (ef_Effort (xj_Effective k)) (je_lookup env) = Inr ()"
    and "TaskLog_Validate (xj_Log k) = Inr ()"
    and r: "xj_Result k = Some r" "xj_Phase k = (if r_Outcome r = OutcomeLost then JournalLost else JournalCompleted)"
      "r_TaskID r = xj_TaskID k" "r_Execution r = xj_Execution k" "TaskResultBody_Validate (je_digest env) (je_dtoLen env) r = Inr ()"
    and "r_Outcome r = OutcomeTimedOut \<Longrightarrow> xj_StartedAt k \<noteq> None"
    and "\<And>i. r_StopID r = Some i \<Longrightarrow> \<exists>s. xj_StopIntent k = Some s \<and> s_ID s = i"
  shows "ParseExecutionJournal env k = Inr k"
proof -
  have "\<not> (case r_StopID r of None \<Rightarrow> False | Some i \<Rightarrow> (case xj_StopIntent k of None \<Rightarrow> True | Some s \<Rightarrow> s_ID s \<noteq> i))"
    using assms(14) by (auto split: option.split)
  moreover have "\<not> (r_Outcome r = OutcomeTimedOut \<and> xj_StartedAt k = None)" using assms(13) by blast
  ultimately have "phase_check env k = Inr ()" using r by (simp add: phase_check_def)
  then have "journal_checks env k = Inr ()" using assms(4-7) by (simp add: journal_checks_def firstErr_ok_iff)
  then show ?thesis using assms(1-3) by (simp add: parse_schema(3) firstErr_ok_iff)
qed

lemma schema3_terminal:
  assumes "xj_Result k = Some r" and "xj_Workspace k \<noteq> None \<Longrightarrow> xj_Work k"
    and "\<And>d. xj_RuntimeDir k = Some d \<Longrightarrow> xj_Workspace k \<noteq> None \<and> ValidRuntimeDir d"
    and "\<And>b. xj_Workspace k = Some b \<Longrightarrow> WorkspaceBinding_Validate b = Inr ()
      \<and> (\<exists>w. r_Workspace r = Some w \<and> w_Name w = b_Name b \<and> w_Instance w = b_Instance b \<and> w_BaseCommit w = b_BaseCommit b)"
    and "xj_Workspace k = None \<Longrightarrow> r_Workspace r = None"
  shows "schema3_check k = Inr ()"
proof (cases "xj_Workspace k")
  case None
  then have "xj_RuntimeDir k = None" using assms(3) by (cases "xj_RuntimeDir k") auto
  then show ?thesis using None assms(1,5) by (simp add: schema3_check_def)
next
  case (Some b)
  then have "\<not> (case xj_RuntimeDir k of None \<Rightarrow> False | Some d \<Rightarrow> xj_Workspace k = None \<or> \<not> ValidRuntimeDir d)"
    using assms(3) by (auto split: option.split)
  moreover obtain w where "r_Workspace r = Some w" "w_Name w = b_Name b" "w_Instance w = b_Instance b" "w_BaseCommit w = b_BaseCommit b"
    using assms(4) Some by blast
  ultimately show ?thesis using Some assms(1,2,4) by (simp add: schema3_check_def sameHash_def)
qed



subsection \<open>The frozen outcome\<close>

text \<open>What the exit reports: a wait status in range, the guardian's cause naming the latched stop, a bounded message.\<close>

definition facts_ok :: "exitFacts \<Rightarrow> bool" where
  "facts_ok f \<longleftrightarrow> (\<forall>c. xf_exit f = Some (Inl c) \<longrightarrow> 0 \<le> c \<and> c \<le> 255) \<and> (\<forall>s. xf_exit f = Some (Inr s) \<longrightarrow> ValidWireSignal s)
     \<and> (\<forall>c. xf_ctl f = Some c \<longrightarrow> StopIntent_Validate c = Inr ()) \<and> (\<forall>i. xf_causeID f = Some i \<longrightarrow> (\<exists>c. xf_ctl f = Some c \<and> s_ID c = i))
     \<and> (\<forall>m. xf_message f = Some m \<longrightarrow> ValidString m \<and> length m \<le> MaxFinalMessageBytes)"

lemma supervised_cases:
  obtains (lost) "supervised_result f b = lost_result f b"
  | (cancelled) "supervised_result f b = b\<lparr>r_Outcome := OutcomeCancelled, r_StopID := (case xf_causeID f of Some i \<Rightarrow> Some i | None \<Rightarrow> map_option s_ID (xf_ctl f))\<rparr>"
  | (timedOut) "supervised_result f b = b\<lparr>r_Outcome := OutcomeTimedOut\<rparr>" "xf_started f \<noteq> None"
  | (natural) "supervised_result f b = b" "xf_exit f \<noteq> None"
proof -
  have "supervised_result f b = lost_result f b
    \<or> supervised_result f b = b\<lparr>r_Outcome := OutcomeCancelled, r_StopID := (case xf_causeID f of Some i \<Rightarrow> Some i | None \<Rightarrow> map_option s_ID (xf_ctl f))\<rparr>
    \<or> (supervised_result f b = b\<lparr>r_Outcome := OutcomeTimedOut\<rparr> \<and> xf_started f \<noteq> None) \<or> (supervised_result f b = b \<and> xf_exit f \<noteq> None)"
    by (simp only: supervised_result_def split: if_split) blast
  then show thesis using that by blast
qed

lemma base_fields:
  "r_TaskID (base_result i tok r f) = i" "r_Execution (base_result i tok r f) = tok" "r_Outcome (base_result i tok r f) = OutcomeNatural"
  "r_ExitCode (base_result i tok r f) = (case xf_exit f of Some (Inl c) \<Rightarrow> Some c | _ \<Rightarrow> None)"
  "r_Signal (base_result i tok r f) = (case xf_exit f of Some (Inr s) \<Rightarrow> Some s | _ \<Rightarrow> None)"
  "r_FinalMessage (base_result i tok r f) = xf_message f" "r_FinalMessageTruncated (base_result i tok r f) = (xf_message f \<noteq> None \<and> xf_truncated f)"
  "r_OutputBytes (base_result i tok r f) = or_end r" "r_StopID (base_result i tok r f) = None" "r_Workspace (base_result i tok r f) = None"
  by (simp_all add: base_result_def totals_def)

lemma supervised_ok:
  fixes tok :: ExecutionToken
  assumes F: "facts_ok f" and i: "ValidTaskID i" and r: "0 \<le> or_end r" "or_end r \<le> MaxSafeInteger"
  defines "res \<equiv> supervised_result f (base_result i tok r f)"
  shows "body_ok res \<and> r_TaskID res = i \<and> r_Execution res = tok \<and> r_Workspace res = None \<and> (r_Outcome res = OutcomeTimedOut \<longrightarrow> xf_started f \<noteq> None)
    \<and> (\<forall>x. r_StopID res = Some x \<longrightarrow> (\<exists>c. xf_ctl f = Some c \<and> s_ID c = x))"
proof -
  let ?b = "base_result i tok r f"
  have m: "checkFinalMessage (xf_message f) (xf_message f \<noteq> None \<and> xf_truncated f) = Inr ()"
    using F by (auto simp: checkFinalMessage_def facts_ok_def split: option.split)
  have stop: "ValidStopID (s_ID c)" if "xf_ctl f = Some c" for c
    using F that by (auto simp: facts_ok_def StopIntent_Validate_def split: if_splits)
  have ex: "r_ExitCode ?b = None \<or> r_Signal ?b = None" "\<And>x. r_ExitCode ?b = Some x \<Longrightarrow> 0 \<le> x \<and> x \<le> 255" "\<And>s. r_Signal ?b = Some s \<Longrightarrow> ValidWireSignal s"
    "xf_exit f \<noteq> None \<Longrightarrow> (r_ExitCode ?b = None) \<noteq> (r_Signal ?b = None)"
    using F by (auto simp: base_fields facts_ok_def split: option.splits sum.splits)
  show ?thesis
  proof (cases rule: supervised_cases [of f ?b])
    case lost
    have "res = ?b\<lparr>r_Outcome := OutcomeLost, r_StopID := map_option s_ID (xf_ctl f)\<rparr>"
      unfolding res_def lost lost_result_def by (cases "xf_ctl f") (simp_all add: base_result_def totals_def)
    then show ?thesis using m ex(1-3) stop i r by (auto simp: body_ok_def validOutcome_def base_fields(1-3,6-10))
  next
    case cancelled
    have "\<exists>c. xf_ctl f = Some c \<and> s_ID c = x" if "(case xf_causeID f of Some i \<Rightarrow> Some i | None \<Rightarrow> map_option s_ID (xf_ctl f)) = Some x" for x
      using F that by (auto simp: facts_ok_def split: option.splits)
    then show ?thesis using m ex(1-3) stop i r unfolding res_def cancelled by (auto simp: body_ok_def validOutcome_def base_fields(1-3,6-10))
  next
    case timedOut
    then show ?thesis using m ex(1-3) stop i r by (auto simp: res_def body_ok_def validOutcome_def base_fields(1-3,6-10))
  next
    case natural
    then show ?thesis using m ex stop i r unfolding res_def natural(1) by (simp add: body_ok_def validOutcome_def base_fields(1-3,6-10))
  qed
qed


text \<open>
  The workspace results a binding fixes: the worker's own, and what a publication may return, which keeps the sealed candidate
  and adds a valid result of the same binding.
\<close>

definition dto_for :: "(TaskWorkspaceResult \<Rightarrow> nat) \<Rightarrow> WorkspaceBinding \<Rightarrow> TaskWorkspaceResult \<Rightarrow> bool" where
  "dto_for el b d \<longleftrightarrow> TaskWorkspaceResult_Validate el d = Inr () \<and> w_Name d = b_Name b \<and> w_Instance d = b_Instance b \<and> w_BaseCommit d = b_BaseCommit b"

definition small_dtos :: "(TaskWorkspaceResult \<Rightarrow> nat) \<Rightarrow> WorkspaceBinding \<Rightarrow> bool" where
  "small_dtos el b \<longleftrightarrow> (\<forall>d \<in> {NewNotApplicable b, NewNotStarted b} \<union> NewPublicationFailed b ` set PublicationErrors. el d \<le> MaxWorkspaceDTOBytes)"

definition keeps_candidate :: "journalEnv \<Rightarrow> WorkspaceBinding \<Rightarrow> (TaskResultBody \<Rightarrow> string \<Rightarrow> TaskResultBody option) \<Rightarrow> bool" where
  "keeps_candidate env b pub \<longleftrightarrow> (\<forall>c t q. pub c t = Some q \<longrightarrow> (\<exists>d. q = Sealed (je_digest env) (c\<lparr>r_Workspace := Some d\<rparr>) \<and> dto_for (je_dtoLen env) b d))"

lemma dto_for_new:
  assumes "WorkspaceBinding_Validate b = Inr ()" and "small_dtos el b"
  shows "dto_for el b (NewNotApplicable b)" "dto_for el b (NewNotStarted b)" "ValidPublicationError c \<Longrightarrow> dto_for el b (NewPublicationFailed b c)"
proof -
  have l: "el (NewNotApplicable b) \<le> MaxWorkspaceDTOBytes" "el (NewNotStarted b) \<le> MaxWorkspaceDTOBytes"
    "ValidPublicationError c \<Longrightarrow> el (NewPublicationFailed b c) \<le> MaxWorkspaceDTOBytes"
    using assms(2) by (auto simp: small_dtos_def ValidPublicationError_def list_ex_iff)
  have g: "ValidWorkspaceName (b_Name b)" "ValidWorkspaceToken (b_Instance b)" "\<not> (case b_BaseCommit b of None \<Rightarrow> False | Some c \<Rightarrow> \<not> ValidCommitHash c)"
    using assms(1) by (auto simp: WorkspaceBinding_Validate_def split: if_splits)
  note rules = dto_for_def TaskWorkspaceResult_Validate_def firstErr_ok_iff check_publication_def NewNotApplicable_def
  show "dto_for el b (NewNotApplicable b)" using g l(1) by (simp add: rules)
  show "dto_for el b (NewNotStarted b)" using g l(2) by (simp add: rules NewNotStarted_def)
  show "dto_for el b (NewPublicationFailed b c)" if "ValidPublicationError c" using g l(3) that by (simp add: rules NewPublicationFailed_def)
qed

text \<open>The final outcome is the supervised one, sealed, with a workspace result exactly for a workspace task.\<close>

lemma final_outcome_shape:
  assumes F: "final_outcome (je_digest env) bd f snap pub b = Some fin" and dg: "digest_ok (je_digest env)"
    and B: "\<And>w. bd = Some w \<Longrightarrow> WorkspaceBinding_Validate w = Inr () \<and> small_dtos (je_dtoLen env) w \<and> keeps_candidate env w pub"
    and snap: "\<And>c. snap = Some (Inl c) \<Longrightarrow> ValidPublicationError c" and none: "r_Workspace (supervised_result f b) = None"
  shows "\<exists>x. fin = Sealed (je_digest env) ((supervised_result f b)\<lparr>r_Workspace := x\<rparr>) \<and> (bd = None \<longleftrightarrow> x = None)
    \<and> (\<forall>w d. bd = Some w \<longrightarrow> x = Some d \<longrightarrow> dto_for (je_dtoLen env) w d)
    \<and> (\<forall>d. x = Some d \<longrightarrow> r_Outcome (supervised_result f b) = OutcomeLost \<longrightarrow> w_Publication d = PublicationNotApplicable)"
proof (cases bd)
  case None
  have "(supervised_result f b)\<lparr>r_Workspace := None\<rparr> = supervised_result f b" using none by (cases "supervised_result f b") simp
  then have "fin = Sealed (je_digest env) ((supervised_result f b)\<lparr>r_Workspace := None\<rparr>)" using F None by (simp add: final_outcome_def)
  then show ?thesis using None by blast
next
  case (Some w)
  let ?res = "supervised_result f b" and ?dg = "je_digest env"
  have W: "WorkspaceBinding_Validate w = Inr ()" "small_dtos (je_dtoLen env) w" "keeps_candidate env w pub" using B Some by auto
  note new = dto_for_new [OF W(1,2)]
  have fw: "finalizeWorkspace ?dg w (xf_gone f) (xf_started f) snap pub ?res = Some fin" using F Some by (simp add: final_outcome_def)
  have seal: "Sealed ?dg ((Sealed ?dg c)\<lparr>r_Workspace := x\<rparr>) = Sealed ?dg (c\<lparr>r_Workspace := x\<rparr>)" for c x
  proof -
    have "(c\<lparr>r_Digest := ?dg c\<rparr>)\<lparr>r_Workspace := x\<rparr> = (c\<lparr>r_Workspace := x\<rparr>)\<lparr>r_Digest := ?dg c\<rparr>" by simp
    then have "?dg ((c\<lparr>r_Digest := ?dg c\<rparr>)\<lparr>r_Workspace := x\<rparr>) = ?dg (c\<lparr>r_Workspace := x\<rparr>)" using dg unfolding digest_ok_def by presburger
    then show ?thesis by (simp add: Sealed_def)
  qed
  have "\<exists>d. fin = Sealed ?dg (?res\<lparr>r_Workspace := Some d\<rparr>) \<and> dto_for (je_dtoLen env) w d
    \<and> (r_Outcome ?res = OutcomeLost \<longrightarrow> w_Publication d = PublicationNotApplicable)"
  proof (cases "\<not> xf_gone f \<or> r_Outcome ?res = OutcomeLost")
    case True
    then have "fin = Sealed ?dg (?res\<lparr>r_Workspace := Some (NewNotApplicable w)\<rparr>)" using fw by (simp add: finalizeWorkspace_def)
    moreover have "w_Publication (NewNotApplicable w) = PublicationNotApplicable" by (simp add: NewNotApplicable_def)
    ultimately show ?thesis using new(1) by blast
  next
    case False
    then have "\<exists>d. fin = Sealed ?dg (?res\<lparr>r_Workspace := Some d\<rparr>) \<and> dto_for (je_dtoLen env) w d"
      using fw new(2,3) snap W(3) seal by (fastforce simp: finalizeWorkspace_def keeps_candidate_def split: if_splits option.splits sum.splits)
    then show ?thesis using False by blast
  qed
  then show ?thesis using Some by blast
qed


lemma ring_totals: "delivery m s r l \<Longrightarrow> 0 \<le> or_end r \<and> or_end r \<le> MaxSafeInteger"
  using delivery_inv [of m s r l] by (auto simp: delivery_inv_def ring_at_def)

text \<open>What the final outcome of an execution satisfies, whichever way it came about.\<close>

definition outcome_for :: "journalEnv \<Rightarrow> workerStart \<Rightarrow> exitFacts \<Rightarrow> TaskResultBody \<Rightarrow> bool" where
  "outcome_for env w f fin \<longleftrightarrow> TaskResultBody_Validate (je_digest env) (je_dtoLen env) fin = Inr () \<and> r_TaskID fin = ws_TaskID w \<and> r_Execution fin = ws_Execution w
     \<and> (r_Outcome fin = OutcomeTimedOut \<longrightarrow> xf_started f \<noteq> None) \<and> (\<forall>x. r_StopID fin = Some x \<longrightarrow> (\<exists>c. xf_ctl f = Some c \<and> s_ID c = x))
     \<and> (ws_Workspace w = None \<longleftrightarrow> r_Workspace fin = None) \<and> (\<forall>b d. ws_Workspace w = Some b \<longrightarrow> r_Workspace fin = Some d \<longrightarrow> dto_for (je_dtoLen env) b d)"

lemma body_ok_workspace: "body_ok (b\<lparr>r_Workspace := x\<rparr>) = body_ok b"
  by (simp add: body_ok_def)

lemma final_outcome_for:
  assumes D: "digest_ok (je_digest env)" and F: "facts_ok f" and id: "ValidTaskID (ws_TaskID w)" and ring: "delivery m s r l"
    and B: "\<And>b. ws_Workspace w = Some b \<Longrightarrow> WorkspaceBinding_Validate b = Inr () \<and> small_dtos (je_dtoLen env) b \<and> keeps_candidate env b pub"
    and snap: "\<And>c. snap = Some (Inl c) \<Longrightarrow> ValidPublicationError c"
    and fin: "final_outcome (je_digest env) (ws_Workspace w) f snap pub (base_result (ws_TaskID w) (ws_Execution w) r f) = Some fin"
  shows "outcome_for env w f fin"
proof -
  let ?res = "supervised_result f (base_result (ws_TaskID w) (ws_Execution w) r f)" and ?dg = "je_digest env"
  have R: "body_ok ?res \<and> r_TaskID ?res = ws_TaskID w \<and> r_Execution ?res = ws_Execution w \<and> r_Workspace ?res = None \<and> (r_Outcome ?res = OutcomeTimedOut \<longrightarrow> xf_started f \<noteq> None)
    \<and> (\<forall>x. r_StopID ?res = Some x \<longrightarrow> (\<exists>c. xf_ctl f = Some c \<and> s_ID c = x))"
    using supervised_ok [OF F id] ring_totals [OF ring] by blast
  then have none: "r_Workspace ?res = None" by blast
  obtain x where x: "fin = Sealed ?dg (?res\<lparr>r_Workspace := x\<rparr>)" "ws_Workspace w = None \<longleftrightarrow> x = None"
    and d: "\<forall>b d. ws_Workspace w = Some b \<longrightarrow> x = Some d \<longrightarrow> dto_for (je_dtoLen env) b d"
    and l: "\<forall>d. x = Some d \<longrightarrow> r_Outcome ?res = OutcomeLost \<longrightarrow> w_Publication d = PublicationNotApplicable"
    using final_outcome_shape [OF fin D B snap none] by auto
  have "dto_ok (je_dtoLen env) (?res\<lparr>r_Workspace := x\<rparr>)"
    using x(2) d l by (cases "ws_Workspace w") (simp_all add: dto_ok_def dto_for_def)
  moreover have "body_ok (?res\<lparr>r_Workspace := x\<rparr>)" using R by (simp only: body_ok_workspace)
  ultimately have "TaskResultBody_Validate ?dg (je_dtoLen env) fin = Inr ()" using sealed_valid [OF D] by (simp add: x(1))
  moreover have "r_TaskID fin = r_TaskID ?res" "r_Execution fin = r_Execution ?res" "r_Outcome fin = r_Outcome ?res" "r_StopID fin = r_StopID ?res" "r_Workspace fin = x"
    by (simp_all add: x(1) Sealed_def)
  ultimately show ?thesis using R x(2) d by (simp add: outcome_for_def)
qed

text \<open>The document of such an outcome.\<close>

lemma frozen_loads:
  assumes P: "ParseExecutionJournal env (journalOf w None JournalPrepared None) = Inr j" and F: "facts_ok f" and fin: "outcome_for env w f fin" and lg: "log_valid (journalLog r)"
  shows "ParseExecutionJournal env (frozen_journal w (xf_ctl f) (xf_started f) r fin) = Inr (frozen_journal w (xf_ctl f) (xf_started f) r fin)"
proof -
  let ?j = "journalOf w None JournalPrepared None" and ?k = "frozen_journal w (xf_ctl f) (xf_started f) r fin"
  have s3: "xj_Schema ?j = 3" by (simp add: journalOf_def)
  then have N: "decode_nested env ?j = Inr ()" and J: "journal_checks env ?j = Inr ()" and S: "schema3_check ?j = Inr ()"
    using P by (simp_all add: parse_schema(3) firstErr_ok_iff)
  have i: "journal_ids ?j = Inr ()" "parseRoleRecordObject (je_roleLen env) (je_lookup env) (ws_Role w) = Inr ()"
    "CheckEffort (c_Adapter (r_Config (ws_Role w))) (ef_Effort (ws_Effective w)) (je_lookup env) = Inr ()"
    using J by (simp_all add: journal_checks_def firstErr_ok_iff journalOf_def)
  have W: "WorkspaceBinding_Validate b = Inr ()" if "ws_Workspace w = Some b" for b
    using N that by (simp add: decode_nested_def firstErr_ok_iff journalOf_def)
  have K: "xj_Result ?k = Some fin" "xj_Workspace ?k = ws_Workspace w" "xj_Work ?k" "xj_RuntimeDir ?k = xj_RuntimeDir ?j" "xj_StopIntent ?k = xf_ctl f"
    "xj_StartedAt ?k = xf_started f" by (simp_all add: frozen_journal_def journalOf_def)
  have ws: "WorkspaceBinding_Validate b = Inr () \<and> (\<exists>d. r_Workspace fin = Some d \<and> w_Name d = b_Name b \<and> w_Instance d = b_Instance b \<and> w_BaseCommit d = b_BaseCommit b)"
    if "xj_Workspace ?k = Some b" for b using that W fin K(2) by (cases "r_Workspace fin") (auto simp: outcome_for_def dto_for_def)
  have rt: "xj_Workspace ?k \<noteq> None \<and> ValidRuntimeDir d" if "xj_RuntimeDir ?k = Some d" for d
    using that S K(2,4) by (auto simp: schema3_check_def journalOf_def split: if_splits)
  have ctl: "(case xf_ctl f of None \<Rightarrow> Inr () | Some s \<Rightarrow> StopIntent_Validate s) = Inr ()" using F by (auto simp: facts_ok_def split: option.split)
  have dv: "(case r_Workspace fin of None \<Rightarrow> Inr () | Some d \<Rightarrow> TaskWorkspaceResult_Validate (je_dtoLen env) d) = Inr ()"
    using fin by (cases "ws_Workspace w") (auto simp: outcome_for_def dto_for_def split: option.split)
  have "r_Execution fin = ws_Execution w" using fin by (simp add: outcome_for_def)
  then have "decode_nested env ?k = Inr ()" using N ctl dv by (auto simp: decode_nested_def firstErr_ok_iff frozen_journal_def journalOf_def split: if_splits)
  moreover have "schema3_check ?k = Inr ()"
  proof (rule schema3_terminal [OF K(1) _ rt ws])
    show "r_Workspace fin = None" if "xj_Workspace ?k = None" using that K(2) fin by (simp add: outcome_for_def)
  qed (use K(3) in auto)
  moreover have "TaskLog_Validate (xj_Log ?k) = Inr ()" using lg by (simp add: frozen_journal_def TaskLog_Validate_iff)
  moreover have "journal_ids ?k = Inr ()" using i(1) by (simp add: journal_ids_iff frozen_journal_def journalOf_def)
  ultimately show ?thesis using i fin K(5,6)
    by (intro terminal_journal_loads [where r = fin]) (auto simp: frozen_journal_def journalOf_def outcome_for_def)
qed



text \<open>A concrete start, of an ordinary task and of a workspace task.\<close>

definition demo_jenv :: journalEnv where
  "demo_jenv = \<lparr>je_roleLen = le_roleLen demo_env, je_lookup = le_lookup demo_env, je_dtoLen = (\<lambda>_. 100), je_digest = (\<lambda>_. demo_digest)\<rparr>"

definition demo_worker :: "WorkspaceBinding option \<Rightarrow> workerStart" where
  "demo_worker bd = \<lparr>ws_TaskID = demo_a, ws_Execution = \<lparr>Epoch = demo_token, Attachment = 1\<rparr>, ws_Digest = demo_digest, ws_Role = demo_role,
     ws_Effective = \<lparr>ef_Model = ''m'', ef_Effort = ''low'', ef_Timeout = 5\<rparr>, ws_Workspace = bd, ws_runtimeDir = ''''\<rparr>"

definition demo_stop :: StopIntent where
  "demo_stop = \<lparr>s_ID = demo_token, s_Kind = ''cancelled'', s_RequestedAt = 5\<rparr>"

definition demo_exit :: exitFacts where
  "demo_exit = \<lparr>xf_exit = None, xf_cause = CauseCancelled, xf_causeID = Some (s_ID demo_stop), xf_ctl = Some demo_stop, xf_started = Some 7, xf_gone = True,
     xf_interrupted = False, xf_message = None, xf_truncated = False\<rparr>"

lemma demo_journal_texts: "ValidEpoch demo_token" "ValidStopID (s_ID demo_stop)" "WorkspaceBinding_Validate demo_binding = Inr ()" "ValidModel ''m''"
proof -
  show "ValidEpoch demo_token" "ValidStopID (s_ID demo_stop)" by code_simp+
qed (fact demo_base demo_paths)+

lemma demo_jenv_ok: "digest_ok (je_digest demo_jenv)" "facts_ok demo_exit"
  using demo_texts demo_journal_texts by (simp_all add: digest_ok_def demo_jenv_def facts_ok_def demo_exit_def StopIntent_Validate_def) (simp_all add: demo_stop_def)

lemma demo_prepared:
  assumes "bd = None \<or> bd = Some demo_binding"
  shows "ParseExecutionJournal demo_jenv (journalOf (demo_worker bd) None JournalPrepared None) = Inr (journalOf (demo_worker bd) None JournalPrepared None)"
proof -
  let ?j = "journalOf (demo_worker bd) None JournalPrepared None"
  have "decode_nested demo_jenv ?j = Inr ()" "schema3_check ?j = Inr ()"
    using assms demo_journal_texts
    by (auto simp: decode_nested_def firstErr_ok_iff schema3_check_def journalOf_def demo_worker_def ExecutionToken_ok_def TaskEffective_ok_def MaxSafeInteger_def)
  moreover have "journal_checks demo_jenv ?j = Inr ()"
    using demo_role_ok demo_texts
    by (simp add: journal_checks_def firstErr_ok_iff journal_ids_iff phase_check_def journalOf_def demo_worker_def demo_jenv_def TaskLog_Validate_iff)
       (simp add: CheckEffort_def demo_role_def demo_env_def)
  ultimately show ?thesis by (simp add: parse_schema(3) firstErr_ok_iff journalOf_def)
qed



text \<open>
  C31. A cancelled publication can leave a journal that no longer loads. When the plane authorized a workspace publication as cancelled, its settled result
  names the plane's stop intent; the worker that never latched that intent (its frame did not arrive, or the worker was restarted since,
  which refuses every control) freezes the result in a document without it, and the loader refuses that document, whatever the rest of it.
\<close>

theorem settled_cancel_unreadable:
  assumes "p_State p = TaskCancelled" and "r_Outcome (p_Candidate p) \<noteq> OutcomeCancelled"
  shows "\<not> is_ok (ParseExecutionJournal env (frozen_journal w None started r (settledResult dg p (Some stop) dto)))"
proof -
  let ?res = "settledResult dg p (Some stop) dto" and ?k = "frozen_journal w None started r (settledResult dg p (Some stop) dto)"
  have f: "r_StopID ?res = Some (s_ID stop)" "r_Outcome ?res = OutcomeCancelled" using assms by (simp_all add: settledResult_def Sealed_def Let_def)
  have k: "xj_Schema ?k = 3" "xj_Phase ?k = JournalCompleted" "xj_Result ?k = Some ?res" "xj_StopIntent ?k = None"
    using f(2) by (simp_all add: frozen_journal_def journalOf_def)
  have "phase_check env ?k \<noteq> Inr ()" using f k by (auto simp: phase_check_def split: sum.split)
  then have "journal_checks env ?k \<noteq> Inr ()" by (auto simp: journal_checks_def firstErr_ok_iff)
  then have "ParseExecutionJournal env ?k \<noteq> Inr x" for x using k(1) by (auto simp: parse_schema(3) firstErr_ok_iff)
  then show ?thesis by (cases "ParseExecutionJournal env ?k") auto
qed

theorem settled_cancel_unreadable_witness:
  "\<not> is_ok (ParseExecutionJournal demo_jenv (frozen_journal (demo_worker (Some demo_binding)) None (Some 7) (newOutputRing 8)
     (settledResult (\<lambda>_. demo_digest) ((demo_pub demo_a)\<lparr>p_State := TaskCancelled\<rparr>) (Some demo_stop) (NewNotStarted demo_binding))))"
  by (rule settled_cancel_unreadable) (simp_all add: demo_pub_def demo_result_def)

end
