(* ===== verification/Worker_Tasks.thy ===== *)
theory Worker_Tasks
  imports Worker_Journal
begin

section \<open>The worker's task supervisor\<close>

text \<open>
  \<open>taskSupervisor\<close> of \<open>internal/sidecar/tasks.go\<close> with the session's side of a start (\<open>session_tasks.go\<close>), the workspace
  preparation (\<open>task_workspace.go\<close>) and recovery (\<open>task_recovery.go\<close>): the executions of one Run, the slots they
  occupy, and the executions that keep the node from accepting. Each critical section or uninterrupted sequence of them
  is one operation; \<open>tw_at\<close> is the position of the execution's goroutine. What the guardian, the disk and the plane answer
  are the operations' arguments. Two fields record what no field of the code holds: \<open>tw_slot\<close>, that the execution's slot has not been given
  back, and \<open>tw_disk\<close>, the journal its directory durably holds.
\<close>

datatype startPhase = phasePreparing | phaseAuthorized | phaseRefused | phaseStarted

datatype worker_at =
    AtPrepare | AtGuardian | AtExchange | AtAuthorize | AtLaunch | AtSupervise | AtResolve bool
  | AtReport string | AtRefuse string | AtFreeze TaskResultBody bool | AtOffer TaskResultBody bool
  | AtResume | AtReturned | AtDone

record taskWorker =
  tw_start :: workerStart
  tw_deadline :: instant
  tw_ring :: outputRing
  tw_recovered :: bool
  tw_phase :: startPhase
  tw_expired :: bool
  tw_refusal :: "string option"
  tw_started :: "instant option"
  tw_tag :: "nat option"
  tw_replied :: bool
  tw_late :: bool
  tw_outcome :: "TaskResultBody option"
  tw_waitAck :: bool
  tw_nextSend :: "instant option"
  tw_committed :: bool
  tw_stopReq :: bool
  tw_cleaning :: bool
  tw_cleanupOK :: bool
  tw_cleanupFailed :: bool
  tw_journalFailing :: bool
  tw_pendingLost :: "TaskResultBody option"
  tw_done :: bool
  tw_forgotten :: bool
  tw_unconfirmed :: bool
  tw_ctl :: "StopIntent option"
  tw_prepReply :: bool
  tw_prepOut :: bool
  tw_prepSent :: bool
  tw_resuming :: bool
  tw_workPending :: bool
  tw_ownsWork :: bool
  tw_at :: worker_at
  tw_slot :: bool
  tw_disk :: "(journal_phase \<times> TaskResultBody option) option"

record taskSupervisor =
  sv_workers :: "nat \<rightharpoonup> taskWorker"
  sv_occupied :: "instanceKey \<Rightarrow> int"
  sv_blocked :: "instanceKey set"
  sv_blockers :: "nat set"
  sv_closing :: bool
  sv_next :: nat

definition tw_key :: "taskWorker \<Rightarrow> instanceKey" where
  "tw_key w = keyOf (ws_Role (tw_start w))"

definition newSupervisor :: taskSupervisor where
  "newSupervisor = \<lparr>sv_workers = Map.empty, sv_occupied = (\<lambda>_. 0), sv_blocked = {}, sv_blockers = {}, sv_closing = False, sv_next = 0\<rparr>"

subsection \<open>Slots and blockers\<close>

definition local_slots :: "instanceKey \<Rightarrow> taskSupervisor \<Rightarrow> int \<times> bool" where
  "local_slots k s = (sv_occupied s k, k \<in> sv_blocked s \<or> sv_blockers s \<noteq> {})"

definition setBlocker :: "nat \<Rightarrow> bool \<Rightarrow> taskSupervisor \<Rightarrow> taskSupervisor" where
  "setBlocker p on s = s\<lparr>sv_blockers := (if on then insert p (sv_blockers s) else sv_blockers s - {p})\<rparr>"

definition nodeBlocked :: "taskSupervisor \<Rightarrow> bool" where
  "nodeBlocked s \<longleftrightarrow> sv_blockers s \<noteq> {}"

definition reserve :: "instanceKey \<Rightarrow> int \<Rightarrow> taskSupervisor \<Rightarrow> taskSupervisor \<times> bool" where
  "reserve k concurrency s =
     (if sv_closing s \<or> k \<in> sv_blocked s \<or> sv_blockers s \<noteq> {} \<or> sv_occupied s k \<ge> concurrency then (s, False)
      else (s\<lparr>sv_occupied := (sv_occupied s)(k := sv_occupied s k + 1)\<rparr>, True))"

definition release :: "instanceKey \<Rightarrow> taskSupervisor \<Rightarrow> taskSupervisor" where
  "release k s = s\<lparr>sv_occupied := (sv_occupied s)(k := (if sv_occupied s k - 1 \<le> 0 then 0 else sv_occupied s k - 1))\<rparr>"

definition blocks :: "taskWorker \<Rightarrow> bool" where
  "blocks w \<longleftrightarrow> tw_cleaning w \<or> tw_cleanupFailed w \<or> tw_journalFailing w"

definition put_worker :: "nat \<Rightarrow> taskWorker \<Rightarrow> taskSupervisor \<Rightarrow> taskSupervisor" where
  "put_worker p w s = s\<lparr>sv_workers := (sv_workers s)(p \<mapsto> w)\<rparr>"

definition refreshBlocker :: "nat \<Rightarrow> taskSupervisor \<Rightarrow> taskSupervisor" where
  "refreshBlocker p s = (case sv_workers s p of None \<Rightarrow> s | Some w \<Rightarrow> setBlocker p (blocks w) s)"

definition with_worker :: "nat \<Rightarrow> (taskWorker \<Rightarrow> taskSupervisor) \<Rightarrow> taskSupervisor \<Rightarrow> taskSupervisor" where
  "with_worker p f s = (case sv_workers s p of None \<Rightarrow> s | Some w \<Rightarrow> f w)"

text \<open>The worker holding a task, if any.\<close>

definition held_task :: "string \<Rightarrow> taskSupervisor \<Rightarrow> bool" where
  "held_task i s \<longleftrightarrow> (\<exists>w \<in> ran (sv_workers s). ws_TaskID (tw_start w) = i)"

subsection \<open>A new start\<close>

definition fresh_worker :: "workerStart \<Rightarrow> nat \<Rightarrow> instant \<Rightarrow> nat \<Rightarrow> taskWorker" where
  "fresh_worker st tag deadline cap = \<lparr>tw_start = st, tw_deadline = deadline, tw_ring = newOutputRing cap, tw_recovered = False, tw_phase = phasePreparing,
     tw_expired = False, tw_refusal = None, tw_started = None, tw_tag = Some tag, tw_replied = False, tw_late = False, tw_outcome = None, tw_waitAck = False,
     tw_nextSend = None, tw_committed = False, tw_stopReq = False, tw_cleaning = False, tw_cleanupOK = False, tw_cleanupFailed = False, tw_journalFailing = False,
     tw_pendingLost = None, tw_done = False, tw_forgotten = False, tw_unconfirmed = False, tw_ctl = None, tw_prepReply = False, tw_prepOut = False,
     tw_prepSent = False, tw_resuming = False, tw_workPending = False, tw_ownsWork = False, tw_at = AtPrepare, tw_slot = True, tw_disk = None\<rparr>"

definition begin_worker :: "workerStart \<Rightarrow> nat \<Rightarrow> instant \<Rightarrow> nat \<Rightarrow> taskSupervisor \<Rightarrow> taskSupervisor" where
  "begin_worker st tag deadline cap s = put_worker (sv_next s) (fresh_worker st tag deadline cap) (s\<lparr>sv_next := sv_next s + 1\<rparr>)"

definition prepBudget :: duration where "prepBudget = 10000000000"

definition installedInstance :: "RoleRecord list \<Rightarrow> RoleRecord \<Rightarrow> RoleRecord option" where
  "installedInstance rs role =
     (case find (\<lambda>r. r_ID r = r_ID role) rs of
        None \<Rightarrow> None
      | Some r \<Rightarrow> if r_Node r = r_Node role \<and> RegistrationOrder r = RegistrationOrder role then Some r else None)"

text \<open>
  The decision of \<open>onTaskStart\<close> for a task this attachment has not seen, on the node \<open>me\<close> with the roles installed at
  revision \<open>instRev\<close>: a protocol error, a refusal's reason, or (\<open>None\<close>) the start handed to a worker.
\<close>

definition onTaskStart :: "string \<Rightarrow> RoleRecord list \<Rightarrow> int \<Rightarrow> int \<Rightarrow> workerStart \<Rightarrow> nat \<Rightarrow> instant \<Rightarrow> nat \<Rightarrow> taskSupervisor
    \<Rightarrow> taskSupervisor \<times> string option res" where
  "onTaskStart me installed instRev rolesRev st tag at cap s =
     (if held_task (ws_TaskID st) s then (s, errInvalid)
      else case installedInstance installed (ws_Role st) of
        None \<Rightarrow> (s, Inr (Some ''role_missing''))
      | Some r \<Rightarrow>
          if r_Node (ws_Role st) \<noteq> me then (s, Inr (Some ''role_missing''))
          else if rolesRev > instRev then (s, Inr (Some ''role_changed''))
          else let (s1, ok) = reserve (keyOf r) (c_Concurrency (r_Config r)) s in
            if \<not> ok then (s1, Inr (Some ''local_full'')) else (begin_worker st tag (at + prepBudget) cap s1, Inr None))"

subsection \<open>Stops\<close>

definition requestStop :: "nat \<Rightarrow> taskSupervisor \<Rightarrow> taskSupervisor" where
  "requestStop p s = with_worker p (\<lambda>w.
     if tw_stopReq w then s
     else let active = (tw_outcome w = None \<and> \<not> tw_recovered w \<and> tw_phase w \<noteq> phaseRefused \<and> \<not> tw_forgotten w)
          in if active then refreshBlocker p (put_worker p (w\<lparr>tw_stopReq := True, tw_cleaning := True\<rparr>) s)
             else put_worker p (w\<lparr>tw_stopReq := True\<rparr>) s) s"

definition control :: "nat \<Rightarrow> StopIntent \<Rightarrow> taskSupervisor \<Rightarrow> taskSupervisor" where
  "control p c s = with_worker p (\<lambda>w.
     if tw_ctl w \<noteq> None \<or> tw_outcome w \<noteq> None \<or> tw_forgotten w \<or> tw_recovered w \<or> tw_phase w = phaseRefused \<or> sv_closing s then s
     else let active = (tw_phase w \<noteq> phasePreparing \<and> \<not> tw_cleanupOK w)
          in if active then refreshBlocker p (put_worker p (w\<lparr>tw_ctl := Some c, tw_cleaning := True\<rparr>) s)
             else put_worker p (w\<lparr>tw_ctl := Some c\<rparr>) s) s"

text \<open>A journal publication or deletion that failed and is retried, by the worker, the intent writer or the janitor.\<close>

definition journal_failed :: "nat \<Rightarrow> taskSupervisor \<Rightarrow> taskSupervisor" where
  "journal_failed p s = with_worker p (\<lambda>w. refreshBlocker p (put_worker p (w\<lparr>tw_journalFailing := True\<rparr>) s)) s"

definition intent_journaled :: "nat \<Rightarrow> taskSupervisor \<Rightarrow> taskSupervisor" where
  "intent_journaled p s = with_worker p (\<lambda>w.
     case tw_disk w of
       Some (ph, None) \<Rightarrow> if tw_journalFailing w then refreshBlocker p (put_worker p (w\<lparr>tw_journalFailing := False\<rparr>) s) else s
     | _ \<Rightarrow> s) s"


subsection \<open>The worker's goroutine\<close>

text \<open>
  \<open>run\<close> between its waits. A start without an adapter ends in \<open>refuseStart\<close> (which deletes a published journal first), in
  \<open>cancelBeforeStart\<close> under a latched stop, or, for a workspace task that was already answered, in \<open>refusePrepared\<close>, which reports the
  refusal and waits for its acknowledgement.
\<close>

definition is_ws :: "taskWorker \<Rightarrow> bool" where
  "is_ws w \<longleftrightarrow> ws_Workspace (tw_start w) \<noteq> None"

definition refuseOwned :: "string \<Rightarrow> taskWorker \<Rightarrow> taskWorker" where
  "refuseOwned reason w =
     (if is_ws w
      then w\<lparr>tw_at := AtReport (if reason = ''start_failed'' then ''workspace_checkout_failed'' else reason), tw_prepOut := True, tw_prepSent := False\<rparr>
      else w\<lparr>tw_at := AtRefuse reason\<rparr>)"

text \<open>The outcome part of \<open>cancelBeforeStart\<close> and \<open>lostBeforeLaunch\<close>, and what both record of the group's cleanup.\<close>

definition cleanup_recorded :: "bool \<Rightarrow> taskWorker \<Rightarrow> taskWorker" where
  "cleanup_recorded gone w = w\<lparr>tw_cleaning := False, tw_cleanupFailed := (tw_cleanupFailed w \<or> \<not> gone), tw_cleanupOK := (tw_cleanupOK w \<or> gone)\<rparr>"

definition block_instance :: "bool \<Rightarrow> instanceKey \<Rightarrow> taskSupervisor \<Rightarrow> taskSupervisor" where
  "block_instance gone k s = (if gone then s else s\<lparr>sv_blocked := insert k (sv_blocked s)\<rparr>)"

definition cancel_before_start :: "(TaskResultBody \<Rightarrow> string) \<Rightarrow> nat \<Rightarrow> bool \<Rightarrow> StopIntent \<Rightarrow> taskWorker \<Rightarrow> taskSupervisor \<Rightarrow> taskSupervisor" where
  "cancel_before_start dg p gone c w s =
     (let st = tw_start w; res = cancelBeforeStart dg (ws_TaskID st) (ws_Execution st) (ws_Workspace st) c gone
      in refreshBlocker p (block_instance gone (tw_key w) (put_worker p ((cleanup_recorded gone w)\<lparr>tw_at := AtFreeze res gone\<rparr>) s)))"

definition lostBeforeLaunch :: "(TaskResultBody \<Rightarrow> string) \<Rightarrow> nat \<Rightarrow> bool \<Rightarrow> taskWorker \<Rightarrow> taskSupervisor \<Rightarrow> taskSupervisor" where
  "lostBeforeLaunch dg p gone w s =
     (let st = tw_start w;
          res = workspaceLost dg (ws_Workspace st) \<lparr>r_TaskID = ws_TaskID st, r_Execution = ws_Execution st, r_Outcome = OutcomeLost, r_ExitCode = None, r_Signal = None,
            r_FinalMessage = None, r_FinalMessageTruncated = False, r_OutputBytes = 0, r_LogIncomplete = False, r_CounterOverflow = False,
            r_StopID = map_option s_ID (tw_ctl w), r_Workspace = None, r_Digest = ''''\<rparr>
      in block_instance gone (tw_key w) (refreshBlocker p (put_worker p ((cleanup_recorded gone w)\<lparr>tw_at := AtFreeze res gone\<rparr>) s)))"

text \<open>Before a guardian exists: a failed preparation, the durable journal, a workspace's checkout, the spawned guardian.\<close>

definition prepare_failed :: "nat \<Rightarrow> string \<Rightarrow> taskSupervisor \<Rightarrow> taskSupervisor" where
  "prepare_failed p reason s = with_worker p (\<lambda>w.
     if tw_at w \<noteq> AtPrepare \<or> tw_prepReply w then s else put_worker p (w\<lparr>tw_at := AtRefuse reason\<rparr>) s) s"

definition journal_prepared :: "nat \<Rightarrow> taskSupervisor \<Rightarrow> taskSupervisor" where
  "journal_prepared p s = with_worker p (\<lambda>w. if tw_at w \<noteq> AtPrepare then s else put_worker p (w\<lparr>tw_disk := Some (JournalPrepared, None)\<rparr>) s) s"

definition prepare_begun :: "nat \<Rightarrow> instant \<Rightarrow> taskSupervisor \<Rightarrow> taskSupervisor" where
  "prepare_begun p deadline s = with_worker p (\<lambda>w.
     if tw_at w \<noteq> AtPrepare \<or> tw_disk w = None \<or> \<not> is_ws w then s
     else if tw_expired w \<or> tw_phase w = phaseRefused then put_worker p (w\<lparr>tw_at := AtRefuse ''preparation_timeout''\<rparr>) s
     else put_worker p (w\<lparr>tw_prepReply := True, tw_deadline := deadline\<rparr>) s) s"

definition checkout_failed :: "(TaskResultBody \<Rightarrow> string) \<Rightarrow> nat \<Rightarrow> string \<Rightarrow> taskSupervisor \<Rightarrow> taskSupervisor" where
  "checkout_failed dg p reason s = with_worker p (\<lambda>w.
     if tw_at w \<noteq> AtPrepare \<or> \<not> tw_prepReply w then s
     else case tw_ctl w of
       Some c \<Rightarrow> cancel_before_start dg p True c w s
     | None \<Rightarrow>
         if sv_closing s \<or> tw_stopReq w then put_worker p (w\<lparr>tw_at := AtReturned\<rparr>) s
         else put_worker p (w\<lparr>tw_at := AtReport reason, tw_prepOut := True, tw_prepSent := False\<rparr>) s) s"

definition invocation_failed :: "nat \<Rightarrow> taskSupervisor \<Rightarrow> taskSupervisor" where
  "invocation_failed p s = with_worker p (\<lambda>w.
     if tw_at w \<noteq> AtPrepare \<or> tw_disk w = None \<or> (is_ws w \<and> \<not> tw_prepReply w) then s
     else put_worker p (refuseOwned ''start_failed'' w) s) s"

definition spawn_guardian :: "(TaskResultBody \<Rightarrow> string) \<Rightarrow> nat \<Rightarrow> bool \<Rightarrow> taskSupervisor \<Rightarrow> taskSupervisor" where
  "spawn_guardian dg p ok s = with_worker p (\<lambda>w.
     if tw_at w \<noteq> AtPrepare \<or> tw_disk w = None \<or> (is_ws w \<and> \<not> tw_prepReply w) then s
     else case tw_ctl w of
       Some c \<Rightarrow> cancel_before_start dg p True c w s
     | None \<Rightarrow> if ok then put_worker p (w\<lparr>tw_at := AtGuardian\<rparr>) s else put_worker p (refuseOwned ''start_failed'' w) s) s"

text \<open>A guardian that was never released: \<open>abandon\<close>, with the proof of its group's absence.\<close>

definition abandon :: "(TaskResultBody \<Rightarrow> string) \<Rightarrow> nat \<Rightarrow> string \<Rightarrow> bool \<Rightarrow> bool \<Rightarrow> taskWorker \<Rightarrow> taskSupervisor \<Rightarrow> taskSupervisor" where
  "abandon dg p reason decided gone w s =
     (case tw_ctl w of
        Some c \<Rightarrow> cancel_before_start dg p gone c w s
      | None \<Rightarrow> if decided then put_worker p (w\<lparr>tw_at := AtRefuse reason\<rparr>) s else put_worker p (refuseOwned reason w) s)"

definition timeoutReason :: "taskWorker \<Rightarrow> string" where
  "timeoutReason w = (if is_ws w then ''workspace_prepare_timeout'' else ''preparation_timeout'')"

text \<open>\<open>ready\<close>: \<open>None\<close> when the wait ended by the deadline, a stop or the shutdown; else whether the guardian is the right one.\<close>

definition guardian_ready :: "(TaskResultBody \<Rightarrow> string) \<Rightarrow> nat \<Rightarrow> bool option \<Rightarrow> bool \<Rightarrow> taskSupervisor \<Rightarrow> taskSupervisor" where
  "guardian_ready dg p ready gone s = with_worker p (\<lambda>w.
     if tw_at w \<noteq> AtGuardian then s
     else case ready of
       None \<Rightarrow> abandon dg p (timeoutReason w) (sv_closing s) gone w s
     | Some False \<Rightarrow> abandon dg p ''start_failed'' False gone w s
     | Some True \<Rightarrow> if is_ws w then put_worker p (w\<lparr>tw_at := AtExchange, tw_prepOut := True, tw_prepSent := False\<rparr>) s
                    else put_worker p (w\<lparr>tw_at := AtAuthorize\<rparr>) s) s"

text \<open>The plane's answer to a reported preparation, and the end of the wait for it by a stop or the shutdown.\<close>

definition onPreparedAck :: "(TaskResultBody \<Rightarrow> string) \<Rightarrow> nat \<Rightarrow> bool \<Rightarrow> bool \<Rightarrow> taskSupervisor \<Rightarrow> taskSupervisor" where
  "onPreparedAck dg p rel gone s = with_worker p (\<lambda>w0.
     if \<not> tw_prepOut w0 then s
     else let w = w0\<lparr>tw_prepOut := False, tw_prepSent := False\<rparr> in
       case tw_at w of
         AtReport reason \<Rightarrow> put_worker p (w\<lparr>tw_at := AtRefuse reason\<rparr>) s
       | AtExchange \<Rightarrow> if rel then put_worker p (w\<lparr>tw_at := AtAuthorize\<rparr>) s else abandon dg p ''workspace_prepare_timeout'' True gone w s
       | _ \<Rightarrow> s) s"

definition exchange_stopped :: "(TaskResultBody \<Rightarrow> string) \<Rightarrow> nat \<Rightarrow> bool \<Rightarrow> taskSupervisor \<Rightarrow> taskSupervisor" where
  "exchange_stopped dg p gone s = with_worker p (\<lambda>w0.
     if \<not> (sv_closing s \<or> tw_stopReq w0) then s
     else let w = w0\<lparr>tw_prepOut := False\<rparr> in
       case tw_at w of
         AtReport reason \<Rightarrow> put_worker p (w\<lparr>tw_at := AtReturned\<rparr>) s
       | AtExchange \<Rightarrow> abandon dg p ''workspace_prepare_timeout'' True gone w s
       | _ \<Rightarrow> s) s"

text \<open>The running authorization and its journal, the launch, and the end of the process group.\<close>

definition authorize_run :: "(TaskResultBody \<Rightarrow> string) \<Rightarrow> nat \<Rightarrow> instant \<Rightarrow> bool \<Rightarrow> bool \<Rightarrow> taskSupervisor \<Rightarrow> taskSupervisor" where
  "authorize_run dg p now journaled gone s = with_worker p (\<lambda>w.
     if tw_at w \<noteq> AtAuthorize then s
     else if tw_expired w \<or> sv_closing s \<or> tw_ctl w \<noteq> None \<or> (\<not> is_ws w \<and> \<not> now < tw_deadline w)
     then abandon dg p ''preparation_timeout'' (is_ws w) gone w s
     else let w1 = w\<lparr>tw_phase := phaseAuthorized\<rparr> in
       if journaled then put_worker p (w1\<lparr>tw_at := AtLaunch, tw_disk := Some (JournalRunning, None)\<rparr>) s
       else abandon dg p ''start_failed'' (is_ws w) gone w1 s) s"

datatype launch = LaunchStarted instant | LaunchError | LaunchUnknown

definition launch_reported :: "(TaskResultBody \<Rightarrow> string) \<Rightarrow> nat \<Rightarrow> launch \<Rightarrow> bool \<Rightarrow> taskSupervisor \<Rightarrow> taskSupervisor" where
  "launch_reported dg p m gone s = with_worker p (\<lambda>w.
     if tw_at w \<noteq> AtLaunch then s
     else case m of
       LaunchStarted t \<Rightarrow> put_worker p (w\<lparr>tw_phase := phaseStarted, tw_started := Some t, tw_at := AtSupervise\<rparr>) s
     | LaunchUnknown \<Rightarrow> put_worker p (w\<lparr>tw_at := AtSupervise\<rparr>) s
     | LaunchError \<Rightarrow>
         (case tw_ctl w of
            Some c \<Rightarrow> cancel_before_start dg p gone c w s
          | None \<Rightarrow> if is_ws w then lostBeforeLaunch dg p gone w s else put_worker p (w\<lparr>tw_at := AtRefuse ''start_failed''\<rparr>) s)) s"

definition group_ended :: "nat \<Rightarrow> bool \<Rightarrow> taskSupervisor \<Rightarrow> taskSupervisor" where
  "group_ended p gone s = with_worker p (\<lambda>w.
     if tw_at w \<noteq> AtSupervise then s
     else refreshBlocker p (block_instance gone (tw_key w) (put_worker p ((cleanup_recorded gone w)\<lparr>tw_at := AtResolve gone\<rparr>) s))) s"

definition facts_of :: "taskWorker \<Rightarrow> bool \<Rightarrow> bool \<Rightarrow> (int + string) option \<Rightarrow> stop_cause \<Rightarrow> string option \<Rightarrow> bytes option \<Rightarrow> bool \<Rightarrow> exitFacts" where
  "facts_of w closing gone exit cause causeID msg trunc = \<lparr>xf_exit = exit, xf_cause = cause, xf_causeID = causeID, xf_ctl = tw_ctl w, xf_started = tw_started w,
     xf_gone = gone, xf_interrupted = (tw_stopReq w \<or> closing), xf_message = msg, xf_truncated = trunc\<rparr>"

definition resolve_outcome :: "(TaskResultBody \<Rightarrow> string) \<Rightarrow> nat \<Rightarrow> (taskWorker \<Rightarrow> bool \<Rightarrow> bool \<Rightarrow> exitFacts) \<Rightarrow> (string + string) option
    \<Rightarrow> (TaskResultBody \<Rightarrow> string \<Rightarrow> TaskResultBody option) \<Rightarrow> taskSupervisor \<Rightarrow> taskSupervisor" where
  "resolve_outcome dg p facts snap pub s = with_worker p (\<lambda>w.
     case tw_at w of
       AtResolve gone \<Rightarrow>
         (let f = facts w (sv_closing s) gone; st = tw_start w in
          case final_outcome dg (ws_Workspace st) f snap pub (base_result (ws_TaskID st) (ws_Execution st) (tw_ring w) f) of
            None \<Rightarrow> put_worker p (w\<lparr>tw_at := AtReturned\<rparr>) s
          | Some fin \<Rightarrow> put_worker p (w\<lparr>tw_at := AtFreeze fin gone\<rparr>) s)
     | _ \<Rightarrow> s) s"


subsection \<open>The outbox\<close>

text \<open>
  \<open>freezeThen\<close>: the outcome is journaled, the work directory removed and the slot released, then the outcome is offered. A journal
  write that fails is \<open>journal_failed\<close>; only the shutdown ends the retries.
\<close>

definition frozen_phase :: "TaskResultBody \<Rightarrow> journal_phase" where
  "frozen_phase r = (if r_Outcome r = OutcomeLost then JournalLost else JournalCompleted)"

definition end_of :: "taskWorker \<Rightarrow> worker_at" where
  "end_of w = (if tw_recovered w then AtDone else AtReturned)"

definition freeze_journaled :: "nat \<Rightarrow> taskSupervisor \<Rightarrow> taskSupervisor" where
  "freeze_journaled p s = with_worker p (\<lambda>w.
     case tw_at w of AtFreeze r rel \<Rightarrow> put_worker p (w\<lparr>tw_disk := Some (frozen_phase r, Some r), tw_at := AtOffer r rel\<rparr>) s | _ \<Rightarrow> s) s"

definition freeze_stopped :: "nat \<Rightarrow> taskSupervisor \<Rightarrow> taskSupervisor" where
  "freeze_stopped p s = with_worker p (\<lambda>w.
     case tw_at w of AtFreeze r rel \<Rightarrow> if sv_closing s then put_worker p (w\<lparr>tw_at := end_of w\<rparr>) s else s | _ \<Rightarrow> s) s"

definition releaseWork :: "nat \<Rightarrow> bool \<Rightarrow> taskWorker \<Rightarrow> taskSupervisor \<Rightarrow> taskSupervisor" where
  "releaseWork p removed w s =
     (if removed then release (tw_key w) (put_worker p (w\<lparr>tw_slot := False\<rparr>) s) else put_worker p (w\<lparr>tw_workPending := True\<rparr>) s)"

definition offer_outcome :: "nat \<Rightarrow> bool \<Rightarrow> taskSupervisor \<Rightarrow> taskSupervisor" where
  "offer_outcome p removed s = with_worker p (\<lambda>w.
     case tw_at w of
       AtOffer r rel \<Rightarrow>
         (let s1 = (if rel then releaseWork p removed w s else s) in
          with_worker p (\<lambda>v.
            let s2 = put_worker p (v\<lparr>tw_journalFailing := False, tw_outcome := Some r, tw_at := end_of v\<rparr>) s1
            in if tw_journalFailing v then refreshBlocker p s2 else s2) s1)
     | _ \<Rightarrow> s) s"

definition complete :: "nat \<Rightarrow> taskSupervisor \<Rightarrow> taskSupervisor" where
  "complete p s = with_worker p (\<lambda>w. if tw_at w \<noteq> AtReturned then s else put_worker p (w\<lparr>tw_done := True, tw_at := AtDone\<rparr>) s) s"

text \<open>The end of \<open>refuseStart\<close>: its journal deletion succeeded, or (\<open>removed = False\<close>) the shutdown ended its retries.\<close>

definition refuse_finish :: "nat \<Rightarrow> bool \<Rightarrow> taskSupervisor \<Rightarrow> taskSupervisor" where
  "refuse_finish p removed s = with_worker p (\<lambda>w.
     case tw_at w of
       AtRefuse reason \<Rightarrow>
         if \<not> removed \<and> \<not> sv_closing s then s
         else let w1 = (if removed then w\<lparr>tw_journalFailing := False, tw_disk := None\<rparr> else w);
                  w2 = (if tw_phase w1 \<noteq> phaseRefused then w1\<lparr>tw_phase := phaseRefused, tw_refusal := Some reason\<rparr> else w1);
                  w3 = w2\<lparr>tw_slot := False, tw_forgotten := True, tw_cleaning := False, tw_at := AtReturned\<rparr>
              in refreshBlocker p (release (tw_key w) (put_worker p w3 s))
     | _ \<Rightarrow> s) s"

text \<open>The janitor's deletion of one committed execution, and collection.\<close>

definition janitor_ready :: "taskWorker \<Rightarrow> bool" where
  "janitor_ready w \<longleftrightarrow> tw_committed w \<and> tw_cleanupOK w \<and> \<not> tw_forgotten w \<and> \<not> tw_ownsWork w \<and> (tw_recovered w \<or> tw_done w)"

definition janitor_removed :: "nat \<Rightarrow> taskSupervisor \<Rightarrow> taskSupervisor" where
  "janitor_removed p s = with_worker p (\<lambda>w.
     if \<not> janitor_ready w then s
     else let w1 = w\<lparr>tw_journalFailing := False, tw_disk := None, tw_forgotten := True, tw_workPending := False\<rparr>;
              w2 = (if tw_workPending w then w1\<lparr>tw_slot := False\<rparr> else w1);
              s1 = refreshBlocker p (put_worker p w2 s)
          in if tw_workPending w then release (tw_key w) s1 else s1) s"

definition collectable :: "taskWorker \<Rightarrow> bool" where
  "collectable w \<longleftrightarrow> (tw_done w \<or> tw_recovered w) \<and> tw_forgotten w"

definition collect :: "taskSupervisor \<Rightarrow> taskSupervisor" where
  "collect s =
     (let gone = {p. \<exists>w. sv_workers s p = Some w \<and> collectable w}
      in s\<lparr>sv_workers := (sv_workers s) |` (- gone), sv_blockers := sv_blockers s - gone\<rparr>)"

subsection \<open>The session\<close>

text \<open>The preparation deadline of an unanswered start (\<open>pollStart\<close>).\<close>

definition start_expired :: "nat \<Rightarrow> instant \<Rightarrow> taskSupervisor \<Rightarrow> taskSupervisor" where
  "start_expired p now s = with_worker p (\<lambda>w.
     if tw_phase w \<noteq> phasePreparing \<or> tw_prepReply w \<or> now < tw_deadline w then s
     else put_worker p (w\<lparr>tw_expired := True, tw_phase := phaseRefused, tw_refusal := Some ''preparation_timeout''\<rparr>) s) s"

definition start_replied :: "nat \<Rightarrow> taskSupervisor \<Rightarrow> taskSupervisor" where
  "start_replied p s = with_worker p (\<lambda>w. put_worker p (w\<lparr>tw_replied := True\<rparr>) s) s"

text \<open>
  Output and result exchanges; a result is outstanding, and acknowledged, only once the outcome is offered.
\<close>

definition output_sent :: "nat \<Rightarrow> taskSupervisor \<Rightarrow> taskSupervisor" where
  "output_sent p s = with_worker p (\<lambda>w. put_worker p (w\<lparr>tw_ring := fst (next_chunk (tw_ring w))\<rparr>) s) s"

definition output_acked :: "nat \<Rightarrow> int \<Rightarrow> taskSupervisor \<Rightarrow> taskSupervisor" where
  "output_acked p e s = with_worker p (\<lambda>w. put_worker p (w\<lparr>tw_ring := ack_chunk e (tw_ring w)\<rparr>) s) s"

definition output_written :: "nat \<Rightarrow> bytes \<Rightarrow> taskSupervisor \<Rightarrow> taskSupervisor" where
  "output_written p b s = with_worker p (\<lambda>w. put_worker p (w\<lparr>tw_ring := write_ring b (tw_ring w)\<rparr>) s) s"

definition result_sent :: "nat \<Rightarrow> taskSupervisor \<Rightarrow> taskSupervisor" where
  "result_sent p s = with_worker p (\<lambda>w. put_worker p (w\<lparr>tw_waitAck := True\<rparr>) s) s"

definition resultRetry :: duration where "resultRetry = 1000000000"

definition result_acked :: "nat \<Rightarrow> bool \<Rightarrow> instant \<Rightarrow> taskSupervisor \<Rightarrow> taskSupervisor" where
  "result_acked p committed at s = with_worker p (\<lambda>w.
     if tw_outcome w = None then s
     else put_worker p (w\<lparr>tw_waitAck := False, tw_nextSend := (if committed then tw_nextSend w else Some (at + resultRetry)), tw_committed := (tw_committed w \<or> committed)\<rparr>) s) s"

definition fence :: "nat \<Rightarrow> taskSupervisor \<Rightarrow> taskSupervisor" where
  "fence tag s = s\<lparr>sv_workers := (\<lambda>p. case sv_workers s p of
       None \<Rightarrow> None
     | Some w \<Rightarrow> Some (if tw_tag w \<noteq> Some tag then w
         else w\<lparr>tw_tag := None, tw_replied := False, tw_late := False, tw_prepSent := False, tw_unconfirmed := (tw_unconfirmed w \<or> tw_waitAck w), tw_waitAck := False,
                tw_ring := unbind (tw_ring w)\<rparr>))\<rparr>"

definition onReconcile :: "nat \<Rightarrow> nat \<Rightarrow> recon_action \<Rightarrow> StopIntent \<Rightarrow> taskSupervisor \<Rightarrow> taskSupervisor" where
  "onReconcile p tag a stop s = with_worker p (\<lambda>w.
     if a = ActionForget then put_worker p (w\<lparr>tw_committed := True\<rparr>) s
     else let s1 = put_worker p (w\<lparr>tw_tag := Some tag, tw_replied := True, tw_late := (a \<noteq> ActionContinue \<and> a \<noteq> ActionStopControl)\<rparr>) s
          in if a = ActionStopLost then requestStop p s1 else if a = ActionStopControl then control p stop s1 else s1) s"

definition shutdown :: "taskSupervisor \<Rightarrow> taskSupervisor" where
  "shutdown s = s\<lparr>sv_closing := True\<rparr>"


subsection \<open>Recovery\<close>

text \<open>One loaded journal: whether an owner record and a publication checkpoint are beside it, and whether the lost outcome's write succeeded.\<close>

record loadedJournal =
  lj_j :: ExecutionJournal
  lj_owner :: bool
  lj_checkpoint :: bool
  lj_written :: bool

definition started_from :: "ExecutionJournal \<Rightarrow> workerStart" where
  "started_from j = \<lparr>ws_TaskID = xj_TaskID j, ws_Execution = xj_Execution j, ws_Digest = xj_StartDigest j, ws_Role = xj_Role j, ws_Effective = xj_Effective j,
     ws_Workspace = xj_Workspace j, ws_runtimeDir = (case xj_RuntimeDir j of None \<Rightarrow> '''' | Some d \<Rightarrow> d)\<rparr>"

definition recovered :: "ExecutionJournal \<Rightarrow> nat \<Rightarrow> taskWorker" where
  "recovered j cap = (fresh_worker (started_from j) 0 0 cap)\<lparr>tw_ring := newOutputRingMeta cap (xj_Log j), tw_recovered := True, tw_phase := phaseStarted,
     tw_started := xj_StartedAt j, tw_tag := None, tw_done := True, tw_ctl := xj_StopIntent j, tw_at := AtDone, tw_slot := False,
     tw_disk := Some (xj_Phase j, xj_Result j)\<rparr>"

definition resumes :: "loadedJournal \<Rightarrow> bool" where
  "resumes l \<longleftrightarrow> xj_Phase (lj_j l) = JournalRunning \<and> xj_Workspace (lj_j l) \<noteq> None \<and> lj_checkpoint l"

definition unresolved :: "ExecutionJournal \<Rightarrow> bool" where
  "unresolved j \<longleftrightarrow> xj_Phase j = JournalPrepared \<or> xj_Phase j = JournalRunning"

definition recovered_worker :: "journalEnv \<Rightarrow> nat \<Rightarrow> loadedJournal \<Rightarrow> taskWorker" where
  "recovered_worker env cap l =
     (let j = lj_j l; w = recovered j cap; c = (w\<lparr>tw_cleaning := lj_owner l, tw_cleanupOK := \<not> lj_owner l\<rparr>) in
      if resumes l then c\<lparr>tw_resuming := True, tw_at := AtResume, tw_slot := True\<rparr>
      else let o1 = (if unresolved j
                     then (if lj_written l then c\<lparr>tw_outcome := Some (recovered_result env j), tw_disk := Some (JournalLost, Some (recovered_result env j))\<rparr>
                           else c\<lparr>tw_journalFailing := True, tw_pendingLost := Some (recovered_result env j)\<rparr>)
                     else c\<lparr>tw_outcome := xj_Result j\<rparr>)
           in o1\<lparr>tw_ownsWork := xj_Work j, tw_slot := (lj_owner l \<or> xj_Work j)\<rparr>)"

definition recover_one :: "journalEnv \<Rightarrow> nat \<Rightarrow> loadedJournal \<Rightarrow> taskSupervisor \<Rightarrow> taskSupervisor" where
  "recover_one env cap l s =
     (let w = recovered_worker env cap l; p = sv_next s; k = tw_key w in
      s\<lparr>sv_workers := (sv_workers s)(p \<mapsto> w), sv_next := p + 1,
        sv_occupied := (if tw_slot w then (sv_occupied s)(k := sv_occupied s k + 1) else sv_occupied s),
        sv_blockers := (if tw_cleaning w \<or> tw_journalFailing w then insert p (sv_blockers s) else sv_blockers s)\<rparr>)"

definition recoverJournals :: "journalEnv \<Rightarrow> nat \<Rightarrow> loadedJournal list \<Rightarrow> taskSupervisor" where
  "recoverJournals env cap ls = fold (recover_one env cap) ls newSupervisor"

definition cleanupDone :: "nat \<Rightarrow> bool \<Rightarrow> taskSupervisor \<Rightarrow> taskSupervisor" where
  "cleanupDone p ok s = with_worker p (\<lambda>w.
     if \<not> tw_recovered w \<or> \<not> tw_cleaning w then s
     else if \<not> ok then refreshBlocker p (put_worker p (w\<lparr>tw_cleaning := False, tw_cleanupFailed := True\<rparr>) s)
     else let w1 = w\<lparr>tw_cleaning := False, tw_cleanupOK := True\<rparr> in
       if tw_resuming w \<or> tw_ownsWork w then refreshBlocker p (put_worker p w1 s)
       else refreshBlocker p (release (tw_key w) (put_worker p (w1\<lparr>tw_slot := False\<rparr>) s))) s"

definition releaseRecoveredWork :: "nat \<Rightarrow> bool \<Rightarrow> taskSupervisor \<Rightarrow> taskSupervisor" where
  "releaseRecoveredWork p removed s = with_worker p (\<lambda>w.
     if \<not> (tw_ownsWork w \<and> tw_cleanupOK w \<and> tw_outcome w \<noteq> None \<and> tw_pendingLost w = None \<and> \<not> tw_forgotten w) then s
     else if removed then release (tw_key w) (put_worker p (w\<lparr>tw_ownsWork := False, tw_slot := False\<rparr>) s)
     else put_worker p (w\<lparr>tw_ownsWork := False, tw_workPending := True\<rparr>) s) s"

definition publishLost :: "nat \<Rightarrow> taskSupervisor \<Rightarrow> taskSupervisor" where
  "publishLost p s = with_worker p (\<lambda>w.
     case tw_pendingLost w of
       None \<Rightarrow> s
     | Some r \<Rightarrow> refreshBlocker p (put_worker p (w\<lparr>tw_outcome := Some r, tw_pendingLost := None, tw_journalFailing := False, tw_disk := Some (JournalLost, Some r)\<rparr>) s)) s"

definition resumeWorkspace :: "nat \<Rightarrow> TaskResultBody option \<Rightarrow> taskSupervisor \<Rightarrow> taskSupervisor" where
  "resumeWorkspace p r s = with_worker p (\<lambda>w.
     if tw_at w \<noteq> AtResume then s
     else case r of
       None \<Rightarrow> if sv_closing s then put_worker p (w\<lparr>tw_at := AtDone\<rparr>) s else s
     | Some fin \<Rightarrow> if tw_cleanupOK w then put_worker p (w\<lparr>tw_at := AtFreeze fin True\<rparr>) s else s) s"

definition load_tail :: "nat \<Rightarrow> bytes \<Rightarrow> taskSupervisor \<Rightarrow> taskSupervisor" where
  "load_tail p data s = with_worker p (\<lambda>w.
     if tw_recovered w \<and> tw_tag w \<noteq> None \<and> tw_replied w \<and> \<not> tw_forgotten w \<and> needsLoad (tw_ring w) then put_worker p (w\<lparr>tw_ring := load data (tw_ring w)\<rparr>) s else s) s"

subsection \<open>Runs\<close>

datatype supEvent =
    EvStart string "RoleRecord list" int int workerStart nat instant
  | EvExpired nat instant | EvReplied nat | EvStop nat | EvControl nat StopIntent | EvJournalFailed nat | EvIntentJournaled nat
  | EvPrepareFailed nat string | EvJournalPrepared nat | EvPrepareBegun nat instant | EvCheckoutFailed nat string | EvInvocationFailed nat
  | EvSpawn nat bool | EvReady nat "bool option" bool | EvPreparedAck nat bool bool | EvExchangeStopped nat bool
  | EvAuthorize nat instant bool bool | EvLaunch nat launch bool | EvGroupEnded nat bool
  | EvResolve nat "(int + string) option" stop_cause "string option" "bytes option" bool "(string + string) option" "TaskResultBody option"
  | EvFrozen nat | EvFreezeStopped nat | EvOffer nat bool | EvComplete nat | EvRefused nat bool | EvJanitor nat | EvCollect
  | EvWritten nat bytes | EvSent nat | EvAcked nat int | EvResultSent nat | EvResultAcked nat bool instant | EvFence nat | EvReconcile nat nat recon_action StopIntent
  | EvCleanupDone nat bool | EvReleaseRecovered nat bool | EvPublishLost nat | EvResume nat "TaskResultBody option" | EvLoad nat bytes | EvShutdown

fun sup_step :: "(TaskResultBody \<Rightarrow> string) \<Rightarrow> nat \<Rightarrow> supEvent \<Rightarrow> taskSupervisor \<Rightarrow> taskSupervisor" where
  "sup_step dg cap (EvStart me rs ir rr st tag at) s = fst (onTaskStart me rs ir rr st tag at cap s)"
| "sup_step dg cap (EvExpired p now) s = start_expired p now s"
| "sup_step dg cap (EvReplied p) s = start_replied p s"
| "sup_step dg cap (EvStop p) s = requestStop p s"
| "sup_step dg cap (EvControl p c) s = control p c s"
| "sup_step dg cap (EvJournalFailed p) s = journal_failed p s"
| "sup_step dg cap (EvIntentJournaled p) s = intent_journaled p s"
| "sup_step dg cap (EvPrepareFailed p r) s = prepare_failed p r s"
| "sup_step dg cap (EvJournalPrepared p) s = journal_prepared p s"
| "sup_step dg cap (EvPrepareBegun p d) s = prepare_begun p d s"
| "sup_step dg cap (EvCheckoutFailed p r) s = checkout_failed dg p r s"
| "sup_step dg cap (EvInvocationFailed p) s = invocation_failed p s"
| "sup_step dg cap (EvSpawn p ok) s = spawn_guardian dg p ok s"
| "sup_step dg cap (EvReady p r g) s = guardian_ready dg p r g s"
| "sup_step dg cap (EvPreparedAck p rel g) s = onPreparedAck dg p rel g s"
| "sup_step dg cap (EvExchangeStopped p g) s = exchange_stopped dg p g s"
| "sup_step dg cap (EvAuthorize p now j g) s = authorize_run dg p now j g s"
| "sup_step dg cap (EvLaunch p m g) s = launch_reported dg p m g s"
| "sup_step dg cap (EvGroupEnded p g) s = group_ended p g s"
| "sup_step dg cap (EvResolve p ex ca ci msg tr snap pub) s = resolve_outcome dg p (\<lambda>w cl g. facts_of w cl g ex ca ci msg tr) snap (\<lambda>_ _. pub) s"
| "sup_step dg cap (EvFrozen p) s = freeze_journaled p s"
| "sup_step dg cap (EvFreezeStopped p) s = freeze_stopped p s"
| "sup_step dg cap (EvOffer p r) s = offer_outcome p r s"
| "sup_step dg cap (EvComplete p) s = complete p s"
| "sup_step dg cap (EvRefused p r) s = refuse_finish p r s"
| "sup_step dg cap (EvJanitor p) s = janitor_removed p s"
| "sup_step dg cap EvCollect s = collect s"
| "sup_step dg cap (EvWritten p b) s = output_written p b s"
| "sup_step dg cap (EvSent p) s = output_sent p s"
| "sup_step dg cap (EvAcked p e) s = output_acked p e s"
| "sup_step dg cap (EvResultSent p) s = result_sent p s"
| "sup_step dg cap (EvResultAcked p c at) s = result_acked p c at s"
| "sup_step dg cap (EvFence t) s = fence t s"
| "sup_step dg cap (EvReconcile p t a c) s = onReconcile p t a c s"
| "sup_step dg cap (EvCleanupDone p ok) s = cleanupDone p ok s"
| "sup_step dg cap (EvReleaseRecovered p r) s = releaseRecoveredWork p r s"
| "sup_step dg cap (EvPublishLost p) s = publishLost p s"
| "sup_step dg cap (EvResume p r) s = resumeWorkspace p r s"
| "sup_step dg cap (EvLoad p d) s = load_tail p d s"
| "sup_step dg cap EvShutdown s = shutdown s"

text \<open>
  What the supervisor relies on in the plane (\<open>disposeLocked\<close>): it tells a worker to forget only an execution whose inventory
  entry carried a result digest, that is one with an outcome.
\<close>

definition reported :: "supEvent \<Rightarrow> taskSupervisor \<Rightarrow> bool" where
  "reported e s \<longleftrightarrow> (case e of
       EvReconcile p _ a _ \<Rightarrow> a = ActionForget \<longrightarrow> (\<forall>w. sv_workers s p = Some w \<longrightarrow> tw_outcome w \<noteq> None)
     | _ \<Rightarrow> True)"

inductive sup_reach :: "journalEnv \<Rightarrow> nat \<Rightarrow> taskSupervisor \<Rightarrow> bool" for env cap where
  start: "(\<forall>l \<in> set ls. \<exists>j0. ParseExecutionJournal env j0 = Inr (lj_j l)) \<Longrightarrow> sup_reach env cap (recoverJournals env cap ls)"
| step: "sup_reach env cap s \<Longrightarrow> reported e s \<Longrightarrow> sup_reach env cap (sup_step (je_digest env) cap e s)"

end
