(* ===== verification/Worker_Slots.thy ===== *)
theory Worker_Slots
  imports Worker_Tasks
begin

section \<open>The supervisor's slots, blockers and outbox\<close>

text \<open>
  The invariant of the worker's task supervisor: every operation keeps the slot counts equal to the executions that hold a
  slot, the blockers equal to the executions with an unresolved cleanup or a failing journal, and an offered outcome equal to the
  journal on disk. The properties are stated for every state a Run reaches from the journals it loaded. The last part follows an
  execution whose preparation a stop ended.
\<close>

subsection \<open>The invariant\<close>

definition active_at :: "worker_at \<Rightarrow> bool" where
  "active_at a \<longleftrightarrow> a \<noteq> AtReturned \<and> a \<noteq> AtDone"

definition resolved_at :: "worker_at \<Rightarrow> bool option" where
  "resolved_at a = (case a of AtFreeze _ g \<Rightarrow> Some g | AtOffer _ g \<Rightarrow> Some g | AtResolve g \<Rightarrow> Some g | _ \<Rightarrow> None)"

definition resume_at :: "worker_at \<Rightarrow> bool" where
  "resume_at a = (case a of AtResume \<Rightarrow> True | AtFreeze _ g \<Rightarrow> g | AtOffer _ g \<Rightarrow> g | _ \<Rightarrow> False)"

text \<open>Slots: who holds one, and what each obligation that releases one relies on.\<close>

definition slot_ok :: "taskWorker \<Rightarrow> bool" where
  "slot_ok w \<longleftrightarrow> (active_at (tw_at w) \<longrightarrow> tw_slot w \<and> \<not> tw_workPending w \<and> \<not> tw_ownsWork w)
     \<and> (tw_workPending w \<or> tw_ownsWork w \<longrightarrow> tw_slot w) \<and> (tw_ownsWork w \<longrightarrow> \<not> tw_workPending w)
     \<and> (tw_recovered w \<and> tw_cleaning w \<longrightarrow> tw_slot w \<and> \<not> tw_workPending w \<and> \<not> tw_cleanupOK w \<and> (tw_resuming w \<longrightarrow> tw_outcome w = None \<and> tw_pendingLost w = None))
     \<and> ((tw_outcome w \<noteq> None \<or> tw_pendingLost w \<noteq> None) \<and> tw_cleanupOK w \<and> \<not> tw_ownsWork w \<longrightarrow> tw_slot w = tw_workPending w)
     \<and> (tw_forgotten w \<longrightarrow> \<not> tw_slot w)"

definition flow_ok :: "taskWorker \<Rightarrow> bool" where
  "flow_ok w \<longleftrightarrow> (\<forall>g. resolved_at (tw_at w) = Some g \<longrightarrow> tw_cleanupOK w = g)
     \<and> (active_at (tw_at w) \<and> resolved_at (tw_at w) = None \<and> \<not> tw_recovered w \<longrightarrow> \<not> tw_cleanupOK w)
     \<and> (active_at (tw_at w) \<and> tw_recovered w \<longrightarrow> tw_resuming w \<and> resume_at (tw_at w))
     \<and> (tw_outcome w \<noteq> None \<longrightarrow> \<not> active_at (tw_at w))
     \<and> (tw_committed w \<longrightarrow> tw_outcome w \<noteq> None)
     \<and> (tw_ownsWork w \<longrightarrow> tw_recovered w)
     \<and> (tw_pendingLost w \<noteq> None \<longrightarrow> tw_recovered w \<and> tw_at w = AtDone \<and> tw_outcome w = None \<and> \<not> tw_forgotten w)
     \<and> (tw_forgotten w \<and> tw_outcome w \<noteq> None \<longrightarrow> tw_committed w)"

text \<open>Documents: the outcome offered is the one on disk.\<close>

definition disk_ok :: "taskWorker \<Rightarrow> bool" where
  "disk_ok w \<longleftrightarrow> (\<forall>r g. tw_at w = AtOffer r g \<longrightarrow> tw_disk w = Some (frozen_phase r, Some r))
     \<and> (\<forall>r. tw_outcome w = Some r \<and> \<not> tw_forgotten w \<longrightarrow> tw_disk w = Some (frozen_phase r, Some r))
     \<and> (\<forall>r. tw_pendingLost w = Some r \<longrightarrow> r_Outcome r = OutcomeLost)"

definition wk_ok :: "taskWorker \<Rightarrow> bool" where
  "wk_ok w \<longleftrightarrow> slot_ok w \<and> flow_ok w \<and> disk_ok w"

definition slot_holders :: "instanceKey \<Rightarrow> taskSupervisor \<Rightarrow> nat set" where
  "slot_holders k s = {p. \<exists>w. sv_workers s p = Some w \<and> tw_key w = k \<and> tw_slot w}"

definition sup_ok :: "taskSupervisor \<Rightarrow> bool" where
  "sup_ok s \<longleftrightarrow> (\<forall>p. sv_next s \<le> p \<longrightarrow> sv_workers s p = None) \<and> (\<forall>p w. sv_workers s p = Some w \<longrightarrow> wk_ok w)
     \<and> (\<forall>k. sv_occupied s k = int (card (slot_holders k s))) \<and> sv_blockers s = {p. \<exists>w. sv_workers s p = Some w \<and> blocks w}"

lemma finite_slot_holders: "sup_ok s \<Longrightarrow> finite (slot_holders k s)"
  by (rule finite_subset [of _ "{..<sv_next s}"]) (auto simp: slot_holders_def sup_ok_def not_le dest: leI)

lemma slot_holders_put:
  assumes "sv_workers s p = Some w" and "tw_key w' = tw_key w"
  shows "slot_holders k (put_worker p w' s) = (if tw_key w \<noteq> k then slot_holders k s else if tw_slot w' then insert p (slot_holders k s) else slot_holders k s - {p})"
  using assms by (auto simp: slot_holders_def put_worker_def)

lemma put_keep:
  assumes "sup_ok s" and "sv_workers s p = Some w" and "wk_ok w'" and "tw_key w' = tw_key w" and "tw_slot w' = tw_slot w" and "blocks w' = blocks w"
  shows "sup_ok (put_worker p w' s)"
proof -
  have "slot_holders k (put_worker p w' s) = slot_holders k s" for k
    using assms(2,5) unfolding slot_holders_put [OF assms(2,4)] by (auto simp: slot_holders_def)
  then show ?thesis using assms by (auto simp: sup_ok_def put_worker_def)
qed

text \<open>The blockers are the only part \<open>refreshBlocker\<close> changes, so a put may break them before it.\<close>

lemma refresh_ok:
  assumes "\<forall>p. sv_next s \<le> p \<longrightarrow> sv_workers s p = None" "\<forall>p w. sv_workers s p = Some w \<longrightarrow> wk_ok w" "\<forall>k. sv_occupied s k = int (card (slot_holders k s))"
    and "sv_blockers s - {p} = {q. \<exists>w. sv_workers s q = Some w \<and> blocks w} - {p}" and "sv_workers s p = Some w"
  shows "sup_ok (refreshBlocker p s)"
proof -
  have h: "slot_holders k (s\<lparr>sv_blockers := b\<rparr>) = slot_holders k s" for k b by (simp add: slot_holders_def)
  have "(if blocks w then insert p (sv_blockers s) else sv_blockers s - {p}) = {q. \<exists>w. sv_workers s q = Some w \<and> blocks w}"
    using assms(4,5) by (auto split: if_splits)
  then show ?thesis using assms by (simp add: refreshBlocker_def setBlocker_def sup_ok_def h)
qed

lemma put_refresh:
  assumes "sup_ok s" and "sv_workers s p = Some w" and "wk_ok w'" and "tw_key w' = tw_key w" and "tw_slot w' = tw_slot w"
  shows "sup_ok (refreshBlocker p (put_worker p w' s))"
proof (rule refresh_ok [where w = w'])
  have "slot_holders k (put_worker p w' s) = slot_holders k s" for k
    using assms(2,5) unfolding slot_holders_put [OF assms(2,4)] by (auto simp: slot_holders_def)
  then show "\<forall>k. sv_occupied (put_worker p w' s) k = int (card (slot_holders k (put_worker p w' s)))" using assms(1) by (simp add: sup_ok_def put_worker_def)
qed (use assms in \<open>auto simp: sup_ok_def put_worker_def\<close>)

lemma release_count:
  assumes "sup_ok s" and "sv_workers s p = Some w" and "tw_key w' = tw_key w" and "tw_slot w" and "\<not> tw_slot w'"
  shows "sv_occupied (release (tw_key w) (put_worker p w' s)) k = int (card (slot_holders k (release (tw_key w) (put_worker p w' s))))"
proof -
  have h: "slot_holders k (release (tw_key w) t) = slot_holders k t" for t by (simp add: slot_holders_def release_def)
  have o: "sv_occupied s k = int (card (slot_holders k s))" using assms(1) unfolding sup_ok_def by blast
  show ?thesis
  proof (cases "tw_key w = k")
    case True
    then have "p \<in> slot_holders k s" using assms by (auto simp: slot_holders_def)
    then have "card (slot_holders k s) \<ge> 1" "card (slot_holders k s - {p}) = card (slot_holders k s) - 1"
      using finite_slot_holders [OF assms(1)] card_gt_0_iff [of "slot_holders k s"] by auto
    moreover have "slot_holders k (release (tw_key w) (put_worker p w' s)) = slot_holders k s - {p}" using True assms(5) unfolding h slot_holders_put [OF assms(2,3)] by simp
    moreover have "sv_occupied (release (tw_key w) (put_worker p w' s)) k = (if sv_occupied s k - 1 \<le> 0 then 0 else sv_occupied s k - 1)"
      using True by (simp add: release_def put_worker_def)
    ultimately show ?thesis using o by (simp add: of_nat_diff)
  next
    case False
    then have "slot_holders k (release (tw_key w) (put_worker p w' s)) = slot_holders k s" unfolding h slot_holders_put [OF assms(2,3)] by simp
    moreover have "sv_occupied (release (tw_key w) (put_worker p w' s)) k = sv_occupied s k" using False by (simp add: release_def put_worker_def)
    ultimately show ?thesis using o by simp
  qed
qed

lemma put_release:
  assumes "sup_ok s" and "sv_workers s p = Some w" and "wk_ok w'" and "tw_key w' = tw_key w" and "tw_slot w" and "\<not> tw_slot w'" and "blocks w' = blocks w"
  shows "sup_ok (release (tw_key w) (put_worker p w' s))"
  using assms(1-3,7) release_count [OF assms(1,2,4,5,6)] by (auto simp: sup_ok_def) (auto simp: release_def put_worker_def split: if_splits)

lemma put_release_refresh:
  assumes "sup_ok s" and "sv_workers s p = Some w" and "wk_ok w'" and "tw_key w' = tw_key w" and "tw_slot w" and "\<not> tw_slot w'"
  shows "sup_ok (refreshBlocker p (release (tw_key w) (put_worker p w' s)))"
  using assms(1-3) release_count [OF assms(1,2,4,5,6)]
  by (intro refresh_ok [where w = w']) (auto simp: sup_ok_def, auto simp: release_def put_worker_def split: if_splits)


lemma with_worker_ok:
  assumes "sup_ok s" and "\<And>w. sv_workers s p = Some w \<Longrightarrow> wk_ok w \<Longrightarrow> sup_ok (f w)"
  shows "sup_ok (with_worker p f s)"
proof (cases "sv_workers s p")
  case (Some w)
  then have "wk_ok w" using assms(1) unfolding sup_ok_def by blast
  then show ?thesis using assms(2) Some by (simp add: with_worker_def)
qed (use assms(1) in \<open>simp add: with_worker_def\<close>)

lemma active_simps [simp]: "\<not> active_at AtDone" "\<not> active_at AtReturned" "active_at (AtFreeze r g)" "active_at (AtOffer r g)" "active_at (AtResolve g)"
  "active_at (AtRefuse x)" "active_at (AtReport x)" "active_at AtPrepare" "active_at AtGuardian" "active_at AtExchange" "active_at AtAuthorize"
  "active_at AtLaunch" "active_at AtSupervise" "active_at AtResume"
  by (simp_all add: active_at_def)

lemma resume_simps [simp]: "resume_at (AtFreeze r g) = g" "resume_at (AtOffer r g) = g" "resume_at AtResume" "\<not> resume_at (AtResolve g)"
  "\<not> resume_at (AtRefuse x)" "\<not> resume_at (AtReport x)" "\<not> resume_at AtPrepare" "\<not> resume_at AtGuardian" "\<not> resume_at AtExchange" "\<not> resume_at AtAuthorize"
  "\<not> resume_at AtLaunch" "\<not> resume_at AtSupervise"
  by (simp_all add: resume_at_def)

lemma resolved_simps [simp]: "resolved_at (AtFreeze r g) = Some g" "resolved_at (AtOffer r g) = Some g" "resolved_at (AtResolve g) = Some g"
  "resolved_at (AtRefuse x) = None" "resolved_at (AtReport x) = None" "resolved_at AtPrepare = None" "resolved_at AtGuardian = None" "resolved_at AtExchange = None"
  "resolved_at AtAuthorize = None" "resolved_at AtLaunch = None" "resolved_at AtSupervise = None" "resolved_at AtResume = None" "resolved_at AtReturned = None" "resolved_at AtDone = None"
  by (simp_all add: resolved_at_def)

text \<open>The invariant's clauses, one at a time.\<close>

lemma wk_facts:
  assumes "wk_ok w"
  shows wk_active: "active_at (tw_at w) \<Longrightarrow> tw_slot w \<and> \<not> tw_workPending w \<and> \<not> tw_ownsWork w \<and> tw_outcome w = None \<and> tw_pendingLost w = None \<and> \<not> tw_committed w \<and> \<not> tw_forgotten w"
    and wk_owes: "tw_workPending w \<or> tw_ownsWork w \<Longrightarrow> tw_slot w \<and> \<not> tw_forgotten w"
    and wk_recovering: "tw_recovered w \<Longrightarrow> tw_cleaning w \<Longrightarrow> tw_slot w \<and> \<not> tw_workPending w \<and> \<not> tw_cleanupOK w \<and> \<not> tw_forgotten w \<and> (tw_resuming w \<longrightarrow> tw_outcome w = None \<and> tw_pendingLost w = None)"
    and wk_settled: "tw_outcome w \<noteq> None \<or> tw_pendingLost w \<noteq> None \<Longrightarrow> tw_cleanupOK w \<Longrightarrow> \<not> tw_ownsWork w \<Longrightarrow> tw_slot w = tw_workPending w"
    and wk_resolved_at: "resolved_at (tw_at w) = Some g \<Longrightarrow> tw_cleanupOK w = g"
    and wk_unresolved: "active_at (tw_at w) \<Longrightarrow> resolved_at (tw_at w) = None \<Longrightarrow> \<not> tw_recovered w \<Longrightarrow> \<not> tw_cleanupOK w"
    and wk_resuming: "active_at (tw_at w) \<Longrightarrow> tw_recovered w \<Longrightarrow> tw_resuming w \<and> resume_at (tw_at w)"
    and wk_outcome: "tw_outcome w \<noteq> None \<Longrightarrow> \<not> active_at (tw_at w)"
    and wk_commit: "tw_committed w \<Longrightarrow> tw_outcome w \<noteq> None"
    and wk_owns: "tw_ownsWork w \<Longrightarrow> tw_recovered w"
    and wk_pending: "tw_pendingLost w = Some r \<Longrightarrow> tw_recovered w \<and> tw_at w = AtDone \<and> r_Outcome r = OutcomeLost \<and> tw_outcome w = None \<and> \<not> tw_forgotten w"
    and wk_deleted: "tw_forgotten w \<Longrightarrow> tw_outcome w \<noteq> None \<Longrightarrow> tw_committed w"
    and wk_offering: "tw_at w = AtOffer r g \<Longrightarrow> tw_disk w = Some (frozen_phase r, Some r)"
    and wk_durable: "tw_outcome w = Some r \<Longrightarrow> \<not> tw_forgotten w \<Longrightarrow> tw_disk w = Some (frozen_phase r, Some r)"
proof -
  have S: "slot_ok w" and F: "flow_ok w" and D: "disk_ok w" using assms by (simp_all add: wk_ok_def)
  note S = S [unfolded slot_ok_def] and F = F [unfolded flow_ok_def] and D = D [unfolded disk_ok_def]
  show f9: "tw_committed w \<Longrightarrow> tw_outcome w \<noteq> None" using F by blast
  show f8: "tw_outcome w \<noteq> None \<Longrightarrow> \<not> active_at (tw_at w)" using F by blast
  show f11: "tw_pendingLost w = Some r \<Longrightarrow> tw_recovered w \<and> tw_at w = AtDone \<and> r_Outcome r = OutcomeLost \<and> tw_outcome w = None \<and> \<not> tw_forgotten w" for r using F D by auto
  show "active_at (tw_at w) \<Longrightarrow> tw_slot w \<and> \<not> tw_workPending w \<and> \<not> tw_ownsWork w \<and> tw_outcome w = None \<and> tw_pendingLost w = None \<and> \<not> tw_committed w \<and> \<not> tw_forgotten w"
  proof -
    assume a: "active_at (tw_at w)"
    have o: "tw_slot w \<and> \<not> tw_workPending w \<and> \<not> tw_ownsWork w" using S a by blast
    have "tw_at w \<noteq> AtDone" using a by auto
    then have "tw_pendingLost w = None" using f11 by (cases "tw_pendingLost w") auto
    moreover have "\<not> tw_forgotten w" using S o by blast
    ultimately show ?thesis using o f8 f9 a by blast
  qed
  show "tw_workPending w \<or> tw_ownsWork w \<Longrightarrow> tw_slot w \<and> \<not> tw_forgotten w" using S by blast
  show "tw_recovered w \<Longrightarrow> tw_cleaning w \<Longrightarrow> tw_slot w \<and> \<not> tw_workPending w \<and> \<not> tw_cleanupOK w \<and> \<not> tw_forgotten w \<and> (tw_resuming w \<longrightarrow> tw_outcome w = None \<and> tw_pendingLost w = None)"
    using S by blast
  show "tw_outcome w \<noteq> None \<or> tw_pendingLost w \<noteq> None \<Longrightarrow> tw_cleanupOK w \<Longrightarrow> \<not> tw_ownsWork w \<Longrightarrow> tw_slot w = tw_workPending w" using S by blast
  show "resolved_at (tw_at w) = Some g \<Longrightarrow> tw_cleanupOK w = g" using F by blast
  show "active_at (tw_at w) \<Longrightarrow> resolved_at (tw_at w) = None \<Longrightarrow> \<not> tw_recovered w \<Longrightarrow> \<not> tw_cleanupOK w" using F by blast
  show "active_at (tw_at w) \<Longrightarrow> tw_recovered w \<Longrightarrow> tw_resuming w \<and> resume_at (tw_at w)" using F by blast
  show "tw_ownsWork w \<Longrightarrow> tw_recovered w" using F by blast
  show "tw_forgotten w \<Longrightarrow> tw_outcome w \<noteq> None \<Longrightarrow> tw_committed w" using F by blast
  show "tw_at w = AtOffer r g \<Longrightarrow> tw_disk w = Some (frozen_phase r, Some r)" using D by blast
  show "tw_outcome w = Some r \<Longrightarrow> \<not> tw_forgotten w \<Longrightarrow> tw_disk w = Some (frozen_phase r, Some r)" using D by blast
qed

text \<open>A goroutine's move to a position where nothing is resolved.\<close>

lemma wk_move:
  assumes "wk_ok w" and "active_at (tw_at w)" and "resolved_at (tw_at w) = None" and "resolved_at a = None" and "\<not> tw_recovered w"
  shows "wk_ok (w\<lparr>tw_at := a\<rparr>)"
proof -
  have "a \<noteq> AtOffer r g" "a \<noteq> AtFreeze r g" "a \<noteq> AtResolve g" for r g using assms(4) by (auto simp: resolved_at_def)
  moreover have "slot_ok (w\<lparr>tw_at := a\<rparr>)" using assms(1,2) by (auto simp: wk_ok_def slot_ok_def)
  moreover have "flow_ok (w\<lparr>tw_at := a\<rparr>)" using assms by (auto simp: wk_ok_def flow_ok_def)
  ultimately show ?thesis using assms(1) by (simp add: wk_ok_def disk_ok_def)
qed

lemma key_of_updates: "tw_key (w\<lparr>tw_at := a\<rparr>) = tw_key w" "tw_key (cleanup_recorded g w) = tw_key w" "tw_slot (cleanup_recorded g w) = tw_slot w"
  by (simp_all add: tw_key_def cleanup_recorded_def)

text \<open>The group's end, or its absence, recorded together with the position that carries it.\<close>

lemma wk_resolved:
  assumes "wk_ok w" and "active_at (tw_at w)" and "resolved_at (tw_at w) = None" and "\<not> tw_recovered w" and "a = AtFreeze r gone \<or> a = AtResolve gone"
  shows "wk_ok ((cleanup_recorded gone w)\<lparr>tw_at := a\<rparr>)"
proof -
  have "tw_cleanupOK w = False" "tw_outcome w = None" "tw_pendingLost w = None" using assms by (auto simp: wk_ok_def flow_ok_def active_at_def)
  then show ?thesis using assms by (auto simp: wk_ok_def slot_ok_def flow_ok_def disk_ok_def cleanup_recorded_def active_at_def resolved_at_def)
qed

lemma block_instance_ok: "sup_ok (block_instance g k s) = sup_ok s" "refreshBlocker p (block_instance g k s) = block_instance g k (refreshBlocker p s)"
  by (simp_all add: block_instance_def sup_ok_def slot_holders_def refreshBlocker_def setBlocker_def split: option.split)

lemma cancel_before_start_ok:
  assumes "sup_ok s" and "sv_workers s p = Some w" and "active_at (tw_at w)" and "resolved_at (tw_at w) = None" and "\<not> tw_recovered w"
  shows "sup_ok (cancel_before_start dg p gone c w s)" "sup_ok (lostBeforeLaunch dg p gone w s)"
proof -
  have ok: "wk_ok w" using assms(1,2) unfolding sup_ok_def by blast
  have "sup_ok (refreshBlocker p (put_worker p ((cleanup_recorded gone w)\<lparr>tw_at := AtFreeze r gone\<rparr>) s))" for r
    using put_refresh [OF assms(1,2) wk_resolved [OF ok assms(3-5)]] by (simp add: key_of_updates)
  then show "sup_ok (cancel_before_start dg p gone c w s)" "sup_ok (lostBeforeLaunch dg p gone w s)"
    by (simp_all add: cancel_before_start_def lostBeforeLaunch_def Let_def block_instance_ok)
qed


text \<open>A goroutine before its resolution is a start of this Run.\<close>

lemma wk_fresh:
  assumes "wk_ok w" and "active_at (tw_at w)" and "\<not> resume_at (tw_at w)"
  shows "\<not> tw_recovered w"
  using assms by (auto simp: wk_ok_def flow_ok_def)

text \<open>Updates that touch nothing the invariant reads.\<close>

lemma wk_quiet:
  "wk_ok (w\<lparr>tw_prepOut := x\<rparr>) = wk_ok w" "wk_ok (w\<lparr>tw_prepSent := x\<rparr>) = wk_ok w" "wk_ok (w\<lparr>tw_prepReply := x\<rparr>) = wk_ok w" "wk_ok (w\<lparr>tw_deadline := d\<rparr>) = wk_ok w"
  "wk_ok (w\<lparr>tw_expired := x\<rparr>) = wk_ok w" "wk_ok (w\<lparr>tw_phase := ph\<rparr>) = wk_ok w" "wk_ok (w\<lparr>tw_refusal := r\<rparr>) = wk_ok w" "wk_ok (w\<lparr>tw_started := t\<rparr>) = wk_ok w"
  "wk_ok (w\<lparr>tw_tag := g\<rparr>) = wk_ok w" "wk_ok (w\<lparr>tw_replied := x\<rparr>) = wk_ok w" "wk_ok (w\<lparr>tw_late := x\<rparr>) = wk_ok w" "wk_ok (w\<lparr>tw_waitAck := x\<rparr>) = wk_ok w"
  "wk_ok (w\<lparr>tw_nextSend := t\<rparr>) = wk_ok w" "wk_ok (w\<lparr>tw_stopReq := x\<rparr>) = wk_ok w" "wk_ok (w\<lparr>tw_journalFailing := x\<rparr>) = wk_ok w" "wk_ok (w\<lparr>tw_unconfirmed := x\<rparr>) = wk_ok w"
  "wk_ok (w\<lparr>tw_ctl := c\<rparr>) = wk_ok w" "wk_ok (w\<lparr>tw_ring := ri\<rparr>) = wk_ok w" "wk_ok (w\<lparr>tw_done := x\<rparr>) = wk_ok w"
  by (simp_all add: wk_ok_def slot_ok_def flow_ok_def disk_ok_def)

lemma wk_cleaning: "\<not> tw_recovered w \<Longrightarrow> wk_ok (w\<lparr>tw_cleaning := x\<rparr>) = wk_ok w"
  by (simp add: wk_ok_def slot_ok_def flow_ok_def disk_ok_def)

lemma wk_disk:
  assumes "active_at (tw_at w)" and "resolved_at (tw_at w) = None" and "wk_ok w"
  shows "wk_ok (w\<lparr>tw_disk := x\<rparr>)"
proof -
  have "tw_outcome w = None" "\<And>r g. tw_at w \<noteq> AtOffer r g" using assms wk_active [OF assms(3)] by auto
  then have "disk_ok (w\<lparr>tw_disk := x\<rparr>)" using assms(3) by (simp add: wk_ok_def disk_ok_def)
  moreover have "slot_ok (w\<lparr>tw_disk := x\<rparr>) = slot_ok w" "flow_ok (w\<lparr>tw_disk := x\<rparr>) = flow_ok w" by (simp_all add: slot_ok_def flow_ok_def)
  ultimately show ?thesis using assms(3) by (simp add: wk_ok_def)
qed


lemmas wk_steps = wk_quiet wk_move wk_fresh tw_key_def blocks_def

lemma refuseOwned_ok:
  assumes "sup_ok s" and "sv_workers s p = Some w" and "wk_ok w" and "active_at (tw_at w)" and "resolved_at (tw_at w) = None" and "\<not> tw_recovered w"
  shows "sup_ok (put_worker p (refuseOwned r w) s)" "sup_ok (put_worker p (w\<lparr>tw_at := AtRefuse r\<rparr>) s)" "sup_ok (put_worker p (w\<lparr>tw_at := AtReturned\<rparr>) s)"
    "sup_ok (put_worker p (w\<lparr>tw_at := AtReport r, tw_prepOut := True, tw_prepSent := False\<rparr>) s)"
  using assms by (auto intro!: put_keep [OF assms(1,2)] simp: refuseOwned_def wk_steps)

lemma abandon_ok:
  assumes "sup_ok s" and "sv_workers s p = Some v" and "wk_ok w" and "active_at (tw_at w)" and "resolved_at (tw_at w) = None" and "\<not> tw_recovered w"
    and "tw_key w = tw_key v" "tw_slot w = tw_slot v" "blocks w = blocks v"
  shows "sup_ok (abandon dg p reason decided gone w s)"
proof (cases "tw_ctl w")
  case None
  have "wk_ok (refuseOwned reason w)" using assms(3-6) by (auto simp: refuseOwned_def wk_steps)
  then have 1: "sup_ok (put_worker p (refuseOwned reason w) s)" using assms(7-9) by (intro put_keep [OF assms(1,2)]) (simp_all add: refuseOwned_def tw_key_def blocks_def)
  have "wk_ok (w\<lparr>tw_at := AtRefuse reason\<rparr>)" using assms(3-6) by (simp add: wk_move)
  then have 2: "sup_ok (put_worker p (w\<lparr>tw_at := AtRefuse reason\<rparr>) s)" using assms(7-9) by (intro put_keep [OF assms(1,2)]) (simp_all add: tw_key_def blocks_def)
  show ?thesis using None 1 2 by (simp add: abandon_def)
next
  case (Some c)
  have "sup_ok (refreshBlocker p (put_worker p ((cleanup_recorded gone w)\<lparr>tw_at := AtFreeze r gone\<rparr>) s))" for r
    using put_refresh [OF assms(1,2) wk_resolved [OF assms(3-6)]] assms(7,8) by (simp add: key_of_updates)
  then show ?thesis using Some by (simp add: abandon_def cancel_before_start_def Let_def block_instance_ok)
qed

lemma prepare_steps_ok:
  assumes ok: "sup_ok s"
  shows "sup_ok (prepare_failed p r s)" "sup_ok (journal_prepared p s)" "sup_ok (prepare_begun p d s)" "sup_ok (invocation_failed p s)"
    "sup_ok (checkout_failed dg p r s)" "sup_ok (spawn_guardian dg p b s)"
proof -
  show "sup_ok (prepare_failed p r s)" unfolding prepare_failed_def
    by (rule with_worker_ok [OF ok]) (auto simp: ok wk_fresh intro!: refuseOwned_ok [OF ok])
  show "sup_ok (journal_prepared p s)" unfolding journal_prepared_def
    by (rule with_worker_ok [OF ok]) (auto simp: ok wk_disk tw_key_def blocks_def intro!: put_keep [OF ok])
  show "sup_ok (prepare_begun p d s)" unfolding prepare_begun_def
    by (rule with_worker_ok [OF ok]) (auto simp: ok wk_steps intro!: put_keep [OF ok])
  show "sup_ok (invocation_failed p s)" unfolding invocation_failed_def
    by (rule with_worker_ok [OF ok]) (auto simp: ok wk_fresh intro!: refuseOwned_ok [OF ok])
  show "sup_ok (checkout_failed dg p r s)" unfolding checkout_failed_def
    by (rule with_worker_ok [OF ok]) (auto simp: ok wk_fresh split: option.split intro!: refuseOwned_ok [OF ok] cancel_before_start_ok [OF ok])
  show "sup_ok (spawn_guardian dg p b s)" unfolding spawn_guardian_def
    by (rule with_worker_ok [OF ok]) (auto simp: ok wk_steps refuseOwned_def split: option.split intro!: cancel_before_start_ok [OF ok] put_keep [OF ok])
qed


lemma launch_steps_ok:
  assumes ok: "sup_ok s"
  shows "sup_ok (guardian_ready dg p rd g s)" "sup_ok (onPreparedAck dg p rel g s)" "sup_ok (exchange_stopped dg p g s)"
    "sup_ok (authorize_run dg p now j g s)" "sup_ok (launch_reported dg p m g s)" "sup_ok (group_ended p g s)"
proof -
  show "sup_ok (guardian_ready dg p rd g s)" unfolding guardian_ready_def
  proof (rule with_worker_ok [OF ok], goal_cases)
    case (1 w)
    then show ?case using abandon_ok [OF ok 1(1,2)] by (auto simp: ok wk_steps split: option.split bool.split intro!: put_keep [OF ok])
  qed
  show "sup_ok (onPreparedAck dg p rel g s)" unfolding onPreparedAck_def Let_def
  proof (rule with_worker_ok [OF ok], goal_cases)
    case (1 w)
    let ?w = "w\<lparr>tw_prepOut := False, tw_prepSent := False\<rparr>"
    have w: "wk_ok ?w" "tw_key ?w = tw_key w" "blocks ?w = blocks w" using 1 by (simp_all add: wk_steps)
    show ?case using abandon_ok [OF ok 1(1) w(1)] w 1 by (auto simp: ok wk_steps split: worker_at.split intro!: put_keep [OF ok])
  qed
  show "sup_ok (exchange_stopped dg p g s)" unfolding exchange_stopped_def Let_def
  proof (rule with_worker_ok [OF ok], goal_cases)
    case (1 w)
    let ?w = "w\<lparr>tw_prepOut := False\<rparr>"
    have w: "wk_ok ?w" "tw_key ?w = tw_key w" "blocks ?w = blocks w" using 1 by (simp_all add: wk_steps)
    show ?case using abandon_ok [OF ok 1(1) w(1)] w 1 by (auto simp: ok wk_steps split: worker_at.split intro!: put_keep [OF ok])
  qed
  show "sup_ok (launch_reported dg p m g s)" unfolding launch_reported_def
    by (rule with_worker_ok [OF ok]) (auto simp: ok wk_steps split: launch.split option.split intro!: cancel_before_start_ok [OF ok] put_keep [OF ok])
  show "sup_ok (group_ended p g s)" unfolding group_ended_def
  proof (rule with_worker_ok [OF ok], goal_cases)
    case (1 w)
    then show ?case using put_refresh [OF ok 1(1) wk_resolved [OF 1(2)]] by (auto simp: ok wk_fresh key_of_updates block_instance_ok)
  qed
  show "sup_ok (authorize_run dg p now j g s)" unfolding authorize_run_def Let_def
  proof (rule with_worker_ok [OF ok], goal_cases)
    case (1 w)
    show ?case
    proof (cases "tw_at w = AtAuthorize")
      case True
      let ?w = "w\<lparr>tw_phase := phaseAuthorized\<rparr>"
      have w: "wk_ok ?w" "tw_key ?w = tw_key w" "blocks ?w = blocks w" "\<not> tw_recovered w" using 1 True by (auto simp: wk_steps)
      have "wk_ok (?w\<lparr>tw_at := AtLaunch\<rparr>)" using w True by (intro wk_move) auto
      then have "wk_ok (?w\<lparr>tw_at := AtLaunch, tw_disk := Some (JournalRunning, None)\<rparr>)" by (intro wk_disk) auto
      then have "sup_ok (put_worker p (?w\<lparr>tw_at := AtLaunch, tw_disk := Some (JournalRunning, None)\<rparr>) s)"
        by (intro put_keep [OF ok 1(1)]) (simp_all add: tw_key_def blocks_def)
      moreover have "sup_ok (abandon dg p r d g ?w s)" for r d using w True by (intro abandon_ok [OF ok 1(1)]) auto
      moreover have "sup_ok (abandon dg p r d g w s)" for r d using 1 w(4) True by (intro abandon_ok [OF ok 1(1)]) auto
      ultimately show ?thesis using True ok by simp
    qed (simp add: ok)
  qed
qed


text \<open>Outcomes: resolved, frozen, offered.\<close>

lemma wk_resolve:
  assumes "wk_ok w" and "resolved_at (tw_at w) = Some g" and "\<not> tw_recovered w"
  shows "wk_ok (w\<lparr>tw_at := AtReturned\<rparr>)" "wk_ok (w\<lparr>tw_at := AtFreeze r g\<rparr>)"
proof -
  have "active_at (tw_at w)" using assms(2) by (auto simp: resolved_at_def active_at_def)
  then show "wk_ok (w\<lparr>tw_at := AtReturned\<rparr>)" "wk_ok (w\<lparr>tw_at := AtFreeze r g\<rparr>)"
    using assms by (auto simp: wk_ok_def slot_ok_def flow_ok_def disk_ok_def)
qed

lemma wk_frozen: "wk_ok w \<Longrightarrow> tw_at w = AtFreeze r g \<Longrightarrow> wk_ok (w\<lparr>tw_disk := Some (frozen_phase r, Some r), tw_at := AtOffer r g\<rparr>)"
  by (auto simp: wk_ok_def slot_ok_def flow_ok_def disk_ok_def)

lemma wk_freeze_stopped: "wk_ok w \<Longrightarrow> tw_at w = AtFreeze r g \<Longrightarrow> wk_ok (w\<lparr>tw_at := end_of w\<rparr>)"
  by (auto simp: wk_ok_def slot_ok_def flow_ok_def disk_ok_def end_of_def)

lemma wk_offered:
  assumes "wk_ok w" and "tw_at w = AtOffer r g" and "a = AtReturned \<or> a = AtDone" and "if g then x \<noteq> y else \<not> x \<and> \<not> y"
  shows "wk_ok (w\<lparr>tw_slot := (\<not> x), tw_workPending := y, tw_journalFailing := False, tw_outcome := Some r, tw_at := a\<rparr>)"
proof -
  have s: "tw_slot w" "\<not> tw_workPending w" "\<not> tw_ownsWork w" "\<not> tw_forgotten w" "tw_cleanupOK w = g" "tw_pendingLost w = None"
    using wk_active [OF assms(1)] wk_resolved_at [OF assms(1)] assms(2) by auto
  have rc: "\<not> (tw_recovered w \<and> tw_cleaning w)" using wk_resuming [OF assms(1)] wk_recovering [OF assms(1)] s(5) assms(2) by auto
  have d: "tw_disk w = Some (frozen_phase r, Some r)" using wk_offering [OF assms(1,2)] .
  have na: "\<not> active_at a" "resolved_at a = None" "a \<noteq> AtOffer r' g'" for r' g' using assms(3) by auto
  let ?v = "w\<lparr>tw_slot := (\<not> x), tw_workPending := y, tw_journalFailing := False, tw_outcome := Some r, tw_at := a\<rparr>"
  have "slot_ok ?v" using s na rc assms(4) by (auto simp: slot_ok_def split: if_splits)
  moreover have "flow_ok ?v" using s na by (simp add: flow_ok_def)
  moreover have "disk_ok ?v" using s(6) na d by (simp add: disk_ok_def)
  ultimately show ?thesis by (simp add: wk_ok_def)
qed

lemma outcome_steps_ok:
  assumes ok: "sup_ok s"
  shows "sup_ok (resolve_outcome dg p facts snap pub s)" "sup_ok (freeze_journaled p s)" "sup_ok (freeze_stopped p s)" "sup_ok (complete p s)"
proof -
  show "sup_ok (resolve_outcome dg p facts snap pub s)" unfolding resolve_outcome_def Let_def
  proof (rule with_worker_ok [OF ok], goal_cases)
    case (1 w)
    then have f: "tw_at w = AtResolve g \<Longrightarrow> \<not> tw_recovered w" for g using wk_fresh [OF 1(2)] by simp
    then show ?case using 1 wk_resolve [OF 1(2)]
      by (auto simp: ok tw_key_def blocks_def split: worker_at.split option.split intro!: put_keep [OF ok])
  qed
  show "sup_ok (freeze_journaled p s)" unfolding freeze_journaled_def
    by (rule with_worker_ok [OF ok]) (auto simp: ok wk_frozen tw_key_def blocks_def split: worker_at.split intro!: put_keep [OF ok])
  show "sup_ok (freeze_stopped p s)" unfolding freeze_stopped_def
    by (rule with_worker_ok [OF ok]) (auto simp: ok wk_freeze_stopped tw_key_def blocks_def split: worker_at.split intro!: put_keep [OF ok])
  have c: "wk_ok w \<Longrightarrow> tw_at w = AtReturned \<Longrightarrow> wk_ok (w\<lparr>tw_done := True, tw_at := AtDone\<rparr>)" for w
    by (auto simp: wk_ok_def slot_ok_def flow_ok_def disk_ok_def)
  show "sup_ok (complete p s)" unfolding complete_def
    by (rule with_worker_ok [OF ok]) (auto simp: ok c tw_key_def blocks_def intro!: put_keep [OF ok])
qed


lemma put_laws: "put_worker p a (put_worker p b s) = put_worker p a s" "with_worker p f (put_worker p b s) = f b"
  "with_worker p f (release k (put_worker p b s)) = f b" "put_worker p a (release k s) = release k (put_worker p a s)"
  by (simp_all add: put_worker_def with_worker_def release_def)

lemma offer_ok:
  assumes ok: "sup_ok s"
  shows "sup_ok (offer_outcome p removed s)"
  unfolding offer_outcome_def Let_def
proof (rule with_worker_ok [OF ok], goal_cases)
  case (1 w)
  show ?case
  proof (cases "tw_at w")
    case (AtOffer r g)
    define x where "x = (g \<and> removed)"
    define y where "y = (g \<and> \<not> removed)"
    let ?v = "w\<lparr>tw_slot := (\<not> x), tw_workPending := y, tw_journalFailing := False, tw_outcome := Some r, tw_at := end_of w\<rparr>"
    have v: "wk_ok ?v" by (rule wk_offered [OF 1(2) AtOffer]) (simp_all add: end_of_def x_def y_def)
    have k: "tw_key ?v = tw_key w" "tw_slot w" "\<not> tw_workPending w" using 1(2) AtOffer by (auto simp: tw_key_def wk_ok_def slot_ok_def)
    have b: "blocks ?v = (if tw_journalFailing w then tw_cleaning w \<or> tw_cleanupFailed w else blocks w)" by (simp add: blocks_def)
    have e: "end_of (w\<lparr>tw_slot := a\<rparr>) = end_of w" "end_of (w\<lparr>tw_workPending := b\<rparr>) = end_of w" for a b by (simp_all add: end_of_def)
    consider (rel) "g" "removed" | (pend) "g" "\<not> removed" | (keep) "\<not> g" by blast
    then show ?thesis
    proof cases
      case rel
      then have x: "x" "\<not> y" by (simp_all add: x_def y_def)
      have "sup_ok (refreshBlocker p (release (tw_key w) (put_worker p ?v s)))" using put_release_refresh [OF ok 1(1) v k(1,2)] x by simp
      moreover have "sup_ok (release (tw_key w) (put_worker p ?v s))" if "\<not> tw_journalFailing w" using put_release [OF ok 1(1) v k(1,2)] x b that by simp
      moreover have "?v = w\<lparr>tw_slot := False, tw_journalFailing := False, tw_outcome := Some r, tw_at := end_of w\<rparr>" using x k(3) by (cases w) (simp add: end_of_def)
      ultimately show ?thesis using AtOffer rel by (simp add: releaseWork_def put_laws e)
    next
      case pend
      then have x: "\<not> x" "y" by (simp_all add: x_def y_def)
      have "sup_ok (refreshBlocker p (put_worker p ?v s))" using put_refresh [OF ok 1(1) v k(1)] x k(2) by simp
      moreover have "sup_ok (put_worker p ?v s)" if "\<not> tw_journalFailing w" using put_keep [OF ok 1(1) v k(1)] x k(2) b that by simp
      moreover have "?v = w\<lparr>tw_workPending := True, tw_journalFailing := False, tw_outcome := Some r, tw_at := end_of w\<rparr>" using x k(2) by (cases w) (simp add: end_of_def)
      ultimately show ?thesis using AtOffer pend by (simp add: releaseWork_def put_laws e)
    next
      case keep
      then have x: "\<not> x" "\<not> y" by (simp_all add: x_def y_def)
      have v': "?v = w\<lparr>tw_journalFailing := False, tw_outcome := Some r, tw_at := end_of w\<rparr>" using x k(2,3) by (cases w) (simp add: end_of_def)
      have "sup_ok (refreshBlocker p (put_worker p ?v s))" using put_refresh [OF ok 1(1) v k(1)] x k(2) by simp
      moreover have "sup_ok (put_worker p ?v s)" if "\<not> tw_journalFailing w" using put_keep [OF ok 1(1) v k(1)] x k(2) b that by simp
      ultimately show ?thesis unfolding v' using AtOffer keep 1(1) by (simp add: with_worker_def)
    qed
  qed (simp_all add: ok)
qed


lemma stop_steps_ok:
  assumes ok: "sup_ok s"
  shows "sup_ok (requestStop p s)" "sup_ok (control p c s)" "sup_ok (journal_failed p s)" "sup_ok (intent_journaled p s)"
proof -
  have c: "wk_ok (w\<lparr>tw_stopReq := True, tw_cleaning := True\<rparr>)" "wk_ok (w\<lparr>tw_ctl := Some c, tw_cleaning := True\<rparr>)" if "wk_ok w" "\<not> tw_recovered w" for w
    using that by (simp_all add: wk_cleaning wk_quiet)
  show "sup_ok (requestStop p s)" unfolding requestStop_def Let_def
    by (rule with_worker_ok [OF ok]) (auto simp: ok c wk_quiet tw_key_def blocks_def intro!: put_keep [OF ok] put_refresh [OF ok])
  show "sup_ok (control p c s)" unfolding control_def Let_def
    by (rule with_worker_ok [OF ok]) (auto simp: ok c wk_quiet tw_key_def blocks_def intro!: put_keep [OF ok] put_refresh [OF ok])
  show "sup_ok (journal_failed p s)" unfolding journal_failed_def
    by (rule with_worker_ok [OF ok]) (auto simp: wk_quiet tw_key_def intro!: put_refresh [OF ok])
  show "sup_ok (intent_journaled p s)" unfolding intent_journaled_def
    by (rule with_worker_ok [OF ok]) (auto simp: ok wk_quiet tw_key_def split: option.split prod.split intro!: put_refresh [OF ok])
qed

lemma wk_refused:
  assumes "wk_ok w" and "tw_at w = AtRefuse r"
  shows "wk_ok (w\<lparr>tw_slot := False, tw_forgotten := True, tw_cleaning := False, tw_at := AtReturned\<rparr>)"
proof -
  have "\<not> tw_workPending w" "\<not> tw_ownsWork w" "tw_outcome w = None" "tw_pendingLost w = None" "\<not> tw_recovered w" "\<not> tw_committed w"
    using assms by (auto simp: wk_ok_def slot_ok_def flow_ok_def)
  then show ?thesis by (simp add: wk_ok_def slot_ok_def flow_ok_def disk_ok_def)
qed

lemma refuse_finish_ok:
  assumes ok: "sup_ok s"
  shows "sup_ok (refuse_finish p removed s)"
  unfolding refuse_finish_def Let_def
proof (rule with_worker_ok [OF ok], goal_cases)
  case (1 w)
  show ?case
  proof (cases "tw_at w")
    case (AtRefuse r)
    define w1 where "w1 = (if removed then w\<lparr>tw_journalFailing := False, tw_disk := None\<rparr> else w)"
    define w2 where "w2 = (if tw_phase w1 \<noteq> phaseRefused then w1\<lparr>tw_phase := phaseRefused, tw_refusal := Some r\<rparr> else w1)"
    define v where "v = w2\<lparr>tw_slot := False, tw_forgotten := True, tw_cleaning := False, tw_at := AtReturned\<rparr>"
    have "wk_ok w1" "tw_at w1 = AtRefuse r" "tw_key w1 = tw_key w" using 1(2) AtRefuse by (simp_all add: w1_def wk_disk wk_quiet tw_key_def)
    then have w2: "wk_ok w2" "tw_at w2 = AtRefuse r" "tw_key w2 = tw_key w" by (simp_all add: w2_def wk_quiet tw_key_def)
    have k: "wk_ok v" "tw_key v = tw_key w" "tw_slot w" "\<not> tw_slot v"
      using wk_refused [OF w2(1,2)] w2(3) 1(2) AtRefuse by (auto simp: v_def tw_key_def wk_ok_def slot_ok_def)
    have "sup_ok (refreshBlocker p (release (tw_key w) (put_worker p v s)))" by (rule put_release_refresh [OF ok 1(1) k])
    then show ?thesis using AtRefuse ok unfolding v_def w2_def w1_def by simp
  qed (simp_all add: ok)
qed

text \<open>The janitor and collection.\<close>

lemma janitor_ok:
  assumes ok: "sup_ok s"
  shows "sup_ok (janitor_removed p s)"
  unfolding janitor_removed_def Let_def
proof (rule with_worker_ok [OF ok], goal_cases)
  case (1 w)
  show ?case
  proof (cases "janitor_ready w")
    case True
    have f: "tw_outcome w \<noteq> None" "\<not> active_at (tw_at w)" "tw_slot w = tw_workPending w" "\<not> tw_ownsWork w" "\<not> (tw_recovered w \<and> tw_cleaning w)" "tw_committed w"
      using True wk_commit [OF 1(2)] wk_outcome [OF 1(2)] wk_settled [OF 1(2)] wk_recovering [OF 1(2)] unfolding janitor_ready_def by blast+
    let ?v = "w\<lparr>tw_journalFailing := False, tw_disk := None, tw_forgotten := True, tw_workPending := False\<rparr>"
    have at: "tw_at w \<noteq> AtOffer r g" for r g using f(2) by auto
    have v: "wk_ok (?v\<lparr>tw_slot := False\<rparr>)" using 1(2) f at by (simp add: wk_ok_def slot_ok_def flow_ok_def disk_ok_def)
    show ?thesis
    proof (cases "tw_workPending w")
      case True
      have "sup_ok (refreshBlocker p (release (tw_key w) (put_worker p (?v\<lparr>tw_slot := False\<rparr>) s)))"
        using put_release_refresh [OF ok 1(1) v] True f(3) by (simp add: tw_key_def)
      moreover have "refreshBlocker p (release k t) = release k (refreshBlocker p t)" for k t
        by (simp add: refreshBlocker_def release_def setBlocker_def split: option.split)
      ultimately show ?thesis using True \<open>janitor_ready w\<close> by simp
    next
      case False
      have "?v\<lparr>tw_slot := False\<rparr> = ?v" using f(3) False by (cases w) simp
      then have "sup_ok (refreshBlocker p (put_worker p ?v s))" using put_refresh [OF ok 1(1)] v by (simp add: tw_key_def)
      then show ?thesis using False \<open>janitor_ready w\<close> by simp
    qed
  qed (simp add: ok)
qed

lemma collect_ok:
  assumes ok: "sup_ok s"
  shows "sup_ok (collect s)"
proof -
  let ?g = "{p. \<exists>w. sv_workers s p = Some w \<and> collectable w}"
  have w: "sv_workers (collect s) p = (if p \<in> ?g then None else sv_workers s p)" for p by (auto simp: collect_def restrict_map_def)
  have k: "wk_ok w" if "sv_workers s p = Some w" for p w using ok that unfolding sup_ok_def by blast
  have "slot_holders k (collect s) = slot_holders k s" for k
    using k by (auto simp: slot_holders_def w collectable_def wk_ok_def slot_ok_def)
  moreover have "sv_occupied (collect s) = sv_occupied s" "sv_next (collect s) = sv_next s" "sv_blockers (collect s) = sv_blockers s - ?g" by (simp_all add: collect_def Let_def)
  ultimately show ?thesis using ok by (auto simp: sup_ok_def w split: if_splits)
qed


lemma session_steps_ok:
  assumes ok: "sup_ok s"
  shows "sup_ok (start_expired p now s)" "sup_ok (start_replied p s)" "sup_ok (output_sent p s)" "sup_ok (output_acked p e s)" "sup_ok (output_written p b s)"
    "sup_ok (result_sent p s)" "sup_ok (load_tail p b s)"
  unfolding start_expired_def start_replied_def output_sent_def output_acked_def output_written_def result_sent_def load_tail_def
  by (rule with_worker_ok [OF ok], auto simp: ok wk_quiet tw_key_def blocks_def intro!: put_keep [OF ok])+

lemma wk_committed: "wk_ok w \<Longrightarrow> tw_outcome w \<noteq> None \<Longrightarrow> (tw_committed w \<Longrightarrow> x) \<Longrightarrow> wk_ok (w\<lparr>tw_committed := x\<rparr>)"
  by (simp add: wk_ok_def slot_ok_def flow_ok_def disk_ok_def)

lemma result_acked_ok: "sup_ok s \<Longrightarrow> sup_ok (result_acked p c at s)"
  unfolding result_acked_def
  by (rule with_worker_ok) (auto simp: wk_committed wk_quiet tw_key_def blocks_def intro!: put_keep)

lemma onReconcile_ok:
  assumes ok: "sup_ok s" and rep: "reported (EvReconcile p t a c) s"
  shows "sup_ok (onReconcile p t a c s)"
  unfolding onReconcile_def Let_def
proof (rule with_worker_ok [OF ok], goal_cases)
  case (1 w)
  have "sup_ok (put_worker p (w\<lparr>tw_tag := Some t, tw_replied := True, tw_late := x\<rparr>) s)" for x
    using 1(2) by (intro put_keep [OF ok 1(1)]) (simp_all add: wk_quiet tw_key_def blocks_def)
  then have "sup_ok (requestStop p (put_worker p (w\<lparr>tw_tag := Some t, tw_replied := True, tw_late := x\<rparr>) s))"
    "sup_ok (control p c (put_worker p (w\<lparr>tw_tag := Some t, tw_replied := True, tw_late := x\<rparr>) s))"
    "sup_ok (put_worker p (w\<lparr>tw_tag := Some t, tw_replied := True, tw_late := x\<rparr>) s)" for x using stop_steps_ok by auto
  moreover have "sup_ok (put_worker p (w\<lparr>tw_committed := True\<rparr>) s)" if "tw_outcome w \<noteq> None"
    using that 1(2) wk_committed by (intro put_keep [OF ok 1(1)]) (simp_all add: tw_key_def blocks_def)
  moreover have "tw_outcome w \<noteq> None" if "a = ActionForget" using rep 1(1) that by (simp add: reported_def)
  ultimately show ?case by simp
qed

lemma fence_ok:
  assumes ok: "sup_ok s"
  shows "sup_ok (fence t s)"
proof -
  define f :: "taskWorker \<Rightarrow> taskWorker" where "f = (\<lambda>w. if tw_tag w \<noteq> Some t then w else w\<lparr>tw_tag := None, tw_replied := False, tw_late := False, tw_prepSent := False,
    tw_unconfirmed := (tw_unconfirmed w \<or> tw_waitAck w), tw_waitAck := False, tw_ring := unbind (tw_ring w)\<rparr>)"
  have w: "sv_workers (fence t s) p = map_option f (sv_workers s p)" for p by (simp add: fence_def f_def split: option.split)
  have f: "wk_ok (f w) = wk_ok w" "tw_slot (f w) = tw_slot w" "tw_key (f w) = tw_key w" "blocks (f w) = blocks w" for w
    by (simp_all add: f_def wk_quiet tw_key_def blocks_def)
  have "slot_holders k (fence t s) = slot_holders k s" for k by (auto simp: slot_holders_def w f)
  moreover have "sv_occupied (fence t s) = sv_occupied s" "sv_next (fence t s) = sv_next s" "sv_blockers (fence t s) = sv_blockers s" by (simp_all add: fence_def)
  ultimately show ?thesis using ok by (auto simp: sup_ok_def w f)
qed

lemma recovery_steps_ok:
  assumes ok: "sup_ok s"
  shows "sup_ok (cleanupDone p b s)" "sup_ok (releaseRecoveredWork p b s)" "sup_ok (publishLost p s)" "sup_ok (resumeWorkspace p r s)"
proof -
  show "sup_ok (cleanupDone p b s)" unfolding cleanupDone_def Let_def
  proof (rule with_worker_ok [OF ok], goal_cases)
    case (1 w)
    show ?case
    proof (cases "tw_recovered w \<and> tw_cleaning w")
      case True
      have s: "tw_slot w" "\<not> tw_workPending w" "\<not> tw_cleanupOK w" "tw_forgotten w = False" using wk_recovering [OF 1(2)] True by blast+
      have r: "resolved_at (tw_at w) = None" if "active_at (tw_at w)"
      proof (cases "resolved_at (tw_at w)")
        case (Some g)
        then have "g" using wk_resuming [OF 1(2) that] True by (auto simp: resume_at_def resolved_at_def split: worker_at.splits)
        then show ?thesis using Some wk_resolved_at [OF 1(2)] s(3) by auto
      qed simp
      have nr: "resolved_at (tw_at w) = None" using r by (cases "active_at (tw_at w)") (auto simp: active_at_def)
      have eq: "flow_ok (w\<lparr>tw_cleaning := False, tw_cleanupFailed := True\<rparr>) = flow_ok w" "disk_ok (w\<lparr>tw_cleaning := False, tw_cleanupFailed := True\<rparr>) = disk_ok w"
        by (simp_all add: flow_ok_def disk_ok_def)
      have "slot_ok (w\<lparr>tw_cleaning := False, tw_cleanupFailed := True\<rparr>)"
        using wk_active [OF 1(2)] wk_owes [OF 1(2)] wk_settled [OF 1(2)] s unfolding slot_ok_def by simp
      then have bad: "wk_ok (w\<lparr>tw_cleaning := False, tw_cleanupFailed := True\<rparr>)" using 1(2) eq by (simp add: wk_ok_def)
      show ?thesis
      proof (cases "tw_resuming w \<or> tw_ownsWork w")
        case keep: True
        then have "tw_ownsWork w \<or> (tw_outcome w = None \<and> tw_pendingLost w = None)" using wk_recovering [OF 1(2)] True by blast
        then have "wk_ok (w\<lparr>tw_cleaning := False, tw_cleanupOK := True\<rparr>)"
          using 1(2) True nr s unfolding wk_ok_def slot_ok_def flow_ok_def disk_ok_def by (elim disjE) simp_all
        then show ?thesis using True keep bad by (auto simp: tw_key_def intro!: put_refresh [OF ok 1(1)])
      next
        case False
        then have na: "\<not> active_at (tw_at w)" using wk_resuming [OF 1(2)] True by blast
        have "wk_ok (w\<lparr>tw_cleaning := False, tw_cleanupOK := True, tw_slot := False\<rparr>)"
          using 1(2) True False nr s na unfolding wk_ok_def slot_ok_def flow_ok_def disk_ok_def by simp
        then have "sup_ok (refreshBlocker p (release (tw_key w) (put_worker p (w\<lparr>tw_cleaning := False, tw_cleanupOK := True, tw_slot := False\<rparr>) s)))"
          using s(1) by (intro put_release_refresh [OF ok 1(1)]) (simp_all add: tw_key_def)
        then show ?thesis using True False bad by (auto simp: tw_key_def intro!: put_refresh [OF ok 1(1)])
      qed
    qed (simp add: ok)
  qed
  show "sup_ok (releaseRecoveredWork p b s)" unfolding releaseRecoveredWork_def
  proof (rule with_worker_ok [OF ok], goal_cases)
    case (1 w)
    let ?c = "tw_ownsWork w \<and> tw_cleanupOK w \<and> tw_outcome w \<noteq> None \<and> tw_pendingLost w = None \<and> \<not> tw_forgotten w"
    have "sup_ok (release (tw_key w) (put_worker p (w\<lparr>tw_ownsWork := False, tw_slot := False\<rparr>) s))" "sup_ok (put_worker p (w\<lparr>tw_ownsWork := False, tw_workPending := True\<rparr>) s)" if c: ?c
    proof -
      have f: "tw_slot w" "\<not> active_at (tw_at w)" "\<not> (tw_recovered w \<and> tw_cleaning w)" "\<not> tw_forgotten w"
        using c wk_owes [OF 1(2)] wk_outcome [OF 1(2)] wk_recovering [OF 1(2)] by blast+
      have p: "\<not> tw_workPending w" using 1(2) c unfolding wk_ok_def slot_ok_def by blast
      have n: "resolved_at (tw_at w) = None" using f(2) by (auto simp: active_at_def)
      show "sup_ok (put_worker p (w\<lparr>tw_ownsWork := False, tw_workPending := True\<rparr>) s)"
        using 1(2) c f n by (intro put_keep [OF ok 1(1)]) (simp_all add: tw_key_def blocks_def wk_ok_def slot_ok_def flow_ok_def disk_ok_def)
      show "sup_ok (release (tw_key w) (put_worker p (w\<lparr>tw_ownsWork := False, tw_slot := False\<rparr>) s))"
        using 1(2) c f n p by (intro put_release [OF ok 1(1)]) (simp_all add: tw_key_def blocks_def wk_ok_def slot_ok_def flow_ok_def disk_ok_def)
    qed
    then show ?case using ok by simp
  qed
  show "sup_ok (publishLost p s)" unfolding publishLost_def
  proof (rule with_worker_ok [OF ok], goal_cases)
    case (1 w)
    show ?case
    proof (cases "tw_pendingLost w")
      case (Some r)
      have f: "tw_recovered w" "tw_at w = AtDone" "r_Outcome r = OutcomeLost" using wk_pending [OF 1(2) Some] by auto
      have "wk_ok (w\<lparr>tw_outcome := Some r, tw_pendingLost := None, tw_journalFailing := False, tw_disk := Some (JournalLost, Some r)\<rparr>)"
        using 1(2) Some f by (simp add: wk_ok_def slot_ok_def flow_ok_def disk_ok_def frozen_phase_def)
      then show ?thesis using Some by (auto simp: tw_key_def intro!: put_refresh [OF ok 1(1)])
    qed (simp add: ok)
  qed
  show "sup_ok (resumeWorkspace p r s)" unfolding resumeWorkspace_def
  proof (rule with_worker_ok [OF ok], goal_cases)
    case (1 w)
    have "wk_ok (w\<lparr>tw_at := AtDone\<rparr>)" "tw_cleanupOK w \<Longrightarrow> wk_ok (w\<lparr>tw_at := AtFreeze fin True\<rparr>)" if at: "tw_at w = AtResume" for fin
    proof -
      have f: "tw_slot w" "\<not> tw_workPending w" "\<not> tw_ownsWork w" "tw_outcome w = None" "tw_pendingLost w = None" "\<not> tw_committed w" "\<not> tw_forgotten w"
        using wk_active [OF 1(2)] at by simp_all
      have r: "tw_recovered w \<Longrightarrow> tw_resuming w" "tw_recovered w \<Longrightarrow> tw_cleaning w \<Longrightarrow> \<not> tw_cleanupOK w"
        using wk_resuming [OF 1(2)] wk_recovering [OF 1(2)] at by simp_all
      show "wk_ok (w\<lparr>tw_at := AtDone\<rparr>)" using f r(2) by (simp add: wk_ok_def slot_ok_def flow_ok_def disk_ok_def)
      show "wk_ok (w\<lparr>tw_at := AtFreeze fin True\<rparr>)" if "tw_cleanupOK w" using f r that by (simp add: wk_ok_def slot_ok_def flow_ok_def disk_ok_def) blast
    qed
    then show ?case using 1(1) by (auto simp: ok tw_key_def blocks_def split: option.split intro!: put_keep [OF ok])
  qed
qed


text \<open>An execution added under a new handle: a reserved start, or a loaded journal.\<close>

definition added :: "taskWorker \<Rightarrow> taskSupervisor \<Rightarrow> taskSupervisor" where
  "added w s = s\<lparr>sv_workers := (sv_workers s)(sv_next s \<mapsto> w), sv_next := sv_next s + 1,
     sv_occupied := (if tw_slot w then (sv_occupied s)(tw_key w := sv_occupied s (tw_key w) + 1) else sv_occupied s),
     sv_blockers := (if blocks w then insert (sv_next s) (sv_blockers s) else sv_blockers s)\<rparr>"

lemma added_ok:
  assumes ok: "sup_ok s" and w: "wk_ok w"
  shows "sup_ok (added w s)"
proof -
  let ?p = "sv_next s"
  have new: "sv_workers s ?p = None" and o: "\<And>k. sv_occupied s k = int (card (slot_holders k s))" using ok unfolding sup_ok_def by blast+
  have h: "slot_holders k (added w s) = (if tw_slot w \<and> tw_key w = k then insert ?p (slot_holders k s) else slot_holders k s)" for k
    using new by (auto simp: slot_holders_def added_def)
  have "?p \<notin> slot_holders k s" for k using new by (simp add: slot_holders_def)
  then have "card (slot_holders k (added w s)) = (if tw_slot w \<and> tw_key w = k then Suc (card (slot_holders k s)) else card (slot_holders k s))" for k
    using finite_slot_holders [OF ok] by (simp add: h)
  then have "sv_occupied (added w s) k = int (card (slot_holders k (added w s)))" for k using o by (simp add: added_def)
  moreover have "sv_blockers (added w s) = {p. \<exists>v. sv_workers (added w s) p = Some v \<and> blocks v}"
    using ok new unfolding sup_ok_def by (auto simp: added_def split: if_splits)
  ultimately show ?thesis using ok w unfolding sup_ok_def by (auto simp: added_def)
qed

lemma installed_key: "installedInstance rs role = Some r \<Longrightarrow> keyOf r = keyOf role"
  by (auto simp: installedInstance_def keyOf_def find_Some_iff split: option.splits if_splits)

lemma onTaskStart_ok:
  assumes ok: "sup_ok s"
  shows "sup_ok (fst (onTaskStart me rs ir rr st tag at cap s))"
proof -
  have "wk_ok (fresh_worker st tag d cap)" for d by (simp add: fresh_worker_def wk_ok_def slot_ok_def flow_ok_def disk_ok_def)
  then have "sup_ok (added (fresh_worker st tag d cap) s)" for d by (rule added_ok [OF ok])
  moreover have "begin_worker st tag d cap (s\<lparr>sv_occupied := (sv_occupied s)(k := sv_occupied s k + 1)\<rparr>) = added (fresh_worker st tag d cap) s"
    if "k = keyOf (ws_Role st)" for k d
    using that by (simp add: begin_worker_def added_def put_worker_def fresh_worker_def tw_key_def blocks_def)
  ultimately show ?thesis
    using ok installed_key [of rs "ws_Role st"] by (auto simp: onTaskStart_def Let_def reserve_def split: option.split if_splits)
qed

lemma loaded_result:
  assumes "ParseExecutionJournal env j0 = Inr j" and "\<not> unresolved j"
  shows "\<exists>r. xj_Result j = Some r \<and> xj_Phase j = frozen_phase r"
proof -
  have "journal_checks env j = Inr ()" using parsed_checks [OF assms(1)] by blast
  then have "phase_check env j = Inr ()" by (simp add: journal_checks_def firstErr_ok_iff)
  then show ?thesis using assms(2)
    by (auto simp: phase_check_def unresolved_def frozen_phase_def split: journal_phase.splits option.splits if_splits sum.splits)
qed

lemma recovered_worker_ok:
  assumes "ParseExecutionJournal env j0 = Inr (lj_j l)"
  shows "wk_ok (recovered_worker env cap l)"
proof -
  have "resumes l \<Longrightarrow> unresolved (lj_j l)" by (simp add: resumes_def unresolved_def)
  moreover have "r_Outcome (recovered_result env (lj_j l)) = OutcomeLost" by (simp add: recovered_fields)
  moreover have "frozen_phase (recovered_result env (lj_j l)) = JournalLost" by (simp add: frozen_phase_def recovered_fields)
  ultimately show ?thesis
    using loaded_result [OF assms]
    by (auto simp: recovered_worker_def recovered_def fresh_worker_def Let_def wk_ok_def slot_ok_def flow_ok_def disk_ok_def)
qed

lemma recover_one_ok:
  assumes "sup_ok s" and "ParseExecutionJournal env j0 = Inr (lj_j l)"
  shows "sup_ok (recover_one env cap l s)"
proof -
  have "blocks (recovered_worker env cap l) = (tw_cleaning (recovered_worker env cap l) \<or> tw_journalFailing (recovered_worker env cap l))"
    by (simp add: blocks_def recovered_worker_def recovered_def fresh_worker_def Let_def)
  then have "recover_one env cap l s = added (recovered_worker env cap l) s" by (simp add: recover_one_def added_def Let_def)
  then show ?thesis using added_ok [OF assms(1) recovered_worker_ok [OF assms(2)]] by simp
qed

lemma newSupervisor_ok: "sup_ok newSupervisor"
  by (simp add: newSupervisor_def sup_ok_def slot_holders_def)

lemma recoverJournals_ok:
  assumes "\<forall>l \<in> set ls. \<exists>j0. ParseExecutionJournal env j0 = Inr (lj_j l)"
  shows "sup_ok (recoverJournals env cap ls)"
proof -
  have "sup_ok s \<Longrightarrow> sup_ok (fold (recover_one env cap) ls s)" for s
    using assms by (induction ls arbitrary: s) (auto intro: recover_one_ok)
  then show ?thesis using newSupervisor_ok by (simp add: recoverJournals_def)
qed

lemma shutdown_ok: "sup_ok s \<Longrightarrow> sup_ok (shutdown s)"
  by (simp add: sup_ok_def shutdown_def slot_holders_def)

lemma sup_step_ok: "sup_ok s \<Longrightarrow> reported e s \<Longrightarrow> sup_ok (sup_step dg cap e s)"
  by (cases e) (simp_all add: onTaskStart_ok prepare_steps_ok launch_steps_ok outcome_steps_ok offer_ok stop_steps_ok refuse_finish_ok
      janitor_ok collect_ok session_steps_ok result_acked_ok onReconcile_ok fence_ok recovery_steps_ok shutdown_ok)

lemma sup_reach_ok: "sup_reach env cap s \<Longrightarrow> sup_ok s"
  by (induction rule: sup_reach.induct) (auto intro: recoverJournals_ok sup_step_ok)


subsection \<open>Slots, durability, and a stopped preparation\<close>


text \<open>
  C11. The outbox: an outcome is offered to the plane only when the execution's directory durably holds it, a lost outcome as a
  lost journal and any other as a completed one, and the journal is deleted only after the plane committed the
  outcome. Until then a crash loses neither the outcome nor its identity.
\<close>

theorem offered_is_durable:
  assumes "sup_reach env cap s" and "sv_workers s p = Some w" and "tw_outcome w = Some r"
  shows "(\<not> tw_forgotten w \<longrightarrow> tw_disk w = Some (if r_Outcome r = OutcomeLost then JournalLost else JournalCompleted, Some r))
    \<and> (tw_forgotten w \<longrightarrow> tw_committed w) \<and> \<not> active_at (tw_at w)"
proof -
  have w: "wk_ok w" using sup_reach_ok [OF assms(1)] assms(2) unfolding sup_ok_def by blast
  show ?thesis using wk_durable [OF w assms(3)] wk_deleted [OF w] wk_outcome [OF w] assms(3) by (simp add: frozen_phase_def)
qed

text \<open>A later state of the same Run.\<close>

definition sup_trans :: "journalEnv \<Rightarrow> nat \<Rightarrow> taskSupervisor \<Rightarrow> taskSupervisor \<Rightarrow> bool" where
  "sup_trans env cap s t \<longleftrightarrow> (\<exists>e. reported e s \<and> t = sup_step (je_digest env) cap e s)"

definition stranded :: "taskWorker \<Rightarrow> bool" where
  "stranded w \<longleftrightarrow> \<not> tw_recovered w \<and> tw_outcome w = None \<and> \<not> tw_forgotten w \<and> tw_cleaning w \<and> \<not> tw_cleanupOK w \<and> tw_slot w \<and> \<not> active_at (tw_at w)"

definition strands :: "nat \<Rightarrow> taskSupervisor \<Rightarrow> bool" where
  "strands p s \<longleftrightarrow> (\<exists>w. sv_workers s p = Some w \<and> stranded w)"

lemma strands_simps: "strands p (refreshBlocker q s) = strands p s" "strands p (release k s) = strands p s" "strands p (block_instance g k s) = strands p s"
  "strands p (s\<lparr>sv_closing := x\<rparr>) = strands p s"
  by (simp_all add: strands_def refreshBlocker_def setBlocker_def release_def block_instance_def split: option.split)

lemma strands_put: "strands p s \<Longrightarrow> (q = p \<Longrightarrow> stranded v) \<Longrightarrow> strands p (put_worker q v s)"
  by (auto simp: strands_def put_worker_def)

lemma strands_with:
  assumes "strands p s" and "\<And>w. sv_workers s q = Some w \<Longrightarrow> (q = p \<longrightarrow> stranded w) \<Longrightarrow> strands p (f w)"
  shows "strands p (with_worker q f s)"
proof (cases "sv_workers s q")
  case (Some w)
  have "q = p \<longrightarrow> stranded w" using assms(1) Some by (auto simp: strands_def)
  then show ?thesis using assms(2) Some by (simp add: with_worker_def)
qed (use assms(1) in \<open>simp add: with_worker_def\<close>)

text \<open>A step of an execution's goroutine: it needs the goroutine, and touches no other execution.\<close>

lemma strands_moves:
  assumes "strands p s" and "\<And>w. \<not> active_at (tw_at w) \<Longrightarrow> f w = s" and "\<And>w. q \<noteq> p \<Longrightarrow> sv_workers (f w) p = sv_workers s p"
  shows "strands p (with_worker q f s)"
proof (rule strands_with [OF assms(1)])
  fix w assume "q = p \<longrightarrow> stranded w"
  then show "strands p (f w)" using assms by (cases "q = p") (auto simp: strands_def stranded_def)
qed

lemma workers_simps: "sv_workers (put_worker q v s) = (sv_workers s)(q \<mapsto> v)" "sv_workers (refreshBlocker q s) = sv_workers s" "sv_workers (release k s) = sv_workers s"
  "sv_workers (block_instance g k s) = sv_workers s"
  by (simp_all add: put_worker_def refreshBlocker_def setBlocker_def release_def block_instance_def split: option.split)

lemma stranded_at: "stranded w \<Longrightarrow> tw_at w = AtReturned \<or> tw_at w = AtDone"
  by (auto simp: stranded_def active_at_def)

lemma stranded_quiet:
  "stranded (w\<lparr>tw_prepOut := x\<rparr>) = stranded w" "stranded (w\<lparr>tw_prepSent := x\<rparr>) = stranded w" "stranded (w\<lparr>tw_expired := x\<rparr>) = stranded w"
  "stranded (w\<lparr>tw_phase := ph\<rparr>) = stranded w" "stranded (w\<lparr>tw_refusal := r\<rparr>) = stranded w" "stranded (w\<lparr>tw_tag := g\<rparr>) = stranded w"
  "stranded (w\<lparr>tw_replied := x\<rparr>) = stranded w" "stranded (w\<lparr>tw_late := x\<rparr>) = stranded w" "stranded (w\<lparr>tw_waitAck := x\<rparr>) = stranded w"
  "stranded (w\<lparr>tw_stopReq := x\<rparr>) = stranded w" "stranded (w\<lparr>tw_journalFailing := x\<rparr>) = stranded w" "stranded (w\<lparr>tw_ctl := c\<rparr>) = stranded w"
  "stranded (w\<lparr>tw_ring := ri\<rparr>) = stranded w" "stranded (w\<lparr>tw_done := x\<rparr>) = stranded w" "stranded (w\<lparr>tw_committed := x\<rparr>) = stranded w"
  "stranded (w\<lparr>tw_unconfirmed := x\<rparr>) = stranded w" "stranded (w\<lparr>tw_nextSend := t\<rparr>) = stranded w"
  "stranded w \<Longrightarrow> stranded (w\<lparr>tw_cleaning := True\<rparr>)" "stranded w \<Longrightarrow> stranded (w\<lparr>tw_at := AtDone\<rparr>)"
  by (simp_all add: stranded_def)

lemmas move_defs = prepare_failed_def journal_prepared_def prepare_begun_def invocation_failed_def checkout_failed_def spawn_guardian_def guardian_ready_def
  exchange_stopped_def authorize_run_def launch_reported_def group_ended_def resolve_outcome_def freeze_journaled_def freeze_stopped_def
  refuse_finish_def offer_outcome_def resumeWorkspace_def

lemma strands_goroutine:
  assumes st: "strands p s"
  shows "strands p (prepare_failed q r s)" "strands p (journal_prepared q s)" "strands p (prepare_begun q d s)" "strands p (invocation_failed q s)"
    "strands p (checkout_failed dg q r s)" "strands p (spawn_guardian dg q b s)" "strands p (guardian_ready dg q rd g s)"
    "strands p (exchange_stopped dg q g s)" "strands p (authorize_run dg q now j g s)" "strands p (launch_reported dg q m g s)" "strands p (group_ended q g s)"
    "strands p (resolve_outcome dg q facts snap pub s)" "strands p (freeze_journaled q s)" "strands p (freeze_stopped q s)"
    "strands p (refuse_finish q b s)" "strands p (offer_outcome q b s)" "strands p (resumeWorkspace q x s)"
  unfolding move_defs Let_def
  by (rule strands_moves [OF st], force simp: active_at_def split: worker_at.split,
      simp add: workers_simps abandon_def cancel_before_start_def lostBeforeLaunch_def releaseWork_def put_laws with_worker_def Let_def
        split: option.split bool.split worker_at.split launch.split)+

lemma strands_session:
  assumes st: "strands p s"
  shows "strands p (requestStop q s)" "strands p (control q c s)" "strands p (journal_failed q s)" "strands p (intent_journaled q s)"
    "strands p (start_expired q now s)" "strands p (start_replied q s)" "strands p (output_sent q s)" "strands p (output_acked q e s)" "strands p (output_written q b s)"
    "strands p (result_sent q s)" "strands p (load_tail q b s)" "strands p (result_acked q x at s)" "strands p (complete q s)" "strands p (onPreparedAck dg q rel g s)"
  unfolding requestStop_def control_def journal_failed_def intent_journaled_def start_expired_def start_replied_def output_sent_def output_acked_def output_written_def
    result_sent_def load_tail_def result_acked_def complete_def onPreparedAck_def Let_def
  by (rule strands_with [OF st], use st stranded_at in \<open>fastforce simp: strands_simps stranded_quiet abandon_def cancel_before_start_def Let_def
      split: option.split prod.split worker_at.split intro!: strands_put\<close>)+

lemma strands_rest:
  assumes st: "strands p s" and ok: "sup_ok s"
  shows "strands p (onReconcile q t a c s)" "strands p (janitor_removed q s)" "strands p (cleanupDone q b s)" "strands p (releaseRecoveredWork q b s)"
    "strands p (publishLost q s)" "strands p (fence t s)" "strands p (collect s)" "strands p (shutdown s)" "strands p (fst (onTaskStart me rs ir rr ws t at cap s))"
proof -
  show "strands p (onReconcile q t a c s)" unfolding onReconcile_def Let_def
    by (rule strands_with [OF st]) (auto simp: stranded_quiet intro!: strands_put strands_session st)
  show "strands p (janitor_removed q s)" unfolding janitor_removed_def Let_def
    by (rule strands_with [OF st]) (auto simp: st strands_simps stranded_def janitor_ready_def intro!: strands_put)
  show "strands p (cleanupDone q b s)" unfolding cleanupDone_def Let_def
    by (rule strands_with [OF st]) (auto simp: st strands_simps stranded_def intro!: strands_put)
  show "strands p (releaseRecoveredWork q b s)" unfolding releaseRecoveredWork_def
    by (rule strands_with [OF st]) (auto simp: st strands_simps stranded_def intro!: strands_put)
  show "strands p (publishLost q s)" unfolding publishLost_def
  proof (rule strands_with [OF st], goal_cases)
    case (1 w)
    have "wk_ok w" using ok 1(1) unfolding sup_ok_def by blast
    then have "tw_pendingLost w = Some r \<Longrightarrow> tw_recovered w" for r using wk_pending by blast
    then show ?case using 1(2) by (auto simp: st strands_simps stranded_def split: option.split intro!: strands_put)
  qed
  show "strands p (fence t s)" using st by (auto simp: strands_def fence_def stranded_quiet)
  show "strands p (collect s)" using st by (auto simp: strands_def collect_def stranded_def collectable_def restrict_map_def)
  show "strands p (shutdown s)" using st by (simp add: shutdown_def strands_simps)
  have "sv_workers s (sv_next s) = None" using ok unfolding sup_ok_def by blast
  then have "p \<noteq> sv_next s" using st by (auto simp: strands_def)
  then show "strands p (fst (onTaskStart me rs ir rr ws t at cap s))"
    using st by (auto simp: strands_def onTaskStart_def reserve_def begin_worker_def put_worker_def Let_def split: option.split)
qed

lemma strands_step: "strands p s \<Longrightarrow> sup_ok s \<Longrightarrow> strands p (sup_step dg cap e s)"
  by (cases e) (simp_all add: strands_goroutine strands_session strands_rest)

lemma strands_run:
  assumes "(sup_trans env cap)\<^sup>*\<^sup>* s t" and "sup_reach env cap s" and "strands p s"
  shows "strands p t \<and> sup_reach env cap t"
  using assms by (induction rule: rtranclp_induct) (auto simp: sup_trans_def intro: strands_step sup_reach_ok sup_reach.step)

text \<open>
  C28. A stop that ends a checkout blocks the node for the rest of the Run: when a workspace execution is preparing its checkout, without a
  latched control, and the plane asks it to stop (\<open>stop_lost\<close>), the cancelled preparation takes the branch meant for the shutdown of the Run and
  its goroutine returns with no outcome, no refusal and its cleanup still marked under way. Whatever happens afterwards in
  this Run, that execution keeps its slot and never offers an outcome, the node stays blocked, and every start of every role is refused.
\<close>

theorem stopped_preparation_blocks:
  assumes "sup_reach env cap s" and "sv_workers s p = Some w" and "tw_at w = AtPrepare" and "tw_prepReply w" and "tw_phase w = phasePreparing"
    and "tw_ctl w = None" and "\<not> tw_stopReq w"
    and run: "(sup_trans env cap)\<^sup>*\<^sup>* (checkout_failed (je_digest env) p reason (requestStop p s)) t"
  shows "nodeBlocked t \<and> (\<forall>k c. reserve k c t = (t, False))
    \<and> (\<exists>v. sv_workers t p = Some v \<and> tw_outcome v = None \<and> \<not> tw_forgotten v \<and> tw_slot v \<and> \<not> active_at (tw_at v))"
proof -
  let ?d = "je_digest env" and ?s = "checkout_failed (je_digest env) p reason (requestStop p s)"
  have ok: "wk_ok w" using sup_reach_ok [OF assms(1)] assms(2) unfolding sup_ok_def by blast
  have f: "\<not> tw_recovered w" "tw_outcome w = None" "\<not> tw_forgotten w" "tw_slot w" "\<not> tw_cleanupOK w"
    using wk_active [OF ok] wk_fresh [OF ok] wk_unresolved [OF ok] assms(3) by simp_all
  let ?w = "w\<lparr>tw_stopReq := True, tw_cleaning := True\<rparr>"
  have "requestStop p s = refreshBlocker p (put_worker p ?w s)" using assms(2,5,7) f by (simp add: requestStop_def with_worker_def)
  moreover have "?s = put_worker p (?w\<lparr>tw_at := AtReturned\<rparr>) (requestStop p s)" if "sv_workers (requestStop p s) p = Some ?w"
    using that assms(3,4,6) by (simp add: checkout_failed_def with_worker_def)
  ultimately have "strands p ?s" using f by (simp add: workers_simps strands_def stranded_def)
  moreover have "sup_reach env cap ?s"
    using sup_reach.step [OF sup_reach.step [OF assms(1), of "EvStop p"], of "EvCheckoutFailed p reason"] by (simp add: reported_def)
  ultimately have t: "strands p t" "sup_reach env cap t" using strands_run [OF run] by blast+
  then obtain v where v: "sv_workers t p = Some v" "stranded v" by (auto simp: strands_def)
  have "sv_blockers t = {p. \<exists>w. sv_workers t p = Some w \<and> blocks w}" using sup_reach_ok [OF t(2)] unfolding sup_ok_def by blast
  then have "p \<in> sv_blockers t" using v by (auto simp: blocks_def stranded_def)
  then show ?thesis using v by (auto simp: nodeBlocked_def reserve_def stranded_def)
qed

subsection \<open>Concrete runs\<close>

definition demo_run :: "supEvent list \<Rightarrow> taskSupervisor" where
  "demo_run es = fold (sup_step (je_digest demo_jenv) 8) es newSupervisor"

definition demo_begin :: "WorkspaceBinding option \<Rightarrow> supEvent list" where
  "demo_begin bd = [EvStart demo_node [demo_role] 1 1 (demo_worker bd) 0 0, EvJournalPrepared 0]"

definition demo_begun :: "WorkspaceBinding option \<Rightarrow> taskWorker" where
  "demo_begun bd = (fresh_worker (demo_worker bd) 0 prepBudget 8)\<lparr>tw_disk := Some (JournalPrepared, None)\<rparr>"

lemma demo_run_reach: "(\<And>e s. e \<in> set es \<Longrightarrow> reported e s) \<Longrightarrow> sup_reach demo_jenv 8 (demo_run es)"
proof (induction es rule: rev_induct)
  case Nil
  then show ?case using sup_reach.start [of "[]" demo_jenv 8] by (simp add: demo_run_def recoverJournals_def)
next
  case (snoc e es)
  then show ?case using sup_reach.step [of demo_jenv 8 "demo_run es" e] by (simp add: demo_run_def)
qed

lemma demo_begin_run: "sup_reach demo_jenv 8 (demo_run (demo_begin bd))"
  "demo_run (demo_begin bd) = newSupervisor\<lparr>sv_workers := [0 \<mapsto> demo_begun bd], sv_occupied := (\<lambda>_. 0)(keyOf demo_role := 1), sv_next := 1\<rparr>"
  by (rule demo_run_reach) (auto simp: demo_begin_def reported_def demo_run_def demo_begun_def newSupervisor_def onTaskStart_def held_task_def installedInstance_def
    demo_worker_def demo_role_def reserve_def begin_worker_def put_worker_def journal_prepared_def with_worker_def fresh_worker_def Let_def)


definition demo_cancelled :: "supEvent list" where
  "demo_cancelled = demo_begin None @ [EvControl 0 demo_stop, EvSpawn 0 True, EvFrozen 0, EvOffer 0 True]"

theorem offered_is_durable_witness:
  "\<exists>w r. sv_workers (demo_run demo_cancelled) 0 = Some w \<and> tw_outcome w = Some r \<and> r_Outcome r = OutcomeCancelled \<and> tw_disk w = Some (JournalCompleted, Some r)"
proof -
  have R: "sup_reach demo_jenv 8 (demo_run demo_cancelled)" by (rule demo_run_reach) (auto simp: demo_cancelled_def demo_begin_def reported_def)
  have e: "demo_run demo_cancelled = fold (sup_step (je_digest demo_jenv) 8) [EvControl 0 demo_stop, EvSpawn 0 True, EvFrozen 0, EvOffer 0 True] (demo_run (demo_begin None))"
    by (simp add: demo_run_def demo_cancelled_def)
  obtain w r where w: "sv_workers (demo_run demo_cancelled) 0 = Some w" "tw_outcome w = Some r" "r_Outcome r = OutcomeCancelled" "\<not> tw_forgotten w"
    unfolding e demo_begin_run
    by (simp add: newSupervisor_def control_def spawn_guardian_def freeze_journaled_def offer_outcome_def with_worker_def put_worker_def demo_begun_def fresh_worker_def is_ws_def
        demo_worker_def cancel_before_start_def cancelBeforeStart_def cleanup_recorded_def refreshBlocker_def setBlocker_def block_instance_def releaseWork_def release_def
        workspaceCancelled_def Sealed_def blocks_def Let_def)
  then show ?thesis using offered_is_durable [OF R w(1,2)] by auto
qed

theorem stopped_preparation_blocks_witness:
  "\<exists>t. (sup_trans demo_jenv 8)\<^sup>*\<^sup>* (demo_run (demo_begin (Some demo_binding) @ [EvPrepareBegun 0 900, EvStop 0, EvCheckoutFailed 0 ''workspace_checkout_failed''])) t
     \<and> t = demo_run (demo_begin (Some demo_binding) @ [EvPrepareBegun 0 900, EvStop 0, EvCheckoutFailed 0 ''workspace_checkout_failed'', EvComplete 0])
     \<and> nodeBlocked t \<and> (\<forall>k c. \<not> snd (reserve k c t))"
proof -
  let ?b = "demo_begin (Some demo_binding)" and ?f = "''workspace_checkout_failed''"
  let ?u = "demo_run (?b @ [EvPrepareBegun 0 900])"
  let ?v = "demo_run (?b @ [EvPrepareBegun 0 900, EvStop 0, EvCheckoutFailed 0 ?f])" and ?t = "demo_run (?b @ [EvPrepareBegun 0 900, EvStop 0, EvCheckoutFailed 0 ?f, EvComplete 0])"
  have R: "sup_reach demo_jenv 8 ?u" by (rule demo_run_reach) (auto simp: demo_begin_def reported_def)
  have "?u = prepare_begun 0 900 (demo_run ?b)" by (simp add: demo_run_def)
  then have w: "sv_workers ?u 0 = Some ((demo_begun (Some demo_binding))\<lparr>tw_prepReply := True, tw_deadline := 900\<rparr>)"
    by (simp add: demo_begin_run(2) prepare_begun_def with_worker_def put_worker_def demo_begun_def fresh_worker_def is_ws_def demo_worker_def)
  have v: "?v = checkout_failed (je_digest demo_jenv) 0 ?f (requestStop 0 ?u)" by (simp add: demo_run_def)
  have "sup_trans demo_jenv 8 ?v ?t" unfolding sup_trans_def by (rule exI [of _ "EvComplete 0"]) (simp add: reported_def demo_run_def)
  then have run: "(sup_trans demo_jenv 8)\<^sup>*\<^sup>* ?v ?t" by blast
  have "nodeBlocked ?t \<and> (\<forall>k c. reserve k c ?t = (?t, False))"
    using stopped_preparation_blocks [OF R w _ _ _ _ _ run [unfolded v]] by (simp add: demo_begun_def fresh_worker_def)
  then show ?thesis using run by auto
qed

end
