(* ===== verification/Worker_Session.thy ===== *)
theory Worker_Session
  imports Worker_Tasks
begin

section \<open>The session's output turns\<close>

text \<open>
  \<open>nextOutput\<close> of \<open>internal/sidecar/session_tasks.go\<close>: which execution of an attachment uses the one output exchange next. Executions with
  unsent output and executions with a result to send take turns, each class in the cyclic order of task IDs from the
  last one served; a preparation outcome goes before both. The workers are the supervisor's, read under their locks.
\<close>

datatype reqKind = reqHeartbeat | reqLog | reqResult | reqInventory | reqPrepared

record outputState =
  os_replied :: bool
  os_late :: bool
  os_waitAck :: bool
  os_committed :: bool
  os_cleaning :: bool
  os_outcome :: "TaskResultBody option"
  os_nextSend :: "instant option"
  os_prepared :: bool

record outTurn =
  ot_resultTurn :: bool
  ot_lastLog :: string
  ot_lastResult :: string

definition outputState_of :: "taskWorker \<Rightarrow> outputState" where
  "outputState_of w = \<lparr>os_replied = tw_replied w, os_late = tw_late w, os_waitAck = tw_waitAck w, os_committed = tw_committed w,
     os_cleaning = (tw_recovered w \<and> tw_cleaning w), os_outcome = tw_outcome w, os_nextSend = tw_nextSend w, os_prepared = (tw_prepOut w \<and> \<not> tw_prepSent w)\<rparr>"

definition tw_id :: "taskWorker \<Rightarrow> string" where
  "tw_id w = ws_TaskID (tw_start w)"

definition snapshot_sup :: "taskSupervisor \<Rightarrow> taskWorker list" where
  "snapshot_sup s = sort_key tw_id (List.map_filter (sv_workers s) [0..<sv_next s])"

definition attached :: "nat \<Rightarrow> taskSupervisor \<Rightarrow> taskWorker list" where
  "attached tag s = filter (\<lambda>w. tw_tag w = Some tag) (snapshot_sup s)"

definition not_due :: "instant \<Rightarrow> instant option \<Rightarrow> bool" where
  "not_due now t \<longleftrightarrow> (case t of None \<Rightarrow> False | Some x \<Rightarrow> now < x)"

definition earlier :: "instant option \<Rightarrow> instant option \<Rightarrow> instant option" where
  "earlier t retry = (case retry of None \<Rightarrow> t | Some r \<Rightarrow> (case t of None \<Rightarrow> retry | Some x \<Rightarrow> if x < r then t else retry))"

text \<open>The classification of one execution, and the scan that ends at the first preparation outcome.\<close>

definition log_ready :: "taskWorker \<Rightarrow> bool" where
  "log_ready w \<longleftrightarrow> (let st = outputState_of w in pending_out (tw_ring w) \<and> (\<not> os_late st \<or> os_outcome st \<noteq> None))"

definition result_ready :: "taskWorker \<Rightarrow> bool" where
  "result_ready w \<longleftrightarrow> (let st = outputState_of w in os_outcome st \<noteq> None \<and> \<not> os_waitAck st \<and> \<not> os_committed st \<and> drained (tw_ring w))"

definition sendable :: "taskWorker \<Rightarrow> bool" where
  "sendable w \<longleftrightarrow> os_replied (outputState_of w) \<and> \<not> os_cleaning (outputState_of w)"

fun scan_outputs :: "instant \<Rightarrow> taskWorker list \<Rightarrow> taskWorker list \<Rightarrow> taskWorker list \<Rightarrow> instant option
    \<Rightarrow> (taskWorker \<times> instant option) + (taskWorker list \<times> taskWorker list \<times> instant option)" where
  "scan_outputs now [] logs results retry = Inr (logs, results, retry)"
| "scan_outputs now (w # ws) logs results retry =
     (if \<not> sendable w then scan_outputs now ws logs results retry
      else if os_prepared (outputState_of w) then Inl (w, retry)
      else if log_ready w then scan_outputs now ws (logs @ [w]) results retry
      else if result_ready w then
        (if not_due now (tw_nextSend w) then scan_outputs now ws logs results (earlier (tw_nextSend w) retry)
         else scan_outputs now ws logs (results @ [w]) retry)
      else scan_outputs now ws logs results retry)"

definition pick :: "taskWorker list \<Rightarrow> string \<Rightarrow> taskWorker" where
  "pick ws prev = (case find (\<lambda>w. tw_id w > prev) ws of Some w \<Rightarrow> w | None \<Rightarrow> hd ws)"

definition nextOutput :: "instant \<Rightarrow> taskWorker list \<Rightarrow> outTurn \<Rightarrow> outTurn \<times> (taskWorker \<times> reqKind) option \<times> instant option" where
  "nextOutput now ws t =
     (case scan_outputs now ws [] [] None of
        Inl (w, retry) \<Rightarrow> (t, Some (w, reqPrepared), retry)
      | Inr (logs, results, retry) \<Rightarrow>
          if results \<noteq> [] \<and> (ot_resultTurn t \<or> logs = [])
          then let w = pick results (ot_lastResult t) in (t\<lparr>ot_lastResult := tw_id w, ot_resultTurn := False\<rparr>, Some (w, reqResult), retry)
          else if logs \<noteq> []
          then let w = pick logs (ot_lastLog t) in (t\<lparr>ot_lastLog := tw_id w, ot_resultTurn := True\<rparr>, Some (w, reqLog), retry)
          else (t, None, retry))"

text \<open>Successive exchanges of one attachment: what is attached, and the time, at each.\<close>

primrec turn_at :: "(nat \<Rightarrow> instant \<times> taskWorker list) \<Rightarrow> outTurn \<Rightarrow> nat \<Rightarrow> outTurn" where
  "turn_at ws t 0 = t"
| "turn_at ws t (Suc i) = fst (nextOutput (fst (ws i)) (snd (ws i)) (turn_at ws t i))"

definition served :: "(nat \<Rightarrow> instant \<times> taskWorker list) \<Rightarrow> outTurn \<Rightarrow> nat \<Rightarrow> (taskWorker \<times> reqKind) option" where
  "served ws t i = fst (snd (nextOutput (fst (ws i)) (snd (ws i)) (turn_at ws t i)))"

definition in_class :: "reqKind \<Rightarrow> instant \<Rightarrow> taskWorker \<Rightarrow> bool" where
  "in_class k now w \<longleftrightarrow> sendable w \<and> (case k of
       reqLog \<Rightarrow> log_ready w
     | reqResult \<Rightarrow> \<not> log_ready w \<and> result_ready w \<and> \<not> not_due now (tw_nextSend w)
     | _ \<Rightarrow> False)"

subsection \<open>Every ready execution gets its turn\<close>

definition no_preparation :: "taskWorker list \<Rightarrow> bool" where
  "no_preparation ws \<longleftrightarrow> (\<forall>w \<in> set ws. sendable w \<longrightarrow> \<not> os_prepared (outputState_of w))"

lemma scan_classes:
  "no_preparation ws \<Longrightarrow> \<exists>r. scan_outputs now ws logs results retry
     = Inr (logs @ filter (in_class reqLog now) ws, results @ filter (in_class reqResult now) ws, r)"
  by (induction now ws logs results retry rule: scan_outputs.induct) (auto simp: in_class_def no_preparation_def)

lemma nextOutput_turns:
  fixes now ws t
  assumes "no_preparation ws"
  defines "L \<equiv> filter (in_class reqLog now) ws" and "R \<equiv> filter (in_class reqResult now) ws"
  shows "\<exists>r. nextOutput now ws t =
     (if R \<noteq> [] \<and> (ot_resultTurn t \<or> L = []) then (t\<lparr>ot_lastResult := tw_id (pick R (ot_lastResult t)), ot_resultTurn := False\<rparr>, Some (pick R (ot_lastResult t), reqResult), r)
      else if L \<noteq> [] then (t\<lparr>ot_lastLog := tw_id (pick L (ot_lastLog t)), ot_resultTurn := True\<rparr>, Some (pick L (ot_lastLog t), reqLog), r)
      else (t, None, r))"
proof -
  obtain r where "scan_outputs now ws [] [] None = Inr (L, R, r)" using scan_classes [OF assms(1), of now "[]" "[]" None] by (auto simp: L_def R_def)
  then show ?thesis by (simp add: nextOutput_def Let_def)
qed

text \<open>The IDs still to be served before \<open>x\<close>, from the last one served on, in cyclic order.\<close>

definition between :: "'a :: linorder \<Rightarrow> 'a \<Rightarrow> 'a set" where
  "between a x = (if a < x then {y. a < y \<and> y < x} else {y. a < y \<or> y < x})"

lemma find_first_above:
  assumes "sorted (map tw_id ws)" and "w \<in> set ws" and "a < tw_id w"
  shows "\<exists>v. find (\<lambda>v. a < tw_id v) ws = Some v \<and> v \<in> set ws \<and> a < tw_id v \<and> tw_id v \<le> tw_id w"
  using assms by (induction ws) auto

lemma pick_closer:
  assumes "sorted (map tw_id ws)" and "w \<in> set ws" and "tw_id (pick ws a) \<noteq> tw_id w"
  shows "pick ws a \<in> set ws" "tw_id (pick ws a) \<in> between a (tw_id w)" "between (tw_id (pick ws a)) (tw_id w) \<subseteq> between a (tw_id w) - {tw_id (pick ws a)}"
proof -
  have hd: "hd ws \<in> set ws" "tw_id (hd ws) \<le> tw_id w" using assms(1,2) by (cases ws; auto)+
  have found: "find (\<lambda>v. a < tw_id v) ws = Some v \<Longrightarrow> v \<in> set ws \<and> a < tw_id v" for v by (auto simp: find_Some_iff)
  have none: "find (\<lambda>v. a < tw_id v) ws = None \<Longrightarrow> \<not> a < tw_id w" using assms(2) by (auto simp: find_None_iff)
  show "pick ws a \<in> set ws" using hd found by (auto simp: pick_def split: option.split)
  have "a < tw_id w \<Longrightarrow> a < tw_id (pick ws a) \<and> tw_id (pick ws a) < tw_id w"
    using find_first_above [OF assms(1,2)] assms(3) by (fastforce simp: pick_def)
  moreover have "\<not> a < tw_id w \<Longrightarrow> a < tw_id (pick ws a) \<or> tw_id (pick ws a) < tw_id w"
    using found hd(2) assms(3) by (auto simp: pick_def split: option.splits)
  ultimately show "tw_id (pick ws a) \<in> between a (tw_id w)" "between (tw_id (pick ws a)) (tw_id w) \<subseteq> between a (tw_id w) - {tw_id (pick ws a)}"
    using assms(3) by (auto simp: between_def)
qed

definition pointer :: "reqKind \<Rightarrow> outTurn \<Rightarrow> string" where
  "pointer k t = (if k = reqResult then ot_lastResult t else ot_lastLog t)"

definition favoured :: "reqKind \<Rightarrow> outTurn \<Rightarrow> bool" where
  "favoured k t \<longleftrightarrow> (ot_resultTurn t = (k = reqResult))"

text \<open>What is still ahead of \<open>x\<close> in its class; an exchange that does not serve it brings it closer.\<close>

definition ahead :: "string set \<Rightarrow> reqKind \<Rightarrow> string \<Rightarrow> outTurn \<Rightarrow> nat" where
  "ahead U k x t = 2 * card (between (pointer k t) x \<inter> U) + (if favoured k t then 0 else 1)"

lemma turn_cases:
  assumes "no_preparation ws" and "k = reqLog \<or> k = reqResult" and "w \<in> set ws" and "in_class k now w"
  defines "C \<equiv> filter (in_class k now) ws"
  shows "\<exists>t' r. nextOutput now ws t = (t', r) \<and>
    (pointer k t' = tw_id (pick C (pointer k t)) \<and> \<not> favoured k t' \<and> fst r = Some (pick C (pointer k t), k)
     \<or> pointer k t' = pointer k t \<and> favoured k t' \<and> \<not> favoured k t)"
proof -
  have "C \<noteq> []" using assms(3,4) by (auto simp: C_def filter_empty_conv)
  moreover obtain r where "nextOutput now ws t = (let L = filter (in_class reqLog now) ws; R = filter (in_class reqResult now) ws in
     (if R \<noteq> [] \<and> (ot_resultTurn t \<or> L = []) then (t\<lparr>ot_lastResult := tw_id (pick R (ot_lastResult t)), ot_resultTurn := False\<rparr>, Some (pick R (ot_lastResult t), reqResult), r)
      else if L \<noteq> [] then (t\<lparr>ot_lastLog := tw_id (pick L (ot_lastLog t)), ot_resultTurn := True\<rparr>, Some (pick L (ot_lastLog t), reqLog), r)
      else (t, None, r)))"
    using nextOutput_turns [OF assms(1), of now t] unfolding Let_def by blast
  ultimately show ?thesis using assms(2) unfolding C_def by (auto simp: pointer_def favoured_def Let_def)
qed

lemma round_closer:
  assumes "no_preparation ws" and "sorted (map tw_id ws)" and "tw_id ` set ws \<subseteq> U" and "finite U"
    and "k = reqLog \<or> k = reqResult" and w: "w \<in> set ws" "in_class k now w"
    and miss: "\<forall>v. fst (snd (nextOutput now ws t)) = Some (v, k) \<longrightarrow> tw_id v \<noteq> tw_id w"
  shows "ahead U k (tw_id w) (fst (nextOutput now ws t)) < ahead U k (tw_id w) t"
proof -
  let ?C = "filter (in_class k now) ws" and ?x = "tw_id w"
  obtain t' r where n: "nextOutput now ws t = (t', r)" and
    c: "pointer k t' = tw_id (pick ?C (pointer k t)) \<and> \<not> favoured k t' \<and> fst r = Some (pick ?C (pointer k t), k)
      \<or> pointer k t' = pointer k t \<and> favoured k t' \<and> \<not> favoured k t"
    using turn_cases [OF assms(1,5) w] by blast
  have C: "sorted (map tw_id ?C)" "w \<in> set ?C" using assms(2) w by (auto simp: sorted_map intro: sorted_wrt_filter)
  show ?thesis using c
  proof
    assume a: "pointer k t' = tw_id (pick ?C (pointer k t)) \<and> \<not> favoured k t' \<and> fst r = Some (pick ?C (pointer k t), k)"
    let ?p = "pick ?C (pointer k t)"
    have "tw_id ?p \<noteq> ?x" using a miss n by simp
    note p = pick_closer [OF C this]
    have "tw_id ?p \<in> U" using p(1) assms(3) by auto
    then have "between (tw_id ?p) ?x \<inter> U \<subset> between (pointer k t) ?x \<inter> U" using p(2,3) by blast
    then have "card (between (tw_id ?p) ?x \<inter> U) < card (between (pointer k t) ?x \<inter> U)" using assms(4) by (intro psubset_card_mono) auto
    then show ?thesis using a n by (simp add: ahead_def)
  qed (simp add: n ahead_def)
qed

lemma attached_sorted: "sorted (map tw_id (attached tag s))"
  by (simp add: attached_def snapshot_sup_def sorted_filter)


definition demo_offered :: taskSupervisor where
  "demo_offered = newSupervisor\<lparr>sv_workers := [0 \<mapsto> (fresh_worker (demo_worker None) 7 10 8)\<lparr>tw_replied := True, tw_outcome := Some (demo_result demo_a),
     tw_done := True, tw_at := AtDone\<rparr>], sv_next := 1\<rparr>"

lemma demo_attached: "attached 7 demo_offered = [(fresh_worker (demo_worker None) 7 10 8)\<lparr>tw_replied := True, tw_outcome := Some (demo_result demo_a),
     tw_done := True, tw_at := AtDone\<rparr>]"
  by (simp add: attached_def snapshot_sup_def demo_offered_def newSupervisor_def map_filter_simps fresh_worker_def)


end
