(* ===== verification/Spec2Isabelle.thy ===== *)
theory Spec2Isabelle
  imports Text_Display Task_Liveness Role_Removal Worker_Slots Worker_Session
begin

text \<open>
  \<^bold>\<open>callsheet\<close>: a plane accepts tasks for roles, the roles live on nodes, and a worker (the sidecar) on each node runs an adapter for
  every task and reports its output and its result. This development models the core of both programs,
  \<open>src/internal/contract\<close> (the shared documents), \<open>src/internal/plane\<close> (the plane) and \<open>src/internal/sidecar\<close> (the worker), and proves what the
  plane promises about a task and what the worker promises about an execution.

  \<^bold>\<open>The parts and how they interact.\<close> A role registry holds the roles; a node registry holds the nodes' leases, attachments and
  acknowledged roles, and publishes facts about lost nodes. A dispatch is admitted when a candidate node can accept: the record of
  the new task is published to the task directory and its start is sent on the node's attachment. A writer publishes every
  further document of a task: running, stop intent, publication intent, terminal. The worker reserves a local slot, journals each
  barrier of the launch, streams output from a ring, freezes the outcome in its journal and offers it until the plane has
  committed it. After a disconnection or a restart of either side an inventory is exchanged and every execution is
  continued, stopped, asked for its result or forgotten.

  \<^bold>\<open>Conventions.\<close> A Go struct is a record and a tagged union a datatype; a nil pointer is \<open>None\<close>; strings and byte slices are
  \<open>string\<close>s of bytes; instants and durations are integers of nanoseconds; Go's \<open>int\<close> is \<open>int\<close>, every counter being
  bounded by \<open>MaxSafeInteger\<close> where the code checks it, and stated so. An error is \<open>Inl\<close>. One operation is one critical section of the
  code's lock (or an uninterrupted sequence of them), so the interleavings of the goroutines are the sequences of operations: \<open>exec\<close> over
  \<open>event\<close> for the plane, \<open>sup_step\<close> over \<open>supEvent\<close> for the worker, \<open>delivery\<close> for the exchange of output between
  them. What the disk, the clock, the network, the guardian process, JSON encodings and digests answer is an argument of the
  operation.

  \<^bold>\<open>Theories.\<close>
  \<^item> \<open>Prelude\<close>, \<open>Ring_Buffer\<close>: types, rule collections, list facts; Go's \<open>make\<close> and \<open>copy\<close> and the list a byte ring stands for.
  \<^item> \<open>Contract_Text\<close>, \<open>Contract_Log\<close>, \<open>Contract_Role\<close>, \<open>Contract_Workspace\<close>, \<open>Contract_Task\<close>: the documents of \<open>contract/role.go\<close>, \<open>node.go\<close>, \<open>task.go\<close>,
    \<open>task_view.go\<close>, \<open>task_record.go\<close>, \<open>workspace.go\<close>, \<open>task_workspace.go\<close>, \<open>control.go\<close>, \<open>controls.go\<close> with their grammars and validators. A base selector's text
    parses back to the same selector.
  \<^item> \<open>Role_Registry\<close>: \<open>plane/role_registry.go\<close>, \<open>roles.go\<close>. The locale \<open>instance_store\<close> is the contract of a store whose instances are numbered once; the registry
    document and, in \<open>Node_Registry\<close>, the attachments interpret it.
  \<^item> \<open>Node_Registry\<close>: \<open>plane/node_registry.go\<close>. Leases expire exactly at their end, an expired generation is never revived, and readiness is exactly the code's condition.
  \<^item> \<open>Plane_Log\<close>: \<open>plane/task_log.go\<close>. The locale \<open>tail_buffer\<close> states a bounded buffer that keeps the newest bytes; the ring implements it.
  \<^item> \<open>Text_Display\<close>: the log tail, the last line, escaping and reason messages, each bounded and free of what it must not contain.
  \<^item> \<open>Task_Entry\<close>, \<open>Task_Service\<close>, \<open>Task_Admission\<close>, \<open>Task_Writer\<close>, \<open>Task_Recon\<close>, \<open>Task_Controls\<close>: \<open>plane/tasks.go\<close>, \<open>task_writer.go\<close>, \<open>task_store.go\<close>, \<open>task_recon.go\<close>,
    \<open>task_controls.go\<close>, \<open>task_workspace.go\<close>: the operations of the task service. \<open>Task_System\<close> closes them into the event system.
  \<^item> \<open>Task_Ledger\<close>, \<open>Task_Ledger_Ops\<close>: the reservation counters kept incrementally equal the number of tasks with the derived
    property; the locale \<open>derived_count\<close> proves it once for both counters.
  \<^item> \<open>Task_History\<close>, \<open>Task_Store\<close>, \<open>Task_Invariant\<close>, \<open>Task_Lifecycle\<close>: the invariant of an entry and of the task directory, and the relation between an entry
    and the same task's entry after any run. \<open>Task_Load\<close> and \<open>Task_Reach\<close>: the documents' validation by schema, the start of the service, and reachability across crashes.
  \<^item> \<open>Task_Demo\<close>: a concrete directory. \<open>Task_Properties\<close>, \<open>Task_Operations\<close>, \<open>Task_Capacity\<close>, \<open>Task_Waits\<close>, \<open>Task_Liveness\<close>: the plane's promises: exact reservations, final outcomes, durable
    acknowledgements, one result digest, stop intents and publications that govern, admission within capacity, bounded waits, and that a decided task commits within four successful writes.
  \<^item> \<open>Role_Removal\<close>: \<open>plane/removal.go\<close>, the fence of a forced removal and its coordinator, composed with the task service: a role is deleted only while it holds no
    task, and a removal whose tasks are gone ends.
  \<^item> \<open>Worker_Output\<close>, \<open>Log_Delivery\<close>: \<open>sidecar/task_output.go\<close> and its exchange with the plane: what the plane appended is the observed output up to evicted gaps, each counted.
  \<^item> \<open>Worker_Journal\<close>: \<open>contract/journal.go\<close> and its writers: the documents the worker freezes and those recovery leaves can be read back.
  \<^item> \<open>Worker_Tasks\<close>, \<open>Worker_Slots\<close>: the supervisor of \<open>sidecar/tasks.go\<close>, \<open>task_workspace.go\<close>, \<open>task_recovery.go\<close> and the session's handlers of \<open>session_tasks.go\<close>: slot accounting is exact, an offered
    outcome is durable until it is committed.
  \<^item> \<open>Worker_Session\<close>: the order of output exchanges of \<open>session_tasks.go\<close>: no ready execution starves.

  \<^bold>\<open>Termination and bounds.\<close> Every definition is total: loops are structural recursions or functions with a measure, so no
  fuel is used. Waiting loops of the code (retries, timers) are one operation for each round, and liveness is stated as a number of rounds. Retained output is at most
  \<open>MaxLogRetainedBytes\<close> on the plane and the ring's own maximum on the worker; waits, pages, messages and tails have the code's constants.

  \<^bold>\<open>What the theorems rely on.\<close> The digest of a result is a valid hexadecimal digest; encoded lengths and the
  adapter lookup are arbitrary functions; a plane forgets only an execution whose inventory entry carried a result digest
  (\<open>reported\<close>), which \<open>disposeLocked\<close> ensures. \<open>tw_slot\<close> and \<open>tw_disk\<close> of a worker record history the code does not store.

  \<^bold>\<open>What the code does that its comments do not say.\<close> Four theorems describe defects: a timed-out result of a task with the legacy policy, a settled
  cancelled publication and a forced removal at the last revision each write a document the program itself refuses to load (\<open>legacy_timeout_unreadable\<close>, \<open>settled_cancel_unreadable\<close>,
  \<open>removal_counter_unreadable\<close>), and a stop during a checkout blocks the node until a restart (\<open>stopped_preparation_blocks\<close>).

  \<^bold>\<open>Not modelled.\<close> Strict JSON decoding (\<open>contract/strict.go\<close>) and every encoder: the models start from decoded values. Processes, pipes, signals and the guardian
  (\<open>sidecar/guardian.go\<close>), streams, HTTP handlers, TLS and state files: their answers are arguments. Git work trees and transports (\<open>taskworkspace\<close>,
  \<open>workspace\<close>, \<open>workspacetransfer\<close>, \<open>taskpublication\<close>): third-party git code; the decisions they return enter as arguments. The timers that
  decide when a loop runs its next round. The client, the command line, the MCP server, adapters, logging and the qualification tools hold no state of the core.
\<close>

end
